theory Spec2Isabelle
  imports Main "HOL-Library.Word"
begin

section \<open>Data model of the contractor\<close>

text \<open>
  \<open>types.Currency\<close> is a non-negative big integer, so it is a natural number here.
  \<open>types.BlockHeight\<close> and the host count of an allowance are \<open>uint64\<close>, whose
  arithmetic wraps. A \<open>types.SiaPublicKey\<close> is represented by its \<open>String()\<close>
  rendering, which is how the contractor keys every map that is indexed by a public key.
\<close>

type_synonym Currency = nat
type_synonym BlockHeight = "64 word"
type_synonym FileContractID = nat
type_synonym SiaPublicKey = string

record ContractUtility =
  GoodForUpload :: bool
  GoodForRenew :: bool
  Locked :: bool

record MaintenanceSpending =
  AccountBalanceCost :: Currency
  FundAccountCost :: Currency
  UpdatePriceTableCost :: Currency

text \<open>
  \<open>modules.RenterContract\<close>, the metadata of a contract. \<open>Revisions\<close> holds the
  \<open>NewFileSize\<close> of each entry of \<open>Transaction.FileContractRevisions\<close>.
\<close>

record RenterContract =
  ID :: FileContractID
  HostPublicKey :: SiaPublicKey
  RenterPublicKey :: SiaPublicKey
  StartHeight :: BlockHeight
  EndHeight :: BlockHeight
  RenterFunds :: Currency
  TotalCost :: Currency
  UploadSpending :: Currency
  DownloadSpending :: Currency
  FundAccountSpending :: Currency
  MaintenanceSpending :: MaintenanceSpending
  Utility :: ContractUtility
  Revisions :: "64 word list"

text \<open>
  The allowance of a renter, with the columns that \<open>UpdateRenter\<close> writes.
  \<open>ExpectedRedundancy\<close> is a \<open>float64\<close>; it is kept as its IEEE-754 bit pattern,
  and is only ever compared with zero.
\<close>

record Allowance =
  Funds :: Currency
  Hosts :: "64 word"
  Period :: BlockHeight
  RenewWindow :: BlockHeight
  ExpectedStorage :: "64 word"
  ExpectedUpload :: "64 word"
  ExpectedDownload :: "64 word"
  ExpectedRedundancy :: "64 word"
  MaxRPCPrice :: Currency
  MaxContractPrice :: Currency
  MaxDownloadBandwidthPrice :: Currency
  MaxSectorAccessPrice :: Currency
  MaxStoragePrice :: Currency
  MaxUploadBandwidthPrice :: Currency

record Renter =
  RenterAllowance :: Allowance
  CurrentPeriod :: BlockHeight
  PublicKey :: SiaPublicKey
  Email :: string

record HostExternalSettings =
  BaseRPCPrice :: Currency
  ContractPrice :: Currency
  SectorAccessPrice :: Currency
  StoragePrice :: Currency
  UploadBandwidthPrice :: Currency
  DownloadBandwidthPrice :: Currency
  MaxCollateral :: Currency
  MaxDuration :: BlockHeight
  Version :: string

record HostDBEntry =
  Settings :: HostExternalSettings
  HostKey :: SiaPublicKey
  Filtered :: bool

text \<open>
  Every error the maintenance code returns. \<open>External f\<close> is an error handed back by a
  collaborator (host session, wallet, contract store, watchdog); \<open>f\<close> tells whether it
  wraps the host-fault marker that \<open>IsHostsFault\<close> looks for. \<open>Wrapped\<close> is
  \<open>errors.AddContext\<close>, which keeps the wrapped error visible to \<open>errors.Contains\<close>.
  \<open>Panic\<close> stands for a run-time panic of the Go code.
\<close>

datatype error =
    ErrRenterNotFound
  | ErrHostNotInHostDB
  | ErrHostNotFound
  | ErrHostBlocked
  | ErrTooExpensive
  | ErrContractNotFound
  | ErrContractNotGFR
  | ErrAllowanceNotSet
  | ErrInsufficientMaxDuration
  | ErrGougingRPC
  | ErrGougingContract
  | ErrGougingSectorAccess
  | ErrNotSynced
  | ErrStopped
  | ErrZeroHosts
  | ErrWalletLocked
  | ErrAlreadyHasContract
  | External bool
  | Wrapped string error
  | Panic

fun IsHostsFault :: "error \<Rightarrow> bool" where
  "IsHostsFault (External f) = f"
| "IsHostsFault (Wrapped _ e) = IsHostsFault e"
| "IsHostsFault _ = False"

fun ContainsNotGFR :: "error \<Rightarrow> bool" where
  "ContainsNotGFR ErrContractNotGFR = True"
| "ContainsNotGFR (Wrapped _ e) = ContainsNotGFR e"
| "ContainsNotGFR _ = False"

section \<open>Gouging filter\<close>

text \<open>\<open>staticCheckFormPaymentContractGouging\<close>: \<open>None\<close> is the nil error.\<close>

definition staticCheckFormPaymentContractGouging ::
  "Allowance \<Rightarrow> HostExternalSettings \<Rightarrow> error option" where
  "staticCheckFormPaymentContractGouging allowance hostSettings =
     (if MaxRPCPrice allowance \<noteq> 0 \<and> MaxRPCPrice allowance \<le> BaseRPCPrice hostSettings
        then Some ErrGougingRPC
      else if MaxContractPrice allowance \<noteq> 0
              \<and> MaxContractPrice allowance \<le> ContractPrice hostSettings
        then Some ErrGougingContract
      else if MaxSectorAccessPrice allowance \<noteq> 0
              \<and> MaxSectorAccessPrice allowance \<le> SectorAccessPrice hostSettings
        then Some ErrGougingSectorAccess
      else None)"

text \<open>\<open>checkFormContractGouging\<close>, the form-time and renew-time check.\<close>

definition checkFormContractGouging ::
  "Allowance \<Rightarrow> HostExternalSettings \<Rightarrow> error option" where
  "checkFormContractGouging allowance hostSettings =
     (if MaxRPCPrice allowance \<noteq> 0 \<and> MaxRPCPrice allowance < BaseRPCPrice hostSettings
        then Some ErrGougingRPC
      else if MaxContractPrice allowance \<noteq> 0
              \<and> MaxContractPrice allowance < ContractPrice hostSettings
        then Some ErrGougingContract
      else None)"

section \<open>Constants, collaborators and the contractor's state\<close>

text \<open>
  Constants of the contractor package and of the network library that the maintenance
  code uses. \<open>fileContractMinimumFunding\<close> is a \<open>float64\<close>; it is given by the
  numerator and the (non-zero) denominator of its exact value.
\<close>

record constants =
  SectorSize :: "64 word"
  EstimatedFileContractTransactionSetSize :: "64 word"
  fileContractMinimumFunding :: "nat \<times> nat"
  consecutiveRenewalsBeforeReplacement :: BlockHeight
  maxStoragePrice :: Currency
  maxCollateral :: Currency
  randomHostsBufferForScore :: nat
  ContractFeeFundingMulFactor :: "64 word"
  MaxInitialContractFundingMulFactor :: "64 word"
  MaxInitialContractFundingDivFactor :: "64 word"
  MinInitialContractFundingDivFactor :: "64 word"

text \<open>
  \<open>Currency.MulFloat\<close> multiplies by the exact rational value of the float and rounds
  down. \<open>Currency.Div64\<close> and \<open>Currency.Div\<close> panic on a zero divisor; every call
  below is guarded.
\<close>

definition MulFloat :: "Currency \<Rightarrow> nat \<times> nat \<Rightarrow> Currency" where
  "MulFloat x y = (x * fst y) div snd y"

text \<open>
  The answers of the collaborators during one call: host database, transaction pool,
  wallet, consensus, the session and the negotiation with a host, the watchdog, and the
  disk under the contract store. Methods of the contractor and of the renter record that
  are not in the sources and only read (\<open>managedSynced\<close>, \<open>PeriodSpending\<close>,
  \<open>ContractEndHeight\<close>) answer here as well, and so do the comparison of host
  versions and the one comparison of floats in \<open>RenewContracts\<close>. \<open>stopped\<close>
  tells whether the stop channel is closed. Two answers come from the Go run-time:
  \<open>maxContractSliceCap\<close> is the largest capacity with which \<open>make\<close> allocates a
  slice of \<open>modules.RenterContract\<close> (beyond it \<open>make\<close> panics), and
  \<open>sliceTieOrder\<close> ranks the elements of a slice in the order in which
  \<open>sort.Slice\<close>, which is not stable, leaves those that compare equal.
\<close>

record env =
  synced :: bool
  stopped :: bool
  hdbHost :: "SiaPublicKey \<Rightarrow> HostDBEntry \<times> bool \<times> error option"
  hdbScoreBreakdown :: "HostDBEntry \<Rightarrow> error + Currency"
  tpoolFeeEstimation :: "Currency \<times> Currency"
  Tax :: "BlockHeight \<Rightarrow> Currency \<Rightarrow> Currency"
  PeriodSpendingTotalAllocated :: "SiaPublicKey \<Rightarrow> error + Currency"
  walletUnlocked :: "bool \<times> error option"
  versionSupported :: "string \<Rightarrow> bool"
  percentRemainingBelowThreshold :: "Currency \<Rightarrow> Currency \<Rightarrow> bool"
  ContractEndHeight :: "Renter \<Rightarrow> BlockHeight"
  sessionErr :: "SiaPublicKey \<Rightarrow> SiaPublicKey \<Rightarrow> error option"
  sessionSettings :: "SiaPublicKey \<Rightarrow> error + HostExternalSettings"
  walletNextAddressErr :: "error option"
  walletPrimarySeedErr :: "error option"
  walletStartTransactionErr :: "error option"
  fundSiacoinsErr :: "Currency \<Rightarrow> error option"
  protoRenew ::
    "RenterContract \<Rightarrow> HostDBEntry \<Rightarrow> Currency \<Rightarrow> BlockHeight \<Rightarrow> error + RenterContract"
  protoFormContract ::
    "SiaPublicKey \<Rightarrow> HostDBEntry \<Rightarrow> Currency \<Rightarrow> BlockHeight \<Rightarrow> error + RenterContract"
  RandomHostsWithLimits ::
    "nat \<Rightarrow> SiaPublicKey list \<Rightarrow> SiaPublicKey list \<Rightarrow> Allowance \<Rightarrow> error + HostDBEntry list"
  monitorContractErr :: "FileContractID \<Rightarrow> error option"
  updateUtilityErr :: "FileContractID \<Rightarrow> error option"
  maxContractSliceCap :: nat
  sliceTieOrder ::
    "(RenterContract \<times> Currency) list \<Rightarrow> RenterContract \<times> Currency \<Rightarrow> nat"

text \<open>
  The contractor's log, restricted to the lines that the theorems below speak about:
  "Duplicate contract found. New contract is ... and old contract is ...",
  "Marking a contract for renew: ...", "remote host determined to be at fault, tallying up
  failed renews ..." (with the new total and the id), "Skipping renewal because there are
  not enough funds remaining in the allowance ..." and its counterpart "skipping refresh
  ...", "Contract skipped because it is not good for renew ...", "Error renewing a
  contract ..." and "Error refreshing a contract ...".
\<close>

datatype log_entry =
    DuplicateContractFound FileContractID FileContractID
  | MarkingContractForRenew FileContractID
  | TallyingFailedRenews BlockHeight FileContractID
  | SkippingRenewal FileContractID
  | SkippingRefresh FileContractID
  | ContractSkippedNotGFR FileContractID
  | ErrorRenewing FileContractID
  | ErrorRefreshing FileContractID

text \<open>
  The contractor. \<open>renters\<close> is an association list, because
  \<open>managedLimitGFUHosts\<close> iterates over it; \<open>staticContracts\<close> lists the live
  contracts of the contract store in the order in which \<open>ViewAll\<close> hands them out.
  \<open>acquired\<close> holds the ids of the contracts that the running thread has acquired
  from the store and not yet returned. The locks that other threads hold are not part of
  the state: they are given back in the end, so that waiting for them delays a call but
  does not change what it returns.
\<close>

record Contractor =
  renters :: "(SiaPublicKey \<times> Renter) list"
  blockHeight :: BlockHeight
  staticContracts :: "RenterContract list"
  acquired :: "FileContractID set"
  renewedFrom :: "FileContractID \<rightharpoonup> FileContractID"
  renewedTo :: "FileContractID \<rightharpoonup> FileContractID"
  oldContracts :: "FileContractID \<rightharpoonup> RenterContract"
  pubKeysToContractID :: "string \<rightharpoonup> FileContractID"
  numFailedRenews :: "FileContractID \<rightharpoonup> BlockHeight"
  doubleSpentContracts :: "FileContractID \<rightharpoonup> BlockHeight"
  renewing :: "FileContractID set"
  logged :: "log_entry list"
  lowFundsAlert :: bool

section \<open>Contract store\<close>

text \<open>
  The contract store (package \<open>proto\<close>) is not part of the sources at hand. The spec
  describes it as the active contract set with acquire/return locking, which exclusively
  owns the live contracts, indexed by contract id. Each of its operations is modelled
  from that description, on the list of the live contracts, whose ids are distinct. The
  lock of a contract is exclusive and not re-entrant: acquiring a contract that the
  running thread has already acquired never returns. A call that never returns has the
  value \<open>None\<close>, here and in every function below that acquires a contract.
\<close>

text \<open>Modelled from the spec: \<open>ViewAll\<close>, the metadata of every live contract.\<close>

definition ViewAll :: "Contractor \<Rightarrow> RenterContract list" where
  "ViewAll c = staticContracts c"

text \<open>Modelled from the spec: \<open>View\<close>, the metadata of the live contract with an id.\<close>

definition View :: "Contractor \<Rightarrow> FileContractID \<Rightarrow> RenterContract option" where
  "View c fcid = find (\<lambda>rc. ID rc = fcid) (staticContracts c)"

text \<open>
  Modelled from the spec: \<open>Acquire\<close>, which looks the live contract up and takes its
  lock. The result is \<open>None\<close> when the call blocks for ever, and otherwise the
  contract, if the id is live, and the contractor with the lock taken.
\<close>

definition Acquire ::
  "Contractor \<Rightarrow> FileContractID \<Rightarrow> (RenterContract option \<times> Contractor) option" where
  "Acquire c fcid =
     (case View c fcid of
        None \<Rightarrow> Some (None, c)
      | Some rc \<Rightarrow>
          if fcid \<in> acquired c then None
          else Some (Some rc, c\<lparr>acquired := insert fcid (acquired c)\<rparr>))"

text \<open>Modelled from the spec: \<open>Return\<close>, which gives the lock of a contract back.\<close>

definition Return :: "Contractor \<Rightarrow> FileContractID \<Rightarrow> Contractor" where
  "Return c fcid = c\<lparr>acquired := acquired c - {fcid}\<rparr>"

text \<open>
  Modelled from the spec: \<open>Delete\<close>, which removes an acquired contract from the live
  set; its lock goes with it.
\<close>

definition Delete :: "Contractor \<Rightarrow> FileContractID \<Rightarrow> Contractor" where
  "Delete c fcid =
     c\<lparr>staticContracts := filter (\<lambda>rc. ID rc \<noteq> fcid) (staticContracts c),
       acquired := acquired c - {fcid}\<rparr>"

text \<open>
  Modelled from the spec: the insertion of a contract that \<open>FormContract\<close> or
  \<open>Renew\<close> has negotiated into the live set, under its id.
\<close>

definition InsertContract :: "Contractor \<Rightarrow> RenterContract \<Rightarrow> Contractor" where
  "InsertContract c rc =
     c\<lparr>staticContracts := filter (\<lambda>x. ID x \<noteq> ID rc) (staticContracts c) @ [rc]\<rparr>"

text \<open>Modelled from the spec: \<open>ByRenter\<close>, the live contracts of one renter.\<close>

definition ByRenter :: "Contractor \<Rightarrow> SiaPublicKey \<Rightarrow> RenterContract list" where
  "ByRenter c rpk = filter (\<lambda>rc. RenterPublicKey rc = rpk) (staticContracts c)"

text \<open>
  Modelled from the spec: \<open>UpdateUtility\<close> of a live contract, when the write
  succeeds.
\<close>

definition UpdateUtility :: "Contractor \<Rightarrow> FileContractID \<Rightarrow> ContractUtility \<Rightarrow> Contractor" where
  "UpdateUtility c fcid u =
     c\<lparr>staticContracts :=
          map (\<lambda>rc. if ID rc = fcid then rc\<lparr>Utility := u\<rparr> else rc) (staticContracts c)\<rparr>"

text \<open>
  Modelled from the spec: \<open>Contracts\<close> of the contractor, which is not in the sources
  either, hands out the active contract set.
\<close>

definition Contracts :: "Contractor \<Rightarrow> RenterContract list" where
  "Contracts c = ViewAll c"

section \<open>Updating a contract's utility\<close>

text \<open>
  \<open>callUpdateUtility\<close> hands the utility to the store's \<open>UpdateUtility\<close>, which
  writes to disk and may fail; a failed write leaves the contract as it was. The result
  is the error (\<open>None\<close> is nil) and the contractor afterwards.
\<close>

definition callUpdateUtility ::
  "env \<Rightarrow> Contractor \<Rightarrow> FileContractID \<Rightarrow> ContractUtility \<Rightarrow> bool
     \<Rightarrow> error option \<times> Contractor" where
  "callUpdateUtility E c fcid newUtility renewed =
     (case updateUtilityErr E fcid of
        Some e \<Rightarrow> (Some e, c)
      | None \<Rightarrow> (None, UpdateUtility c fcid newUtility))"

text \<open>
  \<open>managedUpdateContractUtility\<close>: the sanity check on \<open>renewedTo\<close> only writes a
  log line.
\<close>

definition managedUpdateContractUtility ::
  "env \<Rightarrow> Contractor \<Rightarrow> FileContractID \<Rightarrow> ContractUtility \<Rightarrow> error option \<times> Contractor" where
  "managedUpdateContractUtility E c fcid utility = callUpdateUtility E c fcid utility False"

text \<open>
  \<open>managedAcquireAndUpdateContractUtility\<close>: the deferred \<open>Return\<close> runs once the
  contract has been acquired.
\<close>

definition managedAcquireAndUpdateContractUtility ::
  "env \<Rightarrow> Contractor \<Rightarrow> FileContractID \<Rightarrow> ContractUtility
     \<Rightarrow> (error option \<times> Contractor) option" where
  "managedAcquireAndUpdateContractUtility E c fcid utility =
     (case Acquire c fcid of
        None \<Rightarrow> None
      | Some (None, c1) \<Rightarrow> Some (Some (External False), c1)
      | Some (Some fileContract, c1) \<Rightarrow>
          (case managedUpdateContractUtility E c1 (ID fileContract) utility of
             (err, c2) \<Rightarrow> Some (err, Return c2 (ID fileContract))))"

text \<open>
  Modelled from the spec: \<open>managedContractUtility\<close> is not in the sources. A contract
  carries its utility, so the utility of an id is that of the live contract, and the flag
  tells whether the id is live.
\<close>

definition managedContractUtility :: "Contractor \<Rightarrow> FileContractID \<Rightarrow> ContractUtility \<times> bool" where
  "managedContractUtility c fcid =
     (case View c fcid of
        None \<Rightarrow> (\<lparr>GoodForUpload = False, GoodForRenew = False, Locked = False\<rparr>, False)
      | Some rc \<Rightarrow> (Utility rc, True))"

section \<open>Capping the number of GFU hosts\<close>

text \<open>
  The first loop of \<open>managedLimitGFUHosts\<close>: the GFU contracts with the score of their
  host, in the order of the store. \<open>hostScores\<close> caches the scores by host key.
\<close>

fun gfuContractsWithScore ::
  "env \<Rightarrow> (SiaPublicKey \<rightharpoonup> Currency) \<Rightarrow> RenterContract list
     \<Rightarrow> (RenterContract \<times> Currency) list" where
  "gfuContractsWithScore E hostScores [] = []"
| "gfuContractsWithScore E hostScores (contract # rest) =
     (if \<not> GoodForUpload (Utility contract) then gfuContractsWithScore E hostScores rest
      else
        (case hostScores (HostPublicKey contract) of
           Some hostScore \<Rightarrow> (contract, hostScore) # gfuContractsWithScore E hostScores rest
         | None \<Rightarrow>
             (case hdbHost E (HostPublicKey contract) of (host, ok, err) \<Rightarrow>
                if \<not> ok \<or> err \<noteq> None then gfuContractsWithScore E hostScores rest
                else
                  (case hdbScoreBreakdown E host of
                     Inl _ \<Rightarrow> gfuContractsWithScore E hostScores rest
                   | Inr score \<Rightarrow>
                       (contract, score)
                         # gfuContractsWithScore E
                             (hostScores(HostPublicKey contract \<mapsto> score)) rest))))"

text \<open>
  \<open>sort.Slice\<close> with the comparison \<open>score i < score j\<close>: ascending by score. The
  sort is not stable, and the order in which it leaves contracts of equal score is that
  of \<open>sliceTieOrder\<close>: the slice is arranged by that rank and then sorted by score,
  equal scores keeping their place.
\<close>

definition sortByScore ::
  "env \<Rightarrow> (RenterContract \<times> Currency) list \<Rightarrow> (RenterContract \<times> Currency) list" where
  "sortByScore E xs = sort_key snd (sort_key (sliceTieOrder E xs) xs)"

text \<open>\<open>numHosts\<close>: the host count of every renter, by the renter's public key.\<close>

fun numHostsOf :: "(SiaPublicKey \<times> Renter) list \<Rightarrow> (SiaPublicKey \<rightharpoonup> 64 word) \<Rightarrow> (SiaPublicKey \<rightharpoonup> 64 word)" where
  "numHostsOf [] numHosts = numHosts"
| "numHostsOf ((k, renter) # rest) numHosts =
     numHostsOf rest (numHosts(PublicKey renter \<mapsto> Hosts (RenterAllowance renter)))"

text \<open>
  The last loop of \<open>managedLimitGFUHosts\<close>, over the sorted contracts: while the
  renter's counter is positive the contract is passed over and the counter decremented;
  after that every contract of the renter is marked not good for upload. A missing key of
  \<open>numHosts\<close> reads as zero.
\<close>

fun limitGFULoop ::
  "env \<Rightarrow> (SiaPublicKey \<rightharpoonup> 64 word) \<Rightarrow> (RenterContract \<times> Currency) list \<Rightarrow> Contractor
     \<Rightarrow> Contractor option" where
  "limitGFULoop E numHosts [] c = Some c"
| "limitGFULoop E numHosts ((contract, score) # rest) c =
     (let key = RenterPublicKey contract;
          n = (case numHosts key of None \<Rightarrow> 0 | Some n \<Rightarrow> n)
      in if n > 0 then limitGFULoop E (numHosts(key \<mapsto> n - 1)) rest c
         else
           (case Acquire c (ID contract) of
              None \<Rightarrow> None
            | Some (None, c1) \<Rightarrow> limitGFULoop E numHosts rest c1
            | Some (Some sc, c1) \<Rightarrow>
                (let u = (Utility sc)\<lparr>GoodForUpload := False\<rparr>
                 in limitGFULoop E numHosts rest
                      (Return (snd (managedUpdateContractUtility E c1 (ID sc) u)) (ID sc)))))"

definition managedLimitGFUHosts :: "env \<Rightarrow> Contractor \<Rightarrow> Contractor option" where
  "managedLimitGFUHosts E c =
     (let gfuContracts = sortByScore E (gfuContractsWithScore E Map.empty (Contracts c));
          numHosts = numHostsOf (renters c) Map.empty
      in limitGFULoop E numHosts gfuContracts c)"

section \<open>Duplicate contracts\<close>

text \<open>
  One iteration of the loop of \<open>managedCheckForDuplicates\<close>, on a contract of the
  snapshot that \<open>ViewAll\<close> returned. \<open>pubkeys\<close> is the local map from the
  concatenated renter and host key to a contract id. A failed \<open>save\<close> is only logged
  and leaves the maps in memory as they are.
\<close>

definition checkDuplicate ::
  "RenterContract \<Rightarrow> (string \<rightharpoonup> FileContractID) \<times> Contractor
     \<Rightarrow> ((string \<rightharpoonup> FileContractID) \<times> Contractor) option" where
  "checkDuplicate contract st =
     (case st of (pubkeys, c) \<Rightarrow>
      let key = RenterPublicKey contract @ HostPublicKey contract
      in case pubkeys key of
           None \<Rightarrow> Some (pubkeys(key \<mapsto> ID contract), c)
         | Some fcid \<Rightarrow>
             (case View c fcid of
                None \<Rightarrow> Some (pubkeys, c)
              | Some rc \<Rightarrow>
                  (let (newContract, oldContract) =
                         (if StartHeight rc \<ge> StartHeight contract then (rc, contract)
                          else (contract, rc));
                       c1 = c\<lparr>logged := logged c
                                  @ [DuplicateContractFound (ID newContract) (ID oldContract)]\<rparr>
                   in case Acquire c1 (ID oldContract) of
                        None \<Rightarrow> None
                      | Some (None, c2) \<Rightarrow> Some (pubkeys(key \<mapsto> ID newContract), c2)
                      | Some (Some oldSC, c2) \<Rightarrow>
                          (let c3 = c2\<lparr>renewedFrom :=
                                          (renewedFrom c2)(ID newContract \<mapsto> ID oldContract),
                                        renewedTo :=
                                          (renewedTo c2)(ID oldContract \<mapsto> ID newContract),
                                        oldContracts :=
                                          (oldContracts c2)(ID oldContract \<mapsto> oldSC)\<rparr>
                           in Some (pubkeys(key \<mapsto> ID newContract),
                                    Delete c3 (ID oldSC))))))"

fun checkDuplicates ::
  "RenterContract list \<Rightarrow> (string \<rightharpoonup> FileContractID) \<times> Contractor
     \<Rightarrow> ((string \<rightharpoonup> FileContractID) \<times> Contractor) option" where
  "checkDuplicates [] st = Some st"
| "checkDuplicates (contract # rest) st =
     (case checkDuplicate contract st of
        None \<Rightarrow> None
      | Some st1 \<Rightarrow> checkDuplicates rest st1)"

definition managedCheckForDuplicates :: "Contractor \<Rightarrow> Contractor option" where
  "managedCheckForDuplicates c = map_option snd (checkDuplicates (ViewAll c) (Map.empty, c))"

text \<open>
  Notions for reasoning about \<open>managedCheckForDuplicates\<close>. \<open>contractKey\<close> is the
  key under which the loop files a contract. \<open>duplicatePairs\<close> reads the duplicate
  pairs off the log, each as the id of the contract found to be the newer one and the id
  of the one found to be the older one, in the order in which they were found.
  \<open>visitedBefore c a b\<close> says that the loop over the live contracts of \<open>c\<close> comes to
  the id \<open>a\<close> before it comes to \<open>b\<close>.
\<close>

definition contractKey :: "RenterContract \<Rightarrow> string" where
  "contractKey rc = RenterPublicKey rc @ HostPublicKey rc"

fun duplicatePairs :: "log_entry list \<Rightarrow> (FileContractID \<times> FileContractID) list" where
  "duplicatePairs [] = []"
| "duplicatePairs (DuplicateContractFound newer older # rest) =
     (newer, older) # duplicatePairs rest"
| "duplicatePairs (_ # rest) = duplicatePairs rest"

definition visitedBefore :: "Contractor \<Rightarrow> FileContractID \<Rightarrow> FileContractID \<Rightarrow> bool" where
  "visitedBefore c a b = (a \<in> set (takeWhile (\<lambda>i. i \<noteq> b) (map ID (ViewAll c))))"

text \<open>
  \<open>duplicateResolved c after (newer, older)\<close> says of the contractor \<open>c\<close> before and
  \<open>after\<close> after the function that the two ids were live contracts of \<open>c\<close> with the
  same key; that the older one started strictly before the newer one, or at the same
  height and was visited after it; and that the older one is no longer live, its metadata
  being archived under its id and \<open>renewedTo\<close> leading from it to the newer one.
\<close>

definition duplicateResolved ::
  "Contractor \<Rightarrow> Contractor \<Rightarrow> FileContractID \<times> FileContractID \<Rightarrow> bool" where
  "duplicateResolved c after p =
     (case (View c (fst p), View c (snd p)) of
        (Some nc, Some oc) \<Rightarrow>
          contractKey nc = contractKey oc
          \<and> (StartHeight oc < StartHeight nc
               \<or> StartHeight oc = StartHeight nc \<and> visitedBefore c (fst p) (snd p))
          \<and> View after (snd p) = None \<and> oldContracts after (snd p) = Some oc
          \<and> renewedTo after (snd p) = Some (fst p)
      | _ \<Rightarrow> False)"

text \<open>
  The invariant of the loop of \<open>managedCheckForDuplicates\<close>, for the contractor \<open>c0\<close>
  at the start, the contracts \<open>visited\<close> and \<open>todo\<close> of the snapshot, the duplicate
  pairs found so far, and the state of the loop.
\<close>

definition foundEntry :: "FileContractID \<times> FileContractID \<Rightarrow> log_entry" where
  "foundEntry p = DuplicateContractFound (fst p) (snd p)"

definition dedupInv ::
  "Contractor \<Rightarrow> RenterContract list \<Rightarrow> RenterContract list
     \<Rightarrow> (FileContractID \<times> FileContractID) list
     \<Rightarrow> (string \<rightharpoonup> FileContractID) \<times> Contractor \<Rightarrow> bool" where
  "dedupInv c0 visited todo pairs st =
     (case st of (pubkeys, c) \<Rightarrow>
        staticContracts c0 = visited @ todo
      \<and> logged c = logged c0 @ map foundEntry pairs
      \<and> staticContracts c = filter (\<lambda>x. ID x \<notin> snd ` set pairs) (staticContracts c0)
      \<and> snd ` set pairs \<subseteq> ID ` set visited
      \<and> acquired c = acquired c0
      \<and> (\<forall>rc \<in> set visited. ID rc \<notin> snd ` set pairs
            \<longrightarrow> pubkeys (contractKey rc) = Some (ID rc))
      \<and> (\<forall>k i. pubkeys k = Some i
            \<longrightarrow> (\<exists>rc \<in> set visited. ID rc = i \<and> contractKey rc = k
                                     \<and> ID rc \<notin> snd ` set pairs))
      \<and> (\<forall>x \<in> set visited. \<exists>rc \<in> set visited.
            ID rc \<notin> snd ` set pairs \<and> contractKey rc = contractKey x
            \<and> StartHeight x \<le> StartHeight rc)
      \<and> (\<forall>p \<in> set pairs. duplicateResolved c0 c p)
      \<and> (\<forall>n. renewedFrom c n
               = (case map_of (rev pairs) n of
                    None \<Rightarrow> renewedFrom c0 n
                  | Some older \<Rightarrow> Some older)))"

section \<open>Funding estimator\<close>

text \<open>
  The walk back along \<open>renewedFrom\<close> in \<open>managedEstimateRenewFundingRequirements\<close>.
  The first argument is the number of iterations the loop has left (it starts at
  \<open>10e3\<close>); the accumulator holds the upload, download, fund-account and maintenance
  spending gathered so far.
\<close>

type_synonym spending = "Currency \<times> Currency \<times> Currency \<times> MaintenanceSpending"

definition addMaintenance :: "MaintenanceSpending \<Rightarrow> MaintenanceSpending \<Rightarrow> MaintenanceSpending" where
  "addMaintenance x y =
     \<lparr>AccountBalanceCost = AccountBalanceCost x + AccountBalanceCost y,
      FundAccountCost = FundAccountCost x + FundAccountCost y,
      UpdatePriceTableCost = UpdatePriceTableCost x + UpdatePriceTableCost y\<rparr>"

definition sumMaintenance :: "MaintenanceSpending \<Rightarrow> Currency" where
  "sumMaintenance x = AccountBalanceCost x + FundAccountCost x + UpdatePriceTableCost x"

fun renewHistorySpending ::
  "nat \<Rightarrow> Contractor \<Rightarrow> BlockHeight \<Rightarrow> FileContractID \<Rightarrow> spending \<Rightarrow> spending" where
  "renewHistorySpending 0 c currentPeriod currentID acc = acc"
| "renewHistorySpending (Suc n) c currentPeriod currentID (up, down, fund, maint) =
     (case renewedFrom c currentID of
        None \<Rightarrow> (up, down, fund, maint)
      | Some prevID \<Rightarrow>
          (case oldContracts c prevID of
             None \<Rightarrow> (up, down, fund, maint)
           | Some currentContract \<Rightarrow>
               if StartHeight currentContract < currentPeriod then (up, down, fund, maint)
               else renewHistorySpending n c currentPeriod prevID
                      (up + UploadSpending currentContract,
                       down + DownloadSpending currentContract,
                       fund + FundAccountSpending currentContract,
                       addMaintenance maint (MaintenanceSpending currentContract))))"

definition managedEstimateRenewFundingRequirements ::
  "constants \<Rightarrow> env \<Rightarrow> Contractor \<Rightarrow> RenterContract \<Rightarrow> BlockHeight \<Rightarrow> Allowance
     \<Rightarrow> error + Currency" where
  "managedEstimateRenewFundingRequirements K E c contract bh allowance =
     (case hdbHost E (HostPublicKey contract) of (host, exists, err) \<Rightarrow>
      case err of
        Some e \<Rightarrow> Inl (Wrapped ''error getting host from hostdb:'' e)
      | None \<Rightarrow>
      if \<not> exists then Inl ErrHostNotInHostDB
      else if Filtered host then Inl ErrHostBlocked
      else
      case map_of (renters c) (RenterPublicKey contract) of
        None \<Rightarrow> Inl ErrRenterNotFound
      | Some renter \<Rightarrow>
      case Revisions contract of
        [] \<Rightarrow> Inl Panic
      | newFileSize # _ \<Rightarrow>
      (let hs = Settings host;
           dataStored = unat newFileSize;
           storageCost = dataStored * unat (Period allowance) * StoragePrice hs;
           (prevUploadSpending, prevDownloadSpending, prevFundAccountSpending,
              prevMaintenanceSpending) =
             renewHistorySpending 10000 c (CurrentPeriod renter) (ID contract)
               (UploadSpending contract, DownloadSpending contract,
                FundAccountSpending contract, MaintenanceSpending contract);
           prevUploadDataEstimate0 =
             (if UploadBandwidthPrice hs \<noteq> 0
                then prevUploadSpending div UploadBandwidthPrice hs
              else prevUploadSpending);
           prevUploadDataEstimate =
             (if dataStored < prevUploadDataEstimate0 then dataStored
              else prevUploadDataEstimate0);
           newUploadsCost =
             prevUploadSpending
               + prevUploadDataEstimate * unat (Period allowance) * StoragePrice hs;
           newDownloadsCost = prevDownloadSpending;
           newFundAccountCost = prevFundAccountSpending;
           newMaintenanceCost = sumMaintenance prevMaintenanceSpending;
           contractPrice = ContractPrice hs;
           beforeSiafundFeesEstimate =
             storageCost + newUploadsCost + newDownloadsCost + newFundAccountCost
               + newMaintenanceCost + contractPrice;
           afterSiafundFeesEstimate =
             Tax E bh beforeSiafundFeesEstimate + beforeSiafundFeesEstimate;
           txnFees =
             snd (tpoolFeeEstimation E) * unat (EstimatedFileContractTransactionSetSize K);
           estimatedCost0 = afterSiafundFeesEstimate + txnFees;
           estimatedCost = estimatedCost0 + estimatedCost0 div 3
       in if Hosts allowance = 0 then Inl Panic
          else
            (let minimum =
                   MulFloat (Funds allowance) (fileContractMinimumFunding K)
                     div unat (Hosts allowance)
             in if estimatedCost < minimum then Inr minimum else Inr estimatedCost)))"

section \<open>Renewing one contract\<close>

record fileContractRenewal =
  renewalID :: FileContractID
  amount :: Currency
  hostPubKey :: SiaPublicKey
  renterPubKey :: SiaPublicKey

text \<open>The zero value \<open>modules.RenterContract{}\<close>.\<close>

definition emptyContract :: RenterContract where
  "emptyContract =
     \<lparr>ID = 0, HostPublicKey = [], RenterPublicKey = [], StartHeight = 0, EndHeight = 0,
      RenterFunds = 0, TotalCost = 0, UploadSpending = 0, DownloadSpending = 0,
      FundAccountSpending = 0,
      MaintenanceSpending =
        \<lparr>AccountBalanceCost = 0, FundAccountCost = 0, UpdatePriceTableCost = 0\<rparr>,
      Utility = \<lparr>GoodForUpload = False, GoodForRenew = False, Locked = False\<rparr>,
      Revisions = []\<rparr>"

text \<open>
  \<open>reflect.DeepEqual(allowance, Allowance{})\<close>: every field is zero; a float is zero
  when all bits but the sign are.
\<close>

definition allowanceNotSet :: "Allowance \<Rightarrow> bool" where
  "allowanceNotSet a =
     (Funds a = 0 \<and> Hosts a = 0 \<and> Period a = 0 \<and> RenewWindow a = 0
      \<and> ExpectedStorage a = 0 \<and> ExpectedUpload a = 0 \<and> ExpectedDownload a = 0
      \<and> push_bit 1 (ExpectedRedundancy a) = 0
      \<and> MaxRPCPrice a = 0 \<and> MaxContractPrice a = 0 \<and> MaxDownloadBandwidthPrice a = 0
      \<and> MaxSectorAccessPrice a = 0 \<and> MaxStoragePrice a = 0
      \<and> MaxUploadBandwidthPrice a = 0)"

definition capMaxCollateral :: "constants \<Rightarrow> HostDBEntry \<Rightarrow> HostDBEntry" where
  "capMaxCollateral K host =
     (if MaxCollateral (Settings host) > maxCollateral K
        then host\<lparr>Settings := (Settings host)\<lparr>MaxCollateral := maxCollateral K\<rparr>\<rparr>
      else host)"

text \<open>
  \<open>managedRenew\<close>. The store's \<open>Renew\<close> negotiates with the host and, when it
  succeeds, has put the new contract into the live set. An error after
  \<open>NextAddress\<close> is returned composed with the (nil) result of marking the address
  unused, which \<open>IsHostsFault\<close> and \<open>errors.Contains\<close> see through. The old
  contract is acquired before the negotiation and returned after it; on the return for a
  contract that is not good for renew it is not returned and stays acquired.
\<close>

definition managedRenew ::
  "constants \<Rightarrow> env \<Rightarrow> Contractor \<Rightarrow> FileContractID \<Rightarrow> SiaPublicKey \<Rightarrow> SiaPublicKey
     \<Rightarrow> Currency \<Rightarrow> BlockHeight \<Rightarrow> HostExternalSettings
     \<Rightarrow> ((error + RenterContract) \<times> Contractor) option" where
  "managedRenew K E c fcid rpk hpk contractFunding newEndHeight hostSettings =
     (case map_of (renters c) rpk of
        None \<Rightarrow> Some (Inl ErrRenterNotFound, c)
      | Some renter \<Rightarrow>
      case hdbHost E hpk of (host0, ok, err) \<Rightarrow>
      case err of
        Some e \<Rightarrow> Some (Inl (Wrapped ''error getting host from hostdb:'' e), c)
      | None \<Rightarrow>
      let host1 = host0\<lparr>Settings := hostSettings\<rparr>;
          allowance = RenterAllowance renter
      in if allowanceNotSet allowance then Some (Inl ErrAllowanceNotSet, c)
         else if \<not> ok then Some (Inl ErrHostNotFound, c)
         else if Filtered host1 then Some (Inl ErrHostBlocked, c)
         else if StoragePrice (Settings host1) > maxStoragePrice K
           then Some (Inl ErrTooExpensive, c)
         else if MaxDuration (Settings host1) < Period allowance
           then Some (Inl ErrInsufficientMaxDuration, c)
         else
           (let host = capMaxCollateral K host1
            in case checkFormContractGouging allowance (Settings host) of
                 Some e \<Rightarrow>
                   Some (Inl (Wrapped ''unable to renew - price gouging protection enabled'' e),
                         c)
               | None \<Rightarrow>
               case walletNextAddressErr E of
                 Some e \<Rightarrow> Some (Inl e, c)
               | None \<Rightarrow>
               case walletPrimarySeedErr E of
                 Some e \<Rightarrow> Some (Inl e, c)
               | None \<Rightarrow>
               case walletStartTransactionErr E of
                 Some e \<Rightarrow> Some (Inl e, c)
               | None \<Rightarrow>
               case fundSiacoinsErr E contractFunding of
                 Some e \<Rightarrow> Some (Inl e, c)
               | None \<Rightarrow>
               case Acquire c fcid of
                 None \<Rightarrow> None
               | Some (None, c0) \<Rightarrow> Some (Inl ErrContractNotFound, c0)
               | Some (Some oldContract, c0) \<Rightarrow>
                   if \<not> GoodForRenew (Utility oldContract)
                     then Some (Inl ErrContractNotGFR, c0)
                   else
                     (case protoRenew E oldContract host contractFunding newEndHeight of
                        Inl e \<Rightarrow> Some (Inl e, Return c0 (ID oldContract))
                      | Inr newContract \<Rightarrow>
                          (let c1 = Return (InsertContract c0 newContract) (ID oldContract)
                           in case monitorContractErr E (ID newContract) of
                                Some e \<Rightarrow> Some (Inl e, c1)
                              | None \<Rightarrow>
                                  Some (Inr newContract,
                                        c1\<lparr>pubKeysToContractID :=
                                             (pubKeysToContractID c1)
                                               (RenterPublicKey newContract
                                                  @ HostPublicKey newContract
                                                \<mapsto> ID newContract)\<rparr>)))))"

text \<open>
  The failure branch of \<open>managedRenewContract\<close>, entered with the error of
  \<open>managedRenew\<close> and the old contract as it was acquired, and left with the contract
  returned. \<open>++\<close> on a missing key of \<open>numFailedRenews\<close> stores 1. A failed
  write of the utility is only logged.
\<close>

definition lockedUtility :: "ContractUtility \<Rightarrow> ContractUtility" where
  "lockedUtility oldUtility =
     oldUtility\<lparr>GoodForRenew := False, GoodForUpload := False, Locked := True\<rparr>"

definition tallyFailedRenew :: "Contractor \<Rightarrow> FileContractID \<Rightarrow> Contractor" where
  "tallyFailedRenew c fcid =
     (let totalFailures = (case numFailedRenews c fcid of None \<Rightarrow> 0 | Some n \<Rightarrow> n) + 1
      in c\<lparr>numFailedRenews := (numFailedRenews c)(fcid \<mapsto> totalFailures),
            logged := logged c @ [TallyingFailedRenews totalFailures fcid]\<rparr>)"

definition renewFailed ::
  "constants \<Rightarrow> env \<Rightarrow> Contractor \<Rightarrow> Allowance \<Rightarrow> BlockHeight \<Rightarrow> RenterContract \<Rightarrow> error
     \<Rightarrow> error \<times> Contractor" where
  "renewFailed K E c allowance bh oldContract errRenew =
     (let c1 = (if IsHostsFault errRenew then tallyFailedRenew c (ID oldContract) else c);
          md = oldContract;
          (numRenews, failedBefore) =
            (case numFailedRenews c1 (ID md) of
               None \<Rightarrow> (0, False)
             | Some n \<Rightarrow> (n, True));
          secondHalfOfWindow = (bh + RenewWindow allowance div 2 \<ge> EndHeight md);
          replace = (numRenews \<ge> consecutiveRenewalsBeforeReplacement K)
      in if failedBefore \<and> secondHalfOfWindow \<and> replace
           then
             (Wrapped ''contract marked as bad for too many consecutive failed renew attempts''
                errRenew,
              Return (snd (callUpdateUtility E c1 (ID oldContract)
                             (lockedUtility (Utility oldContract)) True))
                (ID oldContract))
         else (Wrapped ''contract renewal with host was unsuccessful'' errRenew,
               Return c1 (ID oldContract)))"

text \<open>
  The success branch of \<open>managedRenewContract\<close>, entered with the old contract
  acquired. When one of the two writes of a utility fails, the old contract is returned
  and the function returns; otherwise the archived metadata is read from the old contract
  after its utility has been updated, and the old contract is deleted.
\<close>

definition renewSucceeded ::
  "env \<Rightarrow> Contractor \<Rightarrow> FileContractID \<Rightarrow> RenterContract \<Rightarrow> RenterContract
     \<Rightarrow> Contractor option" where
  "renewSucceeded E c fcid oldContract newContract =
     (let newUtility = \<lparr>GoodForUpload = True, GoodForRenew = True, Locked = False\<rparr>
      in case managedAcquireAndUpdateContractUtility E c (ID newContract) newUtility of
           None \<Rightarrow> None
         | Some (Some e, c1) \<Rightarrow> Some (Return c1 (ID oldContract))
         | Some (None, c1) \<Rightarrow>
             (let oldUtility = lockedUtility (Utility oldContract)
              in case callUpdateUtility E c1 (ID oldContract) oldUtility True of
                   (Some e, c2) \<Rightarrow> Some (Return c2 (ID oldContract))
                 | (None, c2) \<Rightarrow>
                     (let c3 = c2\<lparr>renewedFrom := (renewedFrom c2)(ID newContract \<mapsto> fcid),
                                   renewedTo := (renewedTo c2)(fcid \<mapsto> ID newContract),
                                   oldContracts :=
                                     (oldContracts c2)
                                       (fcid \<mapsto> oldContract\<lparr>Utility := oldUtility\<rparr>)\<rparr>
                      in Some (Delete c3 (ID oldContract)))))"

text \<open>
  The contract is marked as being renewed ("Marking a contract for renew") once the session
  with the host is open.
\<close>

definition markRenewing :: "Contractor \<Rightarrow> FileContractID \<Rightarrow> Contractor" where
  "markRenewing c fcid =
     c\<lparr>logged := logged c @ [MarkingContractForRenew fcid],
       renewing := insert fcid (renewing c)\<rparr>"

text \<open>
  \<open>managedRenewContract\<close>: the funds spent, the new contract, the error, and the
  contractor afterwards. The deferred function takes the id out of \<open>renewing\<close> on
  every return after the session has been opened. The old contract is acquired again
  after \<open>managedRenew\<close> has returned.
\<close>

definition managedRenewContract ::
  "constants \<Rightarrow> env \<Rightarrow> Contractor \<Rightarrow> fileContractRenewal \<Rightarrow> BlockHeight \<Rightarrow> BlockHeight
     \<Rightarrow> ((Currency \<times> RenterContract \<times> error option) \<times> Contractor) option" where
  "managedRenewContract K E c renewInstructions bh endHeight =
     (let key = renterPubKey renewInstructions
      in case map_of (renters c) key of
           None \<Rightarrow> Some ((0, emptyContract, Some ErrRenterNotFound), c)
         | Some renter \<Rightarrow>
         let fcid = renewalID renewInstructions;
             allowance = RenterAllowance renter
         in case sessionErr E (renterPubKey renewInstructions) (hostPubKey renewInstructions) of
              Some e \<Rightarrow>
                Some ((0, emptyContract,
                       Some (Wrapped ''Unable to establish session with host'' e)),
                      c)
            | None \<Rightarrow>
            let c0 = markRenewing c fcid;
                unmark = (\<lambda>x. x\<lparr>renewing := renewing x - {fcid}\<rparr>)
            in case sessionSettings E (hostPubKey renewInstructions) of
                 Inl e \<Rightarrow>
                   Some ((0, emptyContract, Some (Wrapped ''Unable to get host settings'' e)),
                         unmark c0)
               | Inr hostSettings \<Rightarrow>
               case managedRenew K E c0 fcid
                      (renterPubKey renewInstructions) (hostPubKey renewInstructions)
                      (amount renewInstructions) endHeight hostSettings of
                 None \<Rightarrow> None
               | Some (res, c1) \<Rightarrow>
               let newContract = (case res of Inl _ \<Rightarrow> emptyContract | Inr nc \<Rightarrow> nc)
               in case Acquire c1 fcid of
                    None \<Rightarrow> None
                  | Some (None, c2) \<Rightarrow>
                      Some ((0, newContract,
                             Some (Wrapped ''failed to acquire oldContract after renewal''
                                     ErrContractNotFound)),
                            unmark c2)
                  | Some (Some oldContract, c2) \<Rightarrow>
                      (case res of
                         Inl errRenew \<Rightarrow>
                           (case renewFailed K E c2 allowance bh oldContract errRenew of
                              (e, c3) \<Rightarrow> Some ((0, newContract, Some e), unmark c3))
                       | Inr _ \<Rightarrow>
                           (case renewSucceeded E c2 fcid oldContract newContract of
                              None \<Rightarrow> None
                            | Some c3 \<Rightarrow>
                                Some ((amount renewInstructions, newContract, None),
                                      unmark c3))))"

section \<open>Renewing the contracts of a renter\<close>

text \<open>
  The funds that remain in the allowance, as \<open>FormContracts\<close> and
  \<open>RenewContracts\<close> both compute them from the \<open>TotalAllocated\<close> of the period's
  spending.
\<close>

definition allowanceFundsRemaining :: "Allowance \<Rightarrow> Currency \<Rightarrow> Currency" where
  "allowanceFundsRemaining allowance totalAllocated =
     (let fundsRemaining = Funds allowance
      in if totalAllocated < fundsRemaining then fundsRemaining - totalAllocated
         else fundsRemaining)"

text \<open>
  The price of one sector for one period, as the refresh test computes it. The product
  \<open>SectorSize * uint64(Period)\<close> is a \<open>uint64\<close> product.
\<close>

definition sectorPriceOf :: "constants \<Rightarrow> Allowance \<Rightarrow> HostExternalSettings \<Rightarrow> Currency" where
  "sectorPriceOf K allowance hs =
     (let blockBytes = unat (SectorSize K * Period allowance);
          sectorStoragePrice = StoragePrice hs * blockBytes;
          sectorUploadBandwidthPrice = UploadBandwidthPrice hs * unat (SectorSize K);
          sectorDownloadBandwidthPrice = DownloadBandwidthPrice hs * unat (SectorSize K);
          sectorBandwidthPrice = sectorUploadBandwidthPrice + sectorDownloadBandwidthPrice
      in sectorStoragePrice + sectorBandwidthPrice)"

type_synonym classification =
  "RenterContract list \<times> fileContractRenewal list \<times> fileContractRenewal list \<times> Currency"

text \<open>
  The body of the first loop of \<open>RenewContracts\<close>, for one submitted id. The
  accumulator holds \<open>contractSet\<close>, \<open>renewSet\<close>, \<open>refreshSet\<close> and
  \<open>fundsRemaining\<close>; \<open>Inl\<close> is a return from \<open>RenewContracts\<close> with an error.
  \<open>percentRemainingBelowThreshold\<close> is the comparison of the float
  \<open>RenterFunds / TotalCost\<close> with \<open>MinContractFundRenewalThreshold\<close>; building the
  fraction panics when \<open>TotalCost\<close> is zero, and \<open>Div64\<close> panics when the allowance
  has no hosts.
\<close>

definition classifyContract ::
  "constants \<Rightarrow> env \<Rightarrow> Contractor \<Rightarrow> Renter \<Rightarrow> BlockHeight \<Rightarrow> FileContractID
     \<Rightarrow> classification \<Rightarrow> error + classification" where
  "classifyContract K E c renter bh fcid acc =
     (case acc of (contractSet, renewSet, refreshSet, fundsRemaining) \<Rightarrow>
      case View c fcid of
        None \<Rightarrow> Inr (contractSet, renewSet, refreshSet, fundsRemaining)
      | Some rc \<Rightarrow>
      if RenterPublicKey rc \<noteq> PublicKey renter
        then Inr (contractSet, renewSet, refreshSet, fundsRemaining)
      else
      case managedContractUtility c fcid of (cu, ok) \<Rightarrow>
      let allowance = RenterAllowance renter
      in if bh + RenewWindow allowance < EndHeight rc \<and> ok \<and> GoodForUpload cu
           then Inr (contractSet @ [rc], renewSet, refreshSet, fundsRemaining)
         else
         case PeriodSpendingTotalAllocated E (PublicKey renter) of
           Inl e \<Rightarrow> Inl e
         | Inr totalAllocated \<Rightarrow>
         let fundsRemaining1 = allowanceFundsRemaining allowance totalAllocated;
             skip = Inr (contractSet, renewSet, refreshSet, fundsRemaining1)
         in case hdbHost E (HostPublicKey rc) of (host, exists, err) \<Rightarrow>
            if err \<noteq> None then skip
            else if Filtered host then skip
            else if \<not> versionSupported E (Version (Settings host)) then skip
            else if \<not> ok \<or> \<not> GoodForRenew cu then skip
            else if bh + RenewWindow allowance \<ge> EndHeight rc
              then
                (case managedEstimateRenewFundingRequirements K E c rc bh allowance of
                   Inl e \<Rightarrow> if e = Panic then Inl Panic else skip
                 | Inr renewAmount \<Rightarrow>
                     Inr (contractSet,
                          renewSet @ [\<lparr>renewalID = ID rc, amount = renewAmount,
                                       hostPubKey = HostPublicKey rc,
                                       renterPubKey = PublicKey renter\<rparr>],
                          refreshSet, fundsRemaining1))
            else if TotalCost rc = 0 then Inl Panic
            else if RenterFunds rc < sectorPriceOf K allowance (Settings host) * 3
                    \<or> percentRemainingBelowThreshold E (RenterFunds rc) (TotalCost rc)
              then
                (if Hosts allowance = 0 then Inl Panic
                 else
                   (let refreshAmount0 = TotalCost rc * 2;
                        minimum = MulFloat (Funds allowance) (fileContractMinimumFunding K)
                                    div unat (Hosts allowance);
                        refreshAmount =
                          (if refreshAmount0 < minimum then minimum else refreshAmount0)
                    in Inr (contractSet, renewSet,
                            refreshSet @ [\<lparr>renewalID = ID rc, amount = refreshAmount,
                                           hostPubKey = HostPublicKey rc,
                                           renterPubKey = PublicKey renter\<rparr>],
                            fundsRemaining1)))
            else skip)"

text \<open>The first loop of \<open>RenewContracts\<close>, over the submitted ids.\<close>

fun classifyContracts ::
  "constants \<Rightarrow> env \<Rightarrow> Contractor \<Rightarrow> Renter \<Rightarrow> BlockHeight \<Rightarrow> FileContractID list
     \<Rightarrow> classification \<Rightarrow> error + classification" where
  "classifyContracts K E c renter bh [] acc = Inr acc"
| "classifyContracts K E c renter bh (fcid # rest) acc =
     (case classifyContract K E c renter bh fcid acc of
        Inl e \<Rightarrow> Inl e
      | Inr acc1 \<Rightarrow> classifyContracts K E c renter bh rest acc1)"

text \<open>
  The loop over the renew set and the loop over the refresh set have the same body, up to
  their log lines and the count of failed renewals, which nothing reads; \<open>refresh\<close>
  tells which of the two loops is running. The state of the loop is the contractor,
  \<open>contractSet\<close>, \<open>fundsRemaining\<close> and \<open>registerLowFundsAlert\<close>.
  \<open>renewIteration\<close> is one iteration; the first component of its result is
  \<open>Some\<close> of the error when the iteration returned from \<open>RenewContracts\<close> (the
  error may be nil when the wallet is locked).
\<close>

type_synonym renew_state = "Contractor \<times> RenterContract list \<times> Currency \<times> bool"

definition renewalErrorEntry :: "bool \<Rightarrow> FileContractID \<Rightarrow> error \<Rightarrow> log_entry" where
  "renewalErrorEntry refresh fcid e =
     (if refresh then ErrorRefreshing fcid
      else if ContainsNotGFR e then ContractSkippedNotGFR fcid
      else ErrorRenewing fcid)"

definition renewIteration ::
  "constants \<Rightarrow> env \<Rightarrow> Renter \<Rightarrow> BlockHeight \<Rightarrow> bool \<Rightarrow> fileContractRenewal \<Rightarrow> renew_state
     \<Rightarrow> (error option option \<times> renew_state) option" where
  "renewIteration K E renter bh refresh renewal st =
     (case st of (c, contractSet, fundsRemaining, registerLowFundsAlert) \<Rightarrow>
      if stopped E then Some (Some (Some ErrStopped), st)
      else
      case walletUnlocked E of (unlocked, err) \<Rightarrow>
      if \<not> unlocked \<or> err \<noteq> None then Some (Some err, st)
      else if amount renewal > fundsRemaining
        then Some (None,
                   (c\<lparr>logged := logged c
                          @ [if refresh then SkippingRefresh (renewalID renewal)
                             else SkippingRenewal (renewalID renewal)]\<rparr>,
                    contractSet, fundsRemaining, True))
      else
      case managedRenewContract K E c renewal bh (ContractEndHeight E renter) of
        None \<Rightarrow> None
      | Some ((fundsSpent, newContract, err), c1) \<Rightarrow>
      let fundsRemaining1 = fundsRemaining - fundsSpent
      in case err of
           Some e \<Rightarrow>
             Some (None,
                   (c1\<lparr>logged := logged c1
                           @ [renewalErrorEntry refresh (renewalID renewal) e]\<rparr>,
                    contractSet, fundsRemaining1, registerLowFundsAlert))
         | None \<Rightarrow>
             (case managedAcquireAndUpdateContractUtility E c1 (ID newContract)
                     \<lparr>GoodForUpload = True, GoodForRenew = True, Locked = False\<rparr> of
                None \<Rightarrow> None
              | Some (_, c2) \<Rightarrow>
                  Some (None,
                        (c2, contractSet @ [newContract], fundsRemaining1,
                         registerLowFundsAlert))))"

fun renewLoop ::
  "constants \<Rightarrow> env \<Rightarrow> Renter \<Rightarrow> BlockHeight \<Rightarrow> bool \<Rightarrow> fileContractRenewal list
     \<Rightarrow> renew_state \<Rightarrow> (error option option \<times> renew_state) option" where
  "renewLoop K E renter bh refresh [] st = Some (None, st)"
| "renewLoop K E renter bh refresh (renewal # rest) st =
     (case renewIteration K E renter bh refresh renewal st of
        None \<Rightarrow> None
      | Some (Some err, st1) \<Rightarrow> Some (Some err, st1)
      | Some (None, st1) \<Rightarrow> renewLoop K E renter bh refresh rest st1)"

text \<open>
  The last step of \<open>RenewContracts\<close>: the new map of failed renewals takes over the
  entries of the ids in the renew set and in the refresh set.
\<close>

fun keepFailedRenews ::
  "(FileContractID \<rightharpoonup> BlockHeight) \<Rightarrow> fileContractRenewal list
     \<Rightarrow> (FileContractID \<rightharpoonup> BlockHeight) \<Rightarrow> (FileContractID \<rightharpoonup> BlockHeight)" where
  "keepFailedRenews numFailed [] newFirstFailedRenew = newFirstFailedRenew"
| "keepFailedRenews numFailed (r # rest) newFirstFailedRenew =
     keepFailedRenews numFailed rest
       (case numFailed (renewalID r) of
          None \<Rightarrow> newFirstFailedRenew
        | Some n \<Rightarrow> newFirstFailedRenew(renewalID r \<mapsto> n))"

definition updateFailedRenews ::
  "fileContractRenewal list \<Rightarrow> fileContractRenewal list \<Rightarrow> Contractor \<Rightarrow> Contractor" where
  "updateFailedRenews renewSet refreshSet c =
     c\<lparr>numFailedRenews :=
          keepFailedRenews (numFailedRenews c) refreshSet
            (keepFailedRenews (numFailedRenews c) renewSet Map.empty)\<rparr>"

text \<open>
  The part of \<open>RenewContracts\<close> that follows the classification: the loop over the
  renew set, then the loop over the refresh set, then the update of the failed renewals.
  The deferred function registers or unregisters the low-funds alert on every return.
\<close>

definition renewBatch ::
  "constants \<Rightarrow> env \<Rightarrow> Renter \<Rightarrow> BlockHeight \<Rightarrow> fileContractRenewal list
     \<Rightarrow> fileContractRenewal list \<Rightarrow> Contractor \<Rightarrow> RenterContract list \<Rightarrow> Currency
     \<Rightarrow> ((RenterContract list option \<times> error option) \<times> Contractor) option" where
  "renewBatch K E renter bh renewSet refreshSet c contractSet fundsRemaining =
     (case renewLoop K E renter bh False renewSet (c, contractSet, fundsRemaining, False) of
        None \<Rightarrow> None
      | Some (Some err, (c1, contractSet1, fundsRemaining1, alert1)) \<Rightarrow>
          Some ((None, err), c1\<lparr>lowFundsAlert := alert1\<rparr>)
      | Some (None, st1) \<Rightarrow>
      case renewLoop K E renter bh True refreshSet st1 of
        None \<Rightarrow> None
      | Some (Some err, (c2, contractSet2, fundsRemaining2, alert2)) \<Rightarrow>
          Some ((None, err), c2\<lparr>lowFundsAlert := alert2\<rparr>)
      | Some (None, (c2, contractSet2, fundsRemaining2, alert2)) \<Rightarrow>
          Some ((Some contractSet2, None),
                (updateFailedRenews renewSet refreshSet c2)\<lparr>lowFundsAlert := alert2\<rparr>))"

text \<open>
  \<open>RenewContracts\<close>: the returned contract set (\<open>None\<close> is nil), the error, and the
  contractor afterwards. \<open>make\<close> panics when the run-time cannot allocate a contract
  set with a capacity of the number of the submitted ids.
\<close>

definition RenewContracts ::
  "constants \<Rightarrow> env \<Rightarrow> Contractor \<Rightarrow> SiaPublicKey \<Rightarrow> FileContractID list
     \<Rightarrow> ((RenterContract list option \<times> error option) \<times> Contractor) option" where
  "RenewContracts K E c rpk contracts =
     (if \<not> synced E then Some ((None, Some ErrNotSynced), c)
      else
      case map_of (renters c) rpk of
        None \<Rightarrow> Some ((None, Some ErrRenterNotFound), c)
      | Some renter \<Rightarrow>
      let bh = blockHeight c
      in if length contracts > maxContractSliceCap E
           then Some ((None, Some Panic), c\<lparr>lowFundsAlert := False\<rparr>)
         else
         case classifyContracts K E c renter bh contracts ([], [], [], 0) of
           Inl e \<Rightarrow> Some ((None, Some e), c\<lparr>lowFundsAlert := False\<rparr>)
         | Inr (contractSet, renewSet, refreshSet, fundsRemaining) \<Rightarrow>
             renewBatch K E renter bh renewSet refreshSet c contractSet fundsRemaining)"

text \<open>
  Notions for reasoning about a pass of \<open>RenewContracts\<close>. \<open>renewalEntry\<close> is the
  contract that a log line of a renewal is about. \<open>tallies i L\<close> counts the lines of
  \<open>L\<close> that tally a failed renewal of the contract \<open>i\<close> as the host's fault.
  \<open>raised m n\<close> is the entry \<open>m\<close> of \<open>numFailedRenews\<close> after \<open>n\<close> increments,
  the first of which creates a missing entry.
\<close>

fun renewalEntry :: "log_entry \<Rightarrow> FileContractID option" where
  "renewalEntry (DuplicateContractFound newer older) = None"
| "renewalEntry (MarkingContractForRenew i) = Some i"
| "renewalEntry (TallyingFailedRenews n i) = Some i"
| "renewalEntry (SkippingRenewal i) = Some i"
| "renewalEntry (SkippingRefresh i) = Some i"
| "renewalEntry (ContractSkippedNotGFR i) = Some i"
| "renewalEntry (ErrorRenewing i) = Some i"
| "renewalEntry (ErrorRefreshing i) = Some i"

fun isTally :: "FileContractID \<Rightarrow> log_entry \<Rightarrow> bool" where
  "isTally i (TallyingFailedRenews n j) = (i = j)"
| "isTally i _ = False"

definition tallies :: "FileContractID \<Rightarrow> log_entry list \<Rightarrow> nat" where
  "tallies i L = length (filter (isTally i) L)"

definition raised :: "BlockHeight option \<Rightarrow> nat \<Rightarrow> BlockHeight option" where
  "raised m n =
     (if n = 0 then m
      else Some ((case m of None \<Rightarrow> 0 | Some k \<Rightarrow> k) + of_nat n))"

section \<open>Forming the contracts of a renter\<close>

text \<open>
  \<open>managedNewContract\<close>. The store's \<open>FormContract\<close> negotiates with the host and,
  when it succeeds, has put the contract into the live set. When the renter already has
  a contract with the host, the funding is returned together with an error.
\<close>

definition managedNewContract ::
  "constants \<Rightarrow> env \<Rightarrow> Contractor \<Rightarrow> SiaPublicKey \<Rightarrow> HostDBEntry \<Rightarrow> Currency \<Rightarrow> BlockHeight
     \<Rightarrow> (Currency \<times> RenterContract \<times> error option) \<times> Contractor" where
  "managedNewContract K E c rpk host0 contractFunding endHeight =
     (case map_of (renters c) rpk of
        None \<Rightarrow> ((0, emptyContract, Some ErrRenterNotFound), c)
      | Some renter \<Rightarrow>
      if StoragePrice (Settings host0) > maxStoragePrice K
        then ((0, emptyContract, Some ErrTooExpensive), c)
      else if allowanceNotSet (RenterAllowance renter)
        then ((0, emptyContract, Some ErrAllowanceNotSet), c)
      else
      let hostSettings = Settings host0;
          period = Period (RenterAllowance renter)
      in if MaxDuration (Settings host0) < period
           then ((0, emptyContract, Some ErrInsufficientMaxDuration), c)
         else
         let host = capMaxCollateral K host0
         in case checkFormContractGouging (RenterAllowance renter) hostSettings of
              Some e \<Rightarrow>
                ((0, emptyContract,
                  Some (Wrapped ''unable to form a contract due to price gouging detection'' e)),
                 c)
            | None \<Rightarrow>
            case walletNextAddressErr E of
              Some e \<Rightarrow> ((0, emptyContract, Some e), c)
            | None \<Rightarrow>
            case walletPrimarySeedErr E of
              Some e \<Rightarrow> ((0, emptyContract, Some e), c)
            | None \<Rightarrow>
            case walletStartTransactionErr E of
              Some e \<Rightarrow> ((0, emptyContract, Some e), c)
            | None \<Rightarrow>
            case protoFormContract E rpk host contractFunding endHeight of
              Inl e \<Rightarrow> ((0, emptyContract, Some e), c)
            | Inr contract \<Rightarrow>
            let c1 = InsertContract c contract
            in case monitorContractErr E (ID contract) of
                 Some e \<Rightarrow> ((0, emptyContract, Some e), c1)
               | None \<Rightarrow>
               let key = RenterPublicKey contract @ HostPublicKey contract
               in if pubKeysToContractID c1 key \<noteq> None
                    then ((contractFunding, emptyContract, Some ErrAlreadyHasContract), c1)
                  else
                    ((contractFunding, contract, None),
                     c1\<lparr>pubKeysToContractID :=
                          (pubKeysToContractID c1)(key \<mapsto> ID contract)\<rparr>))"

text \<open>
  The loop of \<open>FormContracts\<close> that counts the renter's contracts which are good for
  upload; it stops as soon as \<open>int(Hosts)\<close> of them are found.
\<close>

fun countUploadContracts ::
  "Contractor \<Rightarrow> int \<Rightarrow> RenterContract list \<Rightarrow> RenterContract list \<times> int
     \<Rightarrow> RenterContract list \<times> int" where
  "countUploadContracts c hosts [] acc = acc"
| "countUploadContracts c hosts (contract # rest) (contractSet, uploadContracts) =
     (case managedContractUtility c (ID contract) of (cu, ok) \<Rightarrow>
      if ok \<and> GoodForUpload cu
        then (if uploadContracts + 1 \<ge> hosts then (contractSet @ [contract], uploadContracts + 1)
              else countUploadContracts c hosts rest
                     (contractSet @ [contract], uploadContracts + 1))
      else countUploadContracts c hosts rest (contractSet, uploadContracts))"

text \<open>
  The loop of \<open>FormContracts\<close> over the candidate hosts. Its state is the contractor,
  \<open>contractSet\<close>, \<open>fundsRemaining\<close>, \<open>neededContracts\<close> and
  \<open>registerLowFundsAlert\<close>; the first component of the result is \<open>Some\<close> of the
  error when the loop returned from \<open>FormContracts\<close>.
\<close>

type_synonym form_state = "Contractor \<times> RenterContract list \<times> Currency \<times> int \<times> bool"

fun formLoop ::
  "constants \<Rightarrow> env \<Rightarrow> Renter \<Rightarrow> BlockHeight \<Rightarrow> Currency \<Rightarrow> Currency \<Rightarrow> Currency
     \<Rightarrow> HostDBEntry list \<Rightarrow> form_state \<Rightarrow> (error option \<times> form_state) option" where
  "formLoop K E renter endHeight txnFee minInitial maxInitial [] st = Some (None, st)"
| "formLoop K E renter endHeight txnFee minInitial maxInitial (host # rest)
     (c, contractSet, fundsRemaining, neededContracts, registerLowFundsAlert) =
     (if stopped E
        then Some (Some ErrStopped,
                   (c, contractSet, fundsRemaining, neededContracts, registerLowFundsAlert))
      else if neededContracts \<le> 0
        then Some (None,
                   (c, contractSet, fundsRemaining, neededContracts, registerLowFundsAlert))
      else
      let contractFunds0 =
            (ContractPrice (Settings host) + txnFee) * unat (ContractFeeFundingMulFactor K);
          contractFunds1 = (if contractFunds0 > maxInitial then maxInitial else contractFunds0);
          contractFunds = (if contractFunds1 < minInitial then minInitial else contractFunds1)
      in case walletUnlocked E of (unlocked, err) \<Rightarrow>
         if \<not> unlocked \<or> err \<noteq> None
           then Some (Some ErrWalletLocked,
                      (c, contractSet, fundsRemaining, neededContracts, registerLowFundsAlert))
         else if fundsRemaining < contractFunds
           then Some (None, (c, contractSet, fundsRemaining, neededContracts, True))
         else
         case managedNewContract K E c (PublicKey renter) host contractFunds endHeight of
           ((fundsSpent, newContract, err), c1) \<Rightarrow>
         case err of
           Some e \<Rightarrow>
             formLoop K E renter endHeight txnFee minInitial maxInitial rest
               (c1, contractSet, fundsRemaining, neededContracts, registerLowFundsAlert)
         | None \<Rightarrow>
             (case managedAcquireAndUpdateContractUtility E c1 (ID newContract)
                     \<lparr>GoodForUpload = True, GoodForRenew = True, Locked = False\<rparr> of
                None \<Rightarrow> None
              | Some (_, c2) \<Rightarrow>
                  formLoop K E renter endHeight txnFee minInitial maxInitial rest
                    (c2, contractSet @ [newContract], fundsRemaining - fundsSpent,
                     neededContracts - 1, registerLowFundsAlert)))"

text \<open>The two exclusion lists of \<open>FormContracts\<close>.\<close>

definition hostBlacklist :: "RenterContract list \<Rightarrow> SiaPublicKey list" where
  "hostBlacklist allContracts = map HostPublicKey allContracts"

definition hostAddressBlacklist :: "RenterContract list \<Rightarrow> SiaPublicKey list" where
  "hostAddressBlacklist allContracts =
     map HostPublicKey
       (filter (\<lambda>contract. \<not> Locked (Utility contract) \<or> GoodForRenew (Utility contract)
                           \<or> GoodForUpload (Utility contract)) allContracts)"

text \<open>
  The part of \<open>FormContracts\<close> that follows the count of the upload contracts: the
  exclusion lists, the bounds of the initial funding, the candidate hosts and the loop
  over them. \<open>unregistered\<close> is what the deferred function leaves when no low-funds
  alert is to be registered.
\<close>

definition formBatch ::
  "constants \<Rightarrow> env \<Rightarrow> Contractor \<Rightarrow> Renter \<Rightarrow> RenterContract list \<Rightarrow> int \<Rightarrow> Currency
     \<Rightarrow> ((RenterContract list option \<times> error option) \<times> Contractor) option" where
  "formBatch K E c renter contractSet neededContracts fundsRemaining =
     (let allowance = RenterAllowance renter;
          numHosts = Hosts allowance;
          unregistered = c\<lparr>lowFundsAlert := False\<rparr>;
          endHeight = blockHeight c + Period allowance + RenewWindow allowance;
          allContracts = ByRenter c (PublicKey renter);
          blacklist = hostBlacklist allContracts;
          addressBlacklist = hostAddressBlacklist allContracts
      in if MaxInitialContractFundingDivFactor K = 0 \<or> MinInitialContractFundingDivFactor K = 0
           then Some ((None, Some Panic), unregistered)
         else
         let perHost = Funds allowance div unat numHosts;
             maxInitial =
               perHost * unat (MaxInitialContractFundingMulFactor K)
                 div unat (MaxInitialContractFundingDivFactor K);
             minInitial = perHost div unat (MinInitialContractFundingDivFactor K)
         in case RandomHostsWithLimits E
                   (nat (neededContracts * 4) + randomHostsBufferForScore K)
                   blacklist addressBlacklist allowance of
              Inl e \<Rightarrow> Some ((None, Some e), unregistered)
            | Inr hosts \<Rightarrow>
            let txnFee = snd (tpoolFeeEstimation E)
                           * unat (EstimatedFileContractTransactionSetSize K)
            in case formLoop K E renter endHeight txnFee minInitial maxInitial hosts
                      (c, contractSet, fundsRemaining, neededContracts, False) of
                 None \<Rightarrow> None
               | Some (Some e, (c1, contractSet1, fundsRemaining1, needed1, alert1)) \<Rightarrow>
                   Some ((None, Some e), c1\<lparr>lowFundsAlert := alert1\<rparr>)
               | Some (None, (c1, contractSet1, fundsRemaining1, needed1, alert1)) \<Rightarrow>
                   Some ((Some contractSet1, None), c1\<lparr>lowFundsAlert := alert1\<rparr>))"

text \<open>
  \<open>FormContracts\<close>: the returned contract set (\<open>None\<close> is nil), the error, and the
  contractor afterwards. \<open>make\<close> panics when the host count of the allowance does not
  fit a signed integer, or when the run-time cannot allocate a contract set with that
  capacity. \<open>int(Hosts)\<close> reads the \<open>uint64\<close> as a signed integer.
\<close>

definition FormContracts ::
  "constants \<Rightarrow> env \<Rightarrow> Contractor \<Rightarrow> SiaPublicKey
     \<Rightarrow> ((RenterContract list option \<times> error option) \<times> Contractor) option" where
  "FormContracts K E c rpk =
     (if \<not> synced E then Some ((None, Some ErrNotSynced), c)
      else
      case map_of (renters c) rpk of
        None \<Rightarrow> Some ((None, Some ErrRenterNotFound), c)
      | Some renter \<Rightarrow>
      let allowance = RenterAllowance renter;
          numHosts = Hosts allowance;
          unregistered = c\<lparr>lowFundsAlert := False\<rparr>
      in if numHosts = 0 then Some ((None, Some ErrZeroHosts), unregistered)
         else
         case PeriodSpendingTotalAllocated E (PublicKey renter) of
           Inl e \<Rightarrow> Some ((None, Some e), unregistered)
         | Inr totalAllocated \<Rightarrow>
         let fundsRemaining = allowanceFundsRemaining allowance totalAllocated
         in if 2 ^ 63 \<le> unat numHosts \<or> maxContractSliceCap E < unat numHosts
              then Some ((None, Some Panic), unregistered)
            else
            case countUploadContracts c (sint numHosts) (ByRenter c (PublicKey renter))
                   ([], 0) of
              (contractSet, uploadContracts) \<Rightarrow>
            let neededContracts = sint numHosts - uploadContracts
            in if neededContracts \<le> 0 then Some ((Some contractSet, None), unregistered)
               else formBatch K E c renter contractSet neededContracts fundsRemaining)"

section \<open>Example data\<close>

text \<open>A small world on which the theorems are instantiated.\<close>

definition exampleContract ::
  "FileContractID \<Rightarrow> SiaPublicKey \<Rightarrow> SiaPublicKey \<Rightarrow> BlockHeight \<Rightarrow> BlockHeight
     \<Rightarrow> Currency \<Rightarrow> bool \<Rightarrow> RenterContract" where
  "exampleContract fcid rpk hpk start end funds gfu =
     \<lparr>ID = fcid, HostPublicKey = hpk, RenterPublicKey = rpk, StartHeight = start,
      EndHeight = end, RenterFunds = funds, TotalCost = 1000, UploadSpending = 40,
      DownloadSpending = 30, FundAccountSpending = 20,
      MaintenanceSpending =
        \<lparr>AccountBalanceCost = 1, FundAccountCost = 2, UpdatePriceTableCost = 3\<rparr>,
      Utility = \<lparr>GoodForUpload = gfu, GoodForRenew = True, Locked = False\<rparr>,
      Revisions = [5]\<rparr>"

definition exampleAllowance :: Allowance where
  "exampleAllowance =
     \<lparr>Funds = 100000, Hosts = 2, Period = 1000, RenewWindow = 100, ExpectedStorage = 0,
      ExpectedUpload = 0, ExpectedDownload = 0, ExpectedRedundancy = 0, MaxRPCPrice = 0,
      MaxContractPrice = 0, MaxDownloadBandwidthPrice = 0, MaxSectorAccessPrice = 0,
      MaxStoragePrice = 0, MaxUploadBandwidthPrice = 0\<rparr>"

definition exampleRenter :: Renter where
  "exampleRenter =
     \<lparr>RenterAllowance = exampleAllowance, CurrentPeriod = 0, PublicKey = ''R'',
      Email = ''renter@example.com''\<rparr>"

definition exampleSettings :: HostExternalSettings where
  "exampleSettings =
     \<lparr>BaseRPCPrice = 1, ContractPrice = 100, SectorAccessPrice = 1, StoragePrice = 1,
      UploadBandwidthPrice = 1, DownloadBandwidthPrice = 1, MaxCollateral = 500,
      MaxDuration = 5000, Version = ''1.5.9''\<rparr>"

definition exampleHost :: "SiaPublicKey \<Rightarrow> HostDBEntry" where
  "exampleHost hpk = \<lparr>Settings = exampleSettings, HostKey = hpk, Filtered = False\<rparr>"

text \<open>
  Constants for the examples. \<open>fileContractMinimumFunding\<close> is \<open>float64(0.15)\<close>,
  whose exact value is \<open>5404319552844595 / 2^55\<close>.
\<close>

definition exampleConstants :: constants where
  "exampleConstants =
     \<lparr>SectorSize = 4, EstimatedFileContractTransactionSetSize = 2,
      fileContractMinimumFunding = (5404319552844595, 2 ^ 55),
      consecutiveRenewalsBeforeReplacement = 3,
      maxStoragePrice = 1000, maxCollateral = 1000, randomHostsBufferForScore = 1,
      ContractFeeFundingMulFactor = 4, MaxInitialContractFundingMulFactor = 10,
      MaxInitialContractFundingDivFactor = 3, MinInitialContractFundingDivFactor = 20\<rparr>"

text \<open>
  Collaborators that always succeed: every host is known and scores 1, the wallet is
  unlocked, nothing has been spent in the period, and a renewal or formation yields a
  contract whose id is the old id plus 100, respectively 7. The threshold of the refresh
  test is \<open>float64(0.03)\<close>, which is \<open>8646911284551352 / 2^58\<close>: the quotient of
  funds and cost, rounded to the nearest \<open>float64\<close>, is below it exactly when the
  quotient is below the midpoint \<open>17293822569102703 / 2^59\<close> between the threshold and
  the \<open>float64\<close> before it.
\<close>

definition exampleEnv :: env where
  "exampleEnv =
     \<lparr>synced = True, stopped = False,
      hdbHost = (\<lambda>hpk. (exampleHost hpk, True, None)),
      hdbScoreBreakdown = (\<lambda>host. Inr 1),
      tpoolFeeEstimation = (1, 10),
      Tax = (\<lambda>h x. x div 25),
      PeriodSpendingTotalAllocated = (\<lambda>rpk. Inr 0),
      walletUnlocked = (True, None),
      versionSupported = (\<lambda>v. True),
      percentRemainingBelowThreshold =
        (\<lambda>funds cost. funds * 2 ^ 59 < 17293822569102703 * cost),
      ContractEndHeight =
        (\<lambda>r. CurrentPeriod r + Period (RenterAllowance r) + RenewWindow (RenterAllowance r)),
      sessionErr = (\<lambda>rpk hpk. None),
      sessionSettings = (\<lambda>hpk. Inr exampleSettings),
      walletNextAddressErr = None,
      walletPrimarySeedErr = None,
      walletStartTransactionErr = None,
      fundSiacoinsErr = (\<lambda>funding. None),
      protoRenew =
        (\<lambda>old host funding end.
           Inr (old\<lparr>ID := ID old + 100, StartHeight := EndHeight old, EndHeight := end,
                     RenterFunds := funding, TotalCost := funding\<rparr>)),
      protoFormContract =
        (\<lambda>rpk host funding end. Inr (exampleContract 7 rpk (HostKey host) 0 end funding True)),
      RandomHostsWithLimits = (\<lambda>n blacklist addressBlacklist allowance. Inr [exampleHost ''H'']),
      monitorContractErr = (\<lambda>fcid. None),
      updateUtilityErr = (\<lambda>fcid. None),
      maxContractSliceCap = 2 ^ 39,
      sliceTieOrder = (\<lambda>slice x. 0)\<rparr>"

definition exampleContractor :: "RenterContract list \<Rightarrow> Contractor" where
  "exampleContractor contracts =
     \<lparr>renters = [(''R'', exampleRenter)], blockHeight = 500, staticContracts = contracts,
      acquired = {}, renewedFrom = Map.empty, renewedTo = Map.empty, oldContracts = Map.empty,
      pubKeysToContractID = Map.empty, numFailedRenews = Map.empty,
      doubleSpentContracts = Map.empty, renewing = {}, logged = [], lowFundsAlert = False\<rparr>"

text \<open>
  Contractors for the examples: a contract inside its renew window (at height 500 the
  window of 100 blocks reaches the end height 550, and so does half of it), the same
  contract after two failed renewals, a contract far from its end that is nearly out of
  funds and not good for upload, the same contract still good for upload, a contract
  that is nearly out of funds together with one that is still good for upload and one
  inside its renew window, three contracts of one renter with one host, two contracts of
  one renter with one host that start at the same height, and three upload contracts with
  three hosts.
\<close>

definition expiringContractor :: Contractor where
  "expiringContractor = exampleContractor [exampleContract 11 ''R'' ''H'' 0 550 10 False]"

definition failedTwiceContractor :: Contractor where
  "failedTwiceContractor = expiringContractor\<lparr>numFailedRenews := [11 \<mapsto> 2]\<rparr>"

definition exhaustedContractor :: Contractor where
  "exhaustedContractor = exampleContractor [exampleContract 11 ''R'' ''H'' 0 1100 10 False]"

definition exhaustedUploadContractor :: Contractor where
  "exhaustedUploadContractor = exampleContractor [exampleContract 11 ''R'' ''H'' 0 1100 10 True]"

definition mixedContractor :: Contractor where
  "mixedContractor =
     exampleContractor
       [exampleContract 12 ''R'' ''HH'' 0 1100 10 False,
        exampleContract 13 ''R'' ''HHH'' 0 1100 10 True,
        exampleContract 11 ''R'' ''H'' 0 550 10 False]"

definition duplicatesContractor :: Contractor where
  "duplicatesContractor =
     exampleContractor
       [exampleContract 13 ''R'' ''H'' 300 1100 10 True,
        exampleContract 11 ''R'' ''H'' 100 1100 10 True,
        exampleContract 12 ''R'' ''H'' 200 1100 10 True]"

definition tiedContractor :: Contractor where
  "tiedContractor =
     exampleContractor
       [exampleContract 21 ''R'' ''H'' 300 1100 10 True,
        exampleContract 22 ''R'' ''H'' 300 1100 10 True]"

definition threeHostsContractor :: Contractor where
  "threeHostsContractor =
     exampleContractor
       [exampleContract 11 ''R'' ''H'' 0 1100 10 True,
        exampleContract 12 ''R'' ''HH'' 0 1100 10 True,
        exampleContract 13 ''R'' ''HHH'' 0 1100 10 True]"

text \<open>
  Collaborators for the examples: the period's spending exceeds the allowance; the host
  lets every renewal fail; the disk fails when the utility of contract 111 is written;
  the host lets every renewal fail and the disk fails when the utility of contract 11 is
  written; a host scores the length of its key.
\<close>

definition overspentEnv :: env where
  "overspentEnv = exampleEnv\<lparr>PeriodSpendingTotalAllocated := (\<lambda>rpk. Inr 200000)\<rparr>"

definition hostFaultEnv :: env where
  "hostFaultEnv = exampleEnv\<lparr>protoRenew := (\<lambda>old host funding end. Inl (External True))\<rparr>"

definition failingDiskEnv :: env where
  "failingDiskEnv =
     exampleEnv\<lparr>updateUtilityErr :=
                   (\<lambda>fcid. if fcid = 111 then Some (External False) else None)\<rparr>"

definition hostFaultFailingDiskEnv :: env where
  "hostFaultFailingDiskEnv =
     hostFaultEnv\<lparr>updateUtilityErr :=
                    (\<lambda>fcid. if fcid = 11 then Some (External False) else None)\<rparr>"

definition scoredEnv :: env where
  "scoredEnv = exampleEnv\<lparr>hdbScoreBreakdown := (\<lambda>host. Inr (length (HostKey host)))\<rparr>"

definition exampleRenewal :: fileContractRenewal where
  "exampleRenewal = \<lparr>renewalID = 11, amount = 14164, hostPubKey = ''H'', renterPubKey = ''R''\<rparr>"

section \<open>Portal: payment intents\<close>

record item =
  item_ID :: string

datatype currency_code = CurrencyUSD

record PaymentIntentParams =
  Amount :: int
  Currency :: currency_code
  AutomaticPaymentMethodsEnabled :: bool

definition calculateOrderAmount :: "item list \<Rightarrow> int" where
  "calculateOrderAmount items = 500"

text \<open>
  What a POST to the payment-intent endpoint can carry: the decoder could not be prepared
  (the helper has already answered), the body did not decode (with the HTTP status to
  answer), or a list of items.
\<close>

datatype payment_request =
    DecoderFailed
  | DecodeError nat
  | Decoded "item list"

datatype payment_response =
    NoResponse
  | ErrorResponse nat
  | ClientSecret string

text \<open>
  \<open>paymentHandlerPOST\<close>. \<open>new\<close> is Stripe's \<open>paymentintent.New\<close>, which answers
  with the client secret or fails. The result is the parameters of the payment intent
  that was requested from Stripe, if any, and the HTTP response.
\<close>

definition paymentHandlerPOST ::
  "(PaymentIntentParams \<Rightarrow> string option) \<Rightarrow> payment_request
     \<Rightarrow> PaymentIntentParams option \<times> payment_response" where
  "paymentHandlerPOST new req =
     (case req of
        DecoderFailed \<Rightarrow> (None, NoResponse)
      | DecodeError code \<Rightarrow> (None, ErrorResponse code)
      | Decoded items \<Rightarrow>
          (let params = \<lparr>Amount = calculateOrderAmount items, Currency = CurrencyUSD,
                          AutomaticPaymentMethodsEnabled = True\<rparr>
           in case new params of
                None \<Rightarrow> (Some params, ErrorResponse 500)
              | Some secret \<Rightarrow> (Some params, ClientSecret secret)))"

section \<open>Theorems\<close>

lemmas example_defs =
  exampleContract_def exampleAllowance_def exampleRenter_def exampleSettings_def
  exampleHost_def exampleConstants_def exampleEnv_def exampleContractor_def

subsection \<open>Funding estimator\<close>

lemma renewHistorySpending_no_predecessor:
  "renewedFrom c currentID = None \<Longrightarrow> renewHistorySpending n c p currentID acc = acc"
  by (cases n; cases acc) auto

lemma example_estimate:
  "managedEstimateRenewFundingRequirements exampleConstants exampleEnv
     (exampleContractor []) (exampleContract 11 ''R'' ''H'' 0 1100 10 False) 500 exampleAllowance
   = Inr 14164"
  by (simp add: managedEstimateRenewFundingRequirements_def example_defs Let_def
        sumMaintenance_def MulFloat_def renewHistorySpending_no_predecessor)

text \<open>
  C4. For a renter with positive funds and a positive number of hosts, whenever
  \<open>managedEstimateRenewFundingRequirements\<close> returns without error, the amount it
  returns is at least the allowance's funds multiplied by \<open>fileContractMinimumFunding\<close>
  and divided by the number of hosts, in the currency arithmetic of the code
  (\<open>MulFloat\<close>, then \<open>Div64\<close>).
\<close>

theorem estimate_lower_bound:
  assumes "0 < Funds a" and "Hosts a \<noteq> 0"
    and "managedEstimateRenewFundingRequirements K E c contract bh a = Inr est"
  shows "MulFloat (Funds a) (fileContractMinimumFunding K) div unat (Hosts a) \<le> est"
  using assms(3)
  by (auto simp: managedEstimateRenewFundingRequirements_def Let_def
       split: prod.splits option.splits if_splits list.splits)

theorem estimate_lower_bound_witness:
  "0 < Funds exampleAllowance \<and> Hosts exampleAllowance \<noteq> 0
   \<and> managedEstimateRenewFundingRequirements exampleConstants exampleEnv
       (exampleContractor []) (exampleContract 11 ''R'' ''H'' 0 1100 10 False) 500 exampleAllowance
     = Inr 14164
   \<and> MulFloat (Funds exampleAllowance) (fileContractMinimumFunding exampleConstants)
       div unat (Hosts exampleAllowance) \<le> 14164"
proof -
  have f: "0 < Funds exampleAllowance" and h: "Hosts exampleAllowance \<noteq> 0"
    by (simp_all add: exampleAllowance_def)
  from estimate_lower_bound [OF f h example_estimate] f h example_estimate
  show ?thesis by simp
qed

subsection \<open>Evaluating the examples\<close>

lemmas scenario_defs =
  expiringContractor_def failedTwiceContractor_def exhaustedContractor_def
  exhaustedUploadContractor_def mixedContractor_def duplicatesContractor_def
  tiedContractor_def threeHostsContractor_def overspentEnv_def hostFaultEnv_def failingDiskEnv_def
  hostFaultFailingDiskEnv_def scoredEnv_def exampleRenewal_def

lemmas store_defs =
  View_def Acquire_def Return_def Delete_def ViewAll_def UpdateUtility_def InsertContract_def
  ByRenter_def managedContractUtility_def

lemmas renew_defs =
  managedRenewContract_def managedRenew_def renewFailed_def renewSucceeded_def
  markRenewing_def tallyFailedRenew_def callUpdateUtility_def managedUpdateContractUtility_def
  managedAcquireAndUpdateContractUtility_def lockedUtility_def allowanceNotSet_def
  capMaxCollateral_def checkFormContractGouging_def

lemma example_estimate_expiring:
  assumes "E = overspentEnv \<or> E = hostFaultEnv \<or> E = exampleEnv"
  shows "managedEstimateRenewFundingRequirements exampleConstants E expiringContractor
           (exampleContract 11 ''R'' ''H'' 0 550 10 False) 500 exampleAllowance
         = Inr 14164"
  using assms
  by (auto simp add: managedEstimateRenewFundingRequirements_def example_defs scenario_defs
        Let_def sumMaintenance_def MulFloat_def renewHistorySpending_no_predecessor)

lemma example_classify_expiring:
  assumes "E = overspentEnv \<or> E = hostFaultEnv \<or> E = exampleEnv"
  shows "classifyContracts exampleConstants E expiringContractor exampleRenter 500 [11]
           ([], [], [], 0)
         = Inr ([], [exampleRenewal], [], 100000)"
proof -
  have v: "View expiringContractor 11 = Some (exampleContract 11 ''R'' ''H'' 0 550 10 False)"
    by (simp add: store_defs scenario_defs example_defs)
  have u: "managedContractUtility expiringContractor 11
           = (\<lparr>GoodForUpload = False, GoodForRenew = True, Locked = False\<rparr>, True)"
    by (simp add: store_defs scenario_defs example_defs)
  have p: "PublicKey exampleRenter = ''R''" "RenterAllowance exampleRenter = exampleAllowance"
    "RenterPublicKey (exampleContract 11 ''R'' ''H'' 0 550 10 False) = ''R''"
    "HostPublicKey (exampleContract 11 ''R'' ''H'' 0 550 10 False) = ''H''"
    "EndHeight (exampleContract 11 ''R'' ''H'' 0 550 10 False) = 550"
    "ID (exampleContract 11 ''R'' ''H'' 0 550 10 False) = 11"
    "RenewWindow exampleAllowance = 100"
    by (simp_all add: example_defs)
  have e: "PeriodSpendingTotalAllocated E ''R'' = Inr 200000
           \<or> PeriodSpendingTotalAllocated E ''R'' = Inr 0"
    "hdbHost E ''H'' = (exampleHost ''H'', True, None)" "versionSupported E ''1.5.9''"
    using assms by (auto simp: scenario_defs example_defs)
  have f: "allowanceFundsRemaining exampleAllowance 200000 = 100000"
    "allowanceFundsRemaining exampleAllowance 0 = 100000"
    by (simp_all add: allowanceFundsRemaining_def example_defs)
  from e(1) show ?thesis
    by (auto simp add: classifyContract_def v u p e(2,3) f example_estimate_expiring [OF assms]
          Let_def exampleRenewal_def exampleHost_def exampleSettings_def)
qed

subsection \<open>Funds remaining in the allowance\<close>

lemma classifyContract_funds:
  assumes "PeriodSpendingTotalAllocated E (PublicKey renter) = Inr ta"
    and "classifyContract K E c renter bh fcid (cs, rs, fs, fr) = Inr (cs', rs', fs', fr')"
  shows "fr' = allowanceFundsRemaining (RenterAllowance renter) ta
         \<or> (fr' = fr \<and> rs' = rs \<and> fs' = fs)"
  using assms
  by (auto simp: classifyContract_def Let_def
        split: option.splits if_splits prod.splits sum.splits)

lemma classifyContract_grows:
  assumes "classifyContract K E c renter bh fcid (cs, rs, fs, fr) = Inr (cs', rs', fs', fr')"
  shows "set rs \<subseteq> set rs' \<and> set fs \<subseteq> set fs'"
  using assms
  by (auto simp: classifyContract_def Let_def
        split: option.splits if_splits prod.splits sum.splits)

lemma classify_grows:
  assumes "classifyContracts K E c renter bh ids (cs, rs, fs, fr) = Inr (cs', rs', fs', fr')"
  shows "set rs \<subseteq> set rs' \<and> set fs \<subseteq> set fs'"
  using assms
proof (induction ids arbitrary: cs rs fs fr)
  case Nil
  then show ?case by simp
next
  case (Cons fcid rest)
  from Cons.prems obtain cs1 rs1 fs1 fr1 where
    1: "classifyContract K E c renter bh fcid (cs, rs, fs, fr) = Inr (cs1, rs1, fs1, fr1)"
    and 2: "classifyContracts K E c renter bh rest (cs1, rs1, fs1, fr1) = Inr (cs', rs', fs', fr')"
    by (auto split: sum.splits)
  from classifyContract_grows [OF 1] Cons.IH [OF 2] show ?case by auto
qed

lemma classify_funds:
  assumes "PeriodSpendingTotalAllocated E (PublicKey renter) = Inr ta"
    and "classifyContracts K E c renter bh ids (cs, rs, fs, fr) = Inr (cs', rs', fs', fr')"
  shows "fr' = allowanceFundsRemaining (RenterAllowance renter) ta
         \<or> (fr' = fr \<and> rs' = rs \<and> fs' = fs)"
  using assms(2)
proof (induction ids arbitrary: cs rs fs fr)
  case Nil
  then show ?case by simp
next
  case (Cons fcid rest)
  from Cons.prems obtain cs1 rs1 fs1 fr1 where
    1: "classifyContract K E c renter bh fcid (cs, rs, fs, fr) = Inr (cs1, rs1, fs1, fr1)"
    and 2: "classifyContracts K E c renter bh rest (cs1, rs1, fs1, fr1) = Inr (cs', rs', fs', fr')"
    by (auto split: sum.splits)
  from classifyContract_funds [OF assms(1) 1] Cons.IH [OF 2] show ?case by auto
qed

text \<open>
  C9. In \<open>FormContracts\<close> and in \<open>RenewContracts\<close> the batch runs with the
  allowance's funds minus the period's \<open>TotalAllocated\<close> only when
  \<open>TotalAllocated\<close> is strictly below the funds; otherwise the subtraction is skipped
  and the batch runs with the full funds of the allowance, not with zero. For
  \<open>FormContracts\<close> the batch is what follows the allocation of the contract set and
  the count of the upload contracts, when more contracts are needed; for
  \<open>RenewContracts\<close> it is the two renewal loops, which follow the allocation of the
  contract set and the classification, when there is something to renew or to refresh.
\<close>

theorem funds_remaining_keeps_full_allowance:
  assumes "synced E" and "map_of (renters c) rpk = Some renter"
    and "PeriodSpendingTotalAllocated E (PublicKey renter) = Inr totalAllocated"
  shows "(Hosts (RenterAllowance renter) \<noteq> 0
          \<and> unat (Hosts (RenterAllowance renter)) < 2 ^ 63
          \<and> unat (Hosts (RenterAllowance renter)) \<le> maxContractSliceCap E
          \<and> countUploadContracts c (sint (Hosts (RenterAllowance renter)))
               (ByRenter c (PublicKey renter)) ([], 0) = (contractSet, n)
          \<and> n < sint (Hosts (RenterAllowance renter))
          \<longrightarrow> FormContracts K E c rpk
               = formBatch K E c renter contractSet (sint (Hosts (RenterAllowance renter)) - n)
                   (if totalAllocated < Funds (RenterAllowance renter)
                      then Funds (RenterAllowance renter) - totalAllocated
                    else Funds (RenterAllowance renter)))
       \<and> (length ids \<le> maxContractSliceCap E
          \<and> classifyContracts K E c renter (blockHeight c) ids ([], [], [], 0)
            = Inr (contractSet', renewSet, refreshSet, fundsRemaining)
          \<and> (renewSet \<noteq> [] \<or> refreshSet \<noteq> [])
          \<longrightarrow> RenewContracts K E c rpk ids
               = renewBatch K E renter (blockHeight c) renewSet refreshSet c contractSet'
                   (if totalAllocated < Funds (RenterAllowance renter)
                      then Funds (RenterAllowance renter) - totalAllocated
                    else Funds (RenterAllowance renter)))"
proof (intro conjI impI)
  assume "Hosts (RenterAllowance renter) \<noteq> 0
          \<and> unat (Hosts (RenterAllowance renter)) < 2 ^ 63
          \<and> unat (Hosts (RenterAllowance renter)) \<le> maxContractSliceCap E
          \<and> countUploadContracts c (sint (Hosts (RenterAllowance renter)))
               (ByRenter c (PublicKey renter)) ([], 0) = (contractSet, n)
          \<and> n < sint (Hosts (RenterAllowance renter))"
  with assms show "FormContracts K E c rpk
               = formBatch K E c renter contractSet (sint (Hosts (RenterAllowance renter)) - n)
                   (if totalAllocated < Funds (RenterAllowance renter)
                      then Funds (RenterAllowance renter) - totalAllocated
                    else Funds (RenterAllowance renter))"
    by (simp add: FormContracts_def Let_def allowanceFundsRemaining_def)
next
  assume a: "length ids \<le> maxContractSliceCap E
          \<and> classifyContracts K E c renter (blockHeight c) ids ([], [], [], 0)
            = Inr (contractSet', renewSet, refreshSet, fundsRemaining)
          \<and> (renewSet \<noteq> [] \<or> refreshSet \<noteq> [])"
  with classify_funds [OF assms(3), of K c "blockHeight c" ids "[]" "[]" "[]" 0
         contractSet' renewSet refreshSet fundsRemaining]
  have "fundsRemaining = allowanceFundsRemaining (RenterAllowance renter) totalAllocated"
    by auto
  with a assms show "RenewContracts K E c rpk ids
               = renewBatch K E renter (blockHeight c) renewSet refreshSet c contractSet'
                   (if totalAllocated < Funds (RenterAllowance renter)
                      then Funds (RenterAllowance renter) - totalAllocated
                    else Funds (RenterAllowance renter))"
    by (simp add: RenewContracts_def Let_def allowanceFundsRemaining_def)
qed

theorem funds_remaining_keeps_full_allowance_witness:
  "FormContracts exampleConstants overspentEnv expiringContractor ''R''
     = formBatch exampleConstants overspentEnv expiringContractor exampleRenter [] 2 100000
   \<and> RenewContracts exampleConstants overspentEnv expiringContractor ''R'' [11]
     = renewBatch exampleConstants overspentEnv exampleRenter 500 [exampleRenewal] []
         expiringContractor [] 100000"
proof -
  have s: "synced overspentEnv"
    by (simp add: scenario_defs example_defs)
  have r: "map_of (renters expiringContractor) ''R'' = Some exampleRenter"
    by (simp add: scenario_defs example_defs)
  have p: "PeriodSpendingTotalAllocated overspentEnv (PublicKey exampleRenter) = Inr 200000"
    by (simp add: scenario_defs example_defs)
  have h: "Hosts (RenterAllowance exampleRenter) = 2" "Funds (RenterAllowance exampleRenter) = 100000"
    "blockHeight expiringContractor = 500" "maxContractSliceCap overspentEnv = 2 ^ 39"
    by (simp_all add: scenario_defs example_defs)
  have n: "countUploadContracts expiringContractor 2
             (ByRenter expiringContractor (PublicKey exampleRenter)) ([], 0) = ([], 0)"
    by (simp add: store_defs scenario_defs example_defs)
  have cl: "classifyContracts exampleConstants overspentEnv expiringContractor exampleRenter 500
              [11] ([], [], [], 0) = Inr ([], [exampleRenewal], [], 100000)"
    by (rule example_classify_expiring) simp
  from funds_remaining_keeps_full_allowance [OF s r p, where K = exampleConstants
         and contractSet = "[]" and n = 0 and ids = "[11]" and contractSet' = "[]"
         and renewSet = "[exampleRenewal]" and refreshSet = "[]" and fundsRemaining = 100000]
  show ?thesis
    using n cl by (simp add: h)
qed

subsection \<open>Gouging filter and payment intents\<close>

text \<open>
  C3. The form-time check rejects exactly when a non-zero ceiling (RPC base price,
  contract price) is strictly below the host's quote; the payment-contract check rejects
  exactly when a non-zero ceiling (the same two, and the sector-access price) is below or
  equal to the quote. Both are functions of the allowance and the host settings alone.
\<close>

theorem gouging_checks_reject_iff:
  "(checkFormContractGouging a h \<noteq> None) =
     ((0 < MaxRPCPrice a \<and> MaxRPCPrice a < BaseRPCPrice h)
      \<or> (0 < MaxContractPrice a \<and> MaxContractPrice a < ContractPrice h))
   \<and> (staticCheckFormPaymentContractGouging a h \<noteq> None) =
     ((0 < MaxRPCPrice a \<and> MaxRPCPrice a \<le> BaseRPCPrice h)
      \<or> (0 < MaxContractPrice a \<and> MaxContractPrice a \<le> ContractPrice h)
      \<or> (0 < MaxSectorAccessPrice a \<and> MaxSectorAccessPrice a \<le> SectorAccessPrice h))"
  by (simp add: checkFormContractGouging_def staticCheckFormPaymentContractGouging_def)

text \<open>
  C10. \<open>calculateOrderAmount\<close> is 500 for every list of items, and every payment intent
  the handler requests is for amount 500 in USD, whatever the items are.
\<close>

theorem payment_intent_amount_constant:
  "calculateOrderAmount items = 500
   \<and> fst (paymentHandlerPOST new (Decoded items))
       = Some \<lparr>Amount = 500, Currency = CurrencyUSD, AutomaticPaymentMethodsEnabled = True\<rparr>
   \<and> fst (paymentHandlerPOST new DecoderFailed) = None
   \<and> fst (paymentHandlerPOST new (DecodeError code)) = None"
  by (simp add: calculateOrderAmount_def paymentHandlerPOST_def Let_def split: option.split)

subsection \<open>Contract store\<close>

lemma View_ID: "View c i = Some rc \<Longrightarrow> ID rc = i"
  by (auto simp: View_def find_Some_iff)

lemma find_map_update:
  "find (\<lambda>rc. ID rc = i) (map (\<lambda>rc. if ID rc = j then rc\<lparr>Utility := u\<rparr> else rc) xs)
   = map_option (\<lambda>rc. if ID rc = j then rc\<lparr>Utility := u\<rparr> else rc) (find (\<lambda>rc. ID rc = i) xs)"
  by (induction xs) auto

lemma find_ID: "find (\<lambda>rc. ID rc = i) xs = Some rc \<Longrightarrow> ID rc = i"
  by (induction xs) (auto split: if_splits)

lemma View_UpdateUtility:
  "View (UpdateUtility c j u) i
   = map_option (\<lambda>rc. if i = j then rc\<lparr>Utility := u\<rparr> else rc) (View c i)"
proof (cases "find (\<lambda>rc. ID rc = i) (staticContracts c)")
  case None
  then show ?thesis by (simp add: View_def UpdateUtility_def find_map_update)
next
  case (Some rc)
  with find_ID [OF Some] show ?thesis
    by (simp add: View_def UpdateUtility_def find_map_update)
qed

lemma find_filter_ID:
  "find (\<lambda>rc. ID rc = i) (filter (\<lambda>rc. ID rc \<noteq> j) xs)
   = (if i = j then None else find (\<lambda>rc. ID rc = i) xs)"
  by (induction xs) auto

lemma View_Delete: "View (Delete c j) i = (if i = j then None else View c i)"
  by (simp add: View_def Delete_def find_filter_ID)

lemma find_append: "find P (xs @ ys) = (case find P xs of None \<Rightarrow> find P ys | Some x \<Rightarrow> Some x)"
  by (induction xs) auto

lemma View_InsertContract:
  "View (InsertContract c rc) i = (if i = ID rc then Some rc else View c i)"
  by (auto simp: View_def InsertContract_def find_append find_filter_ID split: option.splits)

subsection \<open>Capping the number of GFU hosts\<close>

text \<open>
  C6 at a concrete input. One renter with an allowance of two hosts has three contracts
  that are good for upload, with hosts scoring 1, 2 and 3. \<open>managedLimitGFUHosts\<close>
  returns, leaves the contracts with the scores 1 and 2 good for upload and marks the
  contract with the highest score, 3, not good for upload: the loop over the ascending
  list passes over the first \<open>Hosts\<close> contracts of a renter and demotes those that
  follow.
\<close>

theorem limit_gfu_keeps_lowest_scores:
  "map (\<lambda>rc. hdbScoreBreakdown scoredEnv (fst (hdbHost scoredEnv (HostPublicKey rc))))
     (ViewAll threeHostsContractor) = [Inr 1, Inr 2, Inr 3]
   \<and> map (\<lambda>rc. (ID rc, RenterPublicKey rc, GoodForUpload (Utility rc)))
       (ViewAll threeHostsContractor)
     = [(11, ''R'', True), (12, ''R'', True), (13, ''R'', True)]
   \<and> map (\<lambda>(k, r). (k, Hosts (RenterAllowance r))) (renters threeHostsContractor) = [(''R'', 2)]
   \<and> map_option (\<lambda>after. map (\<lambda>rc. (ID rc, GoodForUpload (Utility rc))) (ViewAll after))
       (managedLimitGFUHosts scoredEnv threeHostsContractor)
     = Some [(11, True), (12, True), (13, False)]"
  by (simp add: managedLimitGFUHosts_def sortByScore_def managedUpdateContractUtility_def
        callUpdateUtility_def Contracts_def store_defs scenario_defs example_defs Let_def)

subsection \<open>Renewing one contract\<close>

lemma View_cong: "staticContracts a = staticContracts b \<Longrightarrow> View a i = View b i"
  by (simp add: View_def)

lemma View_Return [simp]: "View (Return c i) j = View c j"
  by (simp add: View_def Return_def)

lemma Acquire_Some:
  assumes "Acquire c i = Some (Some rc, c1)"
  shows "View c i = Some rc" and "i \<notin> acquired c" and "ID rc = i"
    and "c1 = c\<lparr>acquired := insert i (acquired c)\<rparr>"
  using assms View_ID [of c i]
  by (auto simp: Acquire_def split: option.splits if_splits)

lemma Acquire_live:
  "View c i = Some rc \<Longrightarrow> i \<notin> acquired c
   \<Longrightarrow> Acquire c i = Some (Some rc, c\<lparr>acquired := insert i (acquired c)\<rparr>)"
  by (simp add: Acquire_def)

lemma Acquire_blocks: "View c i = Some rc \<Longrightarrow> i \<in> acquired c \<Longrightarrow> Acquire c i = None"
  by (simp add: Acquire_def)

lemma managedRenew_frame:
  assumes "managedRenew K E c fcid rpk hpk funding eh hs = Some (res, c1)"
  shows "numFailedRenews c1 = numFailedRenews c \<and> renewedFrom c1 = renewedFrom c
       \<and> renewedTo c1 = renewedTo c \<and> oldContracts c1 = oldContracts c
       \<and> logged c1 = logged c \<and> renewing c1 = renewing c \<and> renters c1 = renters c"
  using assms
  by (auto simp: managedRenew_def Let_def InsertContract_def Acquire_def Return_def
        split: option.splits prod.splits if_splits sum.splits)

lemma managedRenew_success:
  assumes "managedRenew K E c fcid rpk hpk funding eh hs = Some (Inr nc, c1)"
  shows "\<exists>old. View c fcid = Some old \<and> GoodForRenew (Utility old)"
    and "fcid \<notin> acquired c" and "acquired c1 = acquired c"
    and "staticContracts c1 = staticContracts (InsertContract c nc)"
proof -
  from assms obtain old c0 where
    a: "Acquire c fcid = Some (Some old, c0)" and g: "GoodForRenew (Utility old)"
    and c1: "staticContracts c1 = staticContracts (InsertContract c0 nc)"
            "acquired c1 = acquired c0 - {ID old}"
    by (auto simp: managedRenew_def Let_def InsertContract_def Return_def
          split: option.splits prod.splits if_splits sum.splits)
  note s = Acquire_Some [OF a]
  from s(1) g show "\<exists>old. View c fcid = Some old \<and> GoodForRenew (Utility old)" by blast
  from s(2) show "fcid \<notin> acquired c" .
  from c1(2) s(2,3,4) show "acquired c1 = acquired c" by auto
  from c1(1) s(4) show "staticContracts c1 = staticContracts (InsertContract c nc)"
    by (simp add: InsertContract_def)
qed

lemma numFailedRenews_UpdateUtility [simp]:
  "numFailedRenews (UpdateUtility c i u) = numFailedRenews c"
  by (simp add: UpdateUtility_def)

lemma lockedUtility_eq:
  "lockedUtility u = \<lparr>GoodForUpload = False, GoodForRenew = False, Locked = True\<rparr>"
  by (simp add: lockedUtility_def)

text \<open>What the failure branch does to the tally, to the contract and to the error.\<close>

lemma renewFailed_result:
  assumes v: "View c2 fcid = Some oldContract"
    and t: "tallied = (if IsHostsFault errRenew
                then (numFailedRenews c2)
                       (fcid \<mapsto> (case numFailedRenews c2 fcid of None \<Rightarrow> 0 | Some n \<Rightarrow> n) + 1)
              else numFailedRenews c2)"
    and r: "replace = (tallied fcid \<noteq> None
                \<and> EndHeight oldContract \<le> bh + RenewWindow allowance div 2
                \<and> consecutiveRenewalsBeforeReplacement K
                    \<le> (case tallied fcid of None \<Rightarrow> 0 | Some n \<Rightarrow> n))"
  shows "fst (renewFailed K E c2 allowance bh oldContract errRenew)
         = Wrapped (if replace
                      then ''contract marked as bad for too many consecutive failed renew attempts''
                    else ''contract renewal with host was unsuccessful'') errRenew"
    and "numFailedRenews (snd (renewFailed K E c2 allowance bh oldContract errRenew)) = tallied"
    and "View (snd (renewFailed K E c2 allowance bh oldContract errRenew)) fcid
         = Some (if replace \<and> updateUtilityErr E fcid = None
                   then oldContract\<lparr>Utility := \<lparr>GoodForUpload = False, GoodForRenew = False,
                                                  Locked = True\<rparr>\<rparr>
                 else oldContract)"
proof -
  have i: "ID oldContract = fcid" using v by (rule View_ID)
  let ?c1 = "if IsHostsFault errRenew then tallyFailedRenew c2 fcid else c2"
  have n1: "numFailedRenews ?c1 = tallied"
    by (simp add: t tallyFailedRenew_def Let_def)
  have v1: "View ?c1 fcid = Some oldContract"
    using v by (simp add: View_def tallyFailedRenew_def Let_def)
  have rf: "renewFailed K E c2 allowance bh oldContract errRenew
            = (if replace
                 then (Wrapped ''contract marked as bad for too many consecutive failed renew attempts''
                         errRenew,
                       Return (snd (callUpdateUtility E ?c1 fcid
                                      (lockedUtility (Utility oldContract)) True)) fcid)
               else (Wrapped ''contract renewal with host was unsuccessful'' errRenew,
                     Return ?c1 fcid))"
    unfolding renewFailed_def i Let_def n1 r
    by (cases "tallied fcid") auto
  show "fst (renewFailed K E c2 allowance bh oldContract errRenew)
         = Wrapped (if replace
                      then ''contract marked as bad for too many consecutive failed renew attempts''
                    else ''contract renewal with host was unsuccessful'') errRenew"
    by (simp add: rf)
  show "numFailedRenews (snd (renewFailed K E c2 allowance bh oldContract errRenew)) = tallied"
    using n1 by (auto simp: rf Return_def callUpdateUtility_def split: option.splits if_splits)
  show "View (snd (renewFailed K E c2 allowance bh oldContract errRenew)) fcid
         = Some (if replace \<and> updateUtilityErr E fcid = None
                   then oldContract\<lparr>Utility := \<lparr>GoodForUpload = False, GoodForRenew = False,
                                                  Locked = True\<rparr>\<rparr>
                 else oldContract)"
    using v1
    by (auto simp: rf callUpdateUtility_def View_UpdateUtility lockedUtility_eq
          split: option.splits if_splits)
qed

lemma managedRenewContract_failure:
  assumes "map_of (renters c) (renterPubKey r) = Some renter"
    and "sessionErr E (renterPubKey r) (hostPubKey r) = None"
    and "sessionSettings E (hostPubKey r) = Inr hostSettings"
    and "managedRenew K E (markRenewing c (renewalID r)) (renewalID r) (renterPubKey r)
           (hostPubKey r) (amount r) endHeight hostSettings = Some (Inl errRenew, c1)"
    and "Acquire c1 (renewalID r) = Some (Some oldContract, c2)"
  shows "managedRenewContract K E c r bh endHeight
         = Some ((0, emptyContract,
                  Some (fst (renewFailed K E c2 (RenterAllowance renter) bh oldContract errRenew))),
                 (snd (renewFailed K E c2 (RenterAllowance renter) bh oldContract errRenew))
                   \<lparr>renewing := renewing (snd (renewFailed K E c2 (RenterAllowance renter) bh
                                                  oldContract errRenew)) - {renewalID r}\<rparr>)"
  using assms
  by (simp add: managedRenewContract_def Let_def split: prod.splits)

text \<open>
  C5, as the code has it. When the renewal attempt inside \<open>managedRenewContract\<close>
  fails and the old contract is acquired again, the function returns the error of the
  attempt in its wrapping. If the failure is the host's fault, \<open>numFailedRenews\<close> of
  the contract id is incremented. The contract is to be replaced exactly when it has a
  recorded failure, the block height plus half the renew window is at least the
  contract's end height, and the failure count has reached
  \<open>consecutiveRenewalsBeforeReplacement\<close>; then the error says that the contract was
  marked as bad, and the contract's utility is locked, not good for renew and not good
  for upload if the store's write of the utility succeeds. In every other case, and also
  when that write fails, the contract is left as it was. The recorded failure is the
  entry of \<open>numFailedRenews\<close> at the time of the check, after the tally; whenever the
  constant is above 1 this is the same as an entry from before the attempt.
\<close>

theorem renew_failure_tallied_and_locked:
  assumes "map_of (renters c) (renterPubKey r) = Some renter"
    and "sessionErr E (renterPubKey r) (hostPubKey r) = None"
    and "sessionSettings E (hostPubKey r) = Inr hostSettings"
    and "managedRenew K E (markRenewing c (renewalID r)) (renewalID r) (renterPubKey r)
           (hostPubKey r) (amount r) endHeight hostSettings = Some (Inl errRenew, c1)"
    and "Acquire c1 (renewalID r) = Some (Some oldContract, c2)"
    and "tallied = (if IsHostsFault errRenew
                      then (numFailedRenews c)
                             (renewalID r \<mapsto>
                                (case numFailedRenews c (renewalID r) of
                                   None \<Rightarrow> 0 | Some n \<Rightarrow> n) + 1)
                    else numFailedRenews c)"
    and "failures = (case tallied (renewalID r) of None \<Rightarrow> 0 | Some n \<Rightarrow> n)"
    and "replace = (tallied (renewalID r) \<noteq> None
                    \<and> EndHeight oldContract \<le> bh + RenewWindow (RenterAllowance renter) div 2
                    \<and> consecutiveRenewalsBeforeReplacement K \<le> failures)"
  shows "\<exists>after.
           managedRenewContract K E c r bh endHeight
           = Some ((0, emptyContract,
                    Some (Wrapped
                            (if replace
                               then ''contract marked as bad for too many consecutive failed renew attempts''
                             else ''contract renewal with host was unsuccessful'')
                            errRenew)),
                   after)
         \<and> numFailedRenews after = tallied
         \<and> View after (renewalID r)
           = Some (if replace \<and> updateUtilityErr E (renewalID r) = None
                     then oldContract\<lparr>Utility := \<lparr>GoodForUpload = False, GoodForRenew = False,
                                                    Locked = True\<rparr>\<rparr>
                   else oldContract)
         \<and> (1 < consecutiveRenewalsBeforeReplacement K
              \<longrightarrow> (tallied (renewalID r) \<noteq> None
                     \<and> consecutiveRenewalsBeforeReplacement K \<le> failures)
                  = (numFailedRenews c (renewalID r) \<noteq> None
                     \<and> consecutiveRenewalsBeforeReplacement K \<le> failures))"
proof -
  let ?f = "renewFailed K E c2 (RenterAllowance renter) bh oldContract errRenew"
  let ?after = "(snd ?f)\<lparr>renewing := renewing (snd ?f) - {renewalID r}\<rparr>"
  note a = Acquire_Some [OF assms(5)]
  have v2: "View c2 (renewalID r) = Some oldContract"
    using a(1) by (simp add: a(4) View_def)
  have n2: "numFailedRenews c2 = numFailedRenews c"
    using managedRenew_frame [OF assms(4)] by (simp add: a(4) markRenewing_def)
  have t: "tallied = (if IsHostsFault errRenew
                then (numFailedRenews c2)
                       (renewalID r \<mapsto>
                          (case numFailedRenews c2 (renewalID r) of None \<Rightarrow> 0 | Some n \<Rightarrow> n) + 1)
              else numFailedRenews c2)"
    by (simp add: assms(6) n2)
  have rp: "replace = (tallied (renewalID r) \<noteq> None
                \<and> EndHeight oldContract \<le> bh + RenewWindow (RenterAllowance renter) div 2
                \<and> consecutiveRenewalsBeforeReplacement K
                    \<le> (case tallied (renewalID r) of None \<Rightarrow> 0 | Some n \<Rightarrow> n))"
    by (simp add: assms(8) assms(7))
  note res = renewFailed_result [OF v2 t rp, of E]
  have ret: "managedRenewContract K E c r bh endHeight
           = Some ((0, emptyContract,
                    Some (Wrapped
                            (if replace
                               then ''contract marked as bad for too many consecutive failed renew attempts''
                             else ''contract renewal with host was unsuccessful'')
                            errRenew)),
                   ?after)"
    using managedRenewContract_failure [OF assms(1-5), of bh] res(1) by simp
  have tally: "numFailedRenews ?after = tallied"
    using res(2) by simp
  have "View ?after (renewalID r) = View (snd ?f) (renewalID r)"
    by (rule View_cong) simp
  with res(3) have lock: "View ?after (renewalID r)
           = Some (if replace \<and> updateUtilityErr E (renewalID r) = None
                     then oldContract\<lparr>Utility := \<lparr>GoodForUpload = False, GoodForRenew = False,
                                                    Locked = True\<rparr>\<rparr>
                   else oldContract)"
    by simp
  have prior: "1 < consecutiveRenewalsBeforeReplacement K
              \<longrightarrow> (tallied (renewalID r) \<noteq> None
                     \<and> consecutiveRenewalsBeforeReplacement K \<le> failures)
                  = (numFailedRenews c (renewalID r) \<noteq> None
                     \<and> consecutiveRenewalsBeforeReplacement K \<le> failures)"
    unfolding assms(7) assms(6)
    by (cases "numFailedRenews c (renewalID r)") (auto simp: word_le_nat_alt word_less_nat_alt)
  from ret tally lock prior show ?thesis by blast
qed

lemma example_renew_failedTwice_facts:
  assumes "E = hostFaultEnv \<or> E = hostFaultFailingDiskEnv"
  shows "map_of (renters failedTwiceContractor) (renterPubKey exampleRenewal) = Some exampleRenter"
    and "sessionErr E (renterPubKey exampleRenewal) (hostPubKey exampleRenewal) = None"
    and "sessionSettings E (hostPubKey exampleRenewal) = Inr exampleSettings"
    and "managedRenew exampleConstants E
           (markRenewing failedTwiceContractor (renewalID exampleRenewal))
           (renewalID exampleRenewal) (renterPubKey exampleRenewal) (hostPubKey exampleRenewal)
           (amount exampleRenewal) 1600 exampleSettings
         = Some (Inl (External True),
                 markRenewing failedTwiceContractor (renewalID exampleRenewal))"
    and "Acquire (markRenewing failedTwiceContractor (renewalID exampleRenewal))
           (renewalID exampleRenewal)
         = Some (Some (exampleContract 11 ''R'' ''H'' 0 550 10 False),
                 (markRenewing failedTwiceContractor (renewalID exampleRenewal))
                   \<lparr>acquired := {11}\<rparr>)"
  using assms
  by (auto simp add: renew_defs store_defs scenario_defs example_defs Let_def)

lemma example_failedTwice_values:
  "numFailedRenews failedTwiceContractor = [11 \<mapsto> 2]" "renewalID exampleRenewal = 11"
  "RenewWindow (RenterAllowance exampleRenter) = 100"
  "consecutiveRenewalsBeforeReplacement exampleConstants = 3"
  "EndHeight (exampleContract 11 ''R'' ''H'' 0 550 10 False) = 550"
  "updateUtilityErr hostFaultEnv 11 = None"
  "updateUtilityErr hostFaultFailingDiskEnv 11 = Some (External False)"
  by (simp_all add: scenario_defs example_defs)

theorem renew_failure_tallied_and_locked_witness:
  "\<exists>after.
     managedRenewContract exampleConstants hostFaultEnv failedTwiceContractor exampleRenewal
       500 1600
     = Some ((0, emptyContract,
              Some (Wrapped
                      ''contract marked as bad for too many consecutive failed renew attempts''
                      (External True))),
             after)
   \<and> numFailedRenews after = [11 \<mapsto> 3]
   \<and> View after 11
     = Some ((exampleContract 11 ''R'' ''H'' 0 550 10 False)
               \<lparr>Utility := \<lparr>GoodForUpload = False, GoodForRenew = False, Locked = True\<rparr>\<rparr>)
   \<and> 1 < consecutiveRenewalsBeforeReplacement exampleConstants"
proof -
  have e: "hostFaultEnv = hostFaultEnv \<or> hostFaultEnv = hostFaultFailingDiskEnv" by simp
  note f = example_renew_failedTwice_facts [OF e]
  note v = example_failedTwice_values
  from renew_failure_tallied_and_locked [OF f(1) f(2) f(3) f(4) f(5) refl refl refl, of 500]
  show ?thesis
    by (simp add: v word_le_nat_alt word_less_nat_alt)
qed

text \<open>
  C5 as stated fails: contract 11 has two recorded failures, is in the second half of its
  renew window, and its renewal fails a third time by the host's fault, so that all three
  conditions hold and the function returns the error of a contract marked as bad; but the
  store's write of the utility fails, which is only logged, and the contract is still
  good for renew and not locked.
\<close>

theorem renew_failure_counterexample:
  "\<exists>after.
     managedRenewContract exampleConstants hostFaultFailingDiskEnv failedTwiceContractor
       exampleRenewal 500 1600
     = Some ((0, emptyContract,
              Some (Wrapped
                      ''contract marked as bad for too many consecutive failed renew attempts''
                      (External True))),
             after)
   \<and> numFailedRenews failedTwiceContractor 11 = Some 2
   \<and> numFailedRenews after 11 = Some 3
   \<and> consecutiveRenewalsBeforeReplacement exampleConstants = 3
   \<and> EndHeight (exampleContract 11 ''R'' ''H'' 0 550 10 False)
       \<le> 500 + RenewWindow exampleAllowance div 2
   \<and> View failedTwiceContractor 11 = Some (exampleContract 11 ''R'' ''H'' 0 550 10 False)
   \<and> View after 11 = Some (exampleContract 11 ''R'' ''H'' 0 550 10 False)
   \<and> Utility (exampleContract 11 ''R'' ''H'' 0 550 10 False)
     = \<lparr>GoodForUpload = False, GoodForRenew = True, Locked = False\<rparr>"
  by (simp add: renew_defs store_defs scenario_defs example_defs Let_def word_le_nat_alt)

text \<open>
  A contract that is not good for renew: \<open>managedRenew\<close> returns with the contract
  still acquired, and \<open>managedRenewContract\<close>, which acquires it again, never returns.
\<close>

lemma example_renew_notGFR_blocks:
  "managedRenewContract exampleConstants exampleEnv
     (UpdateUtility expiringContractor 11
        \<lparr>GoodForUpload = False, GoodForRenew = False, Locked = False\<rparr>)
     exampleRenewal 500 1600
   = None"
  by (simp add: renew_defs store_defs scenario_defs example_defs Let_def)

subsection \<open>A renewal that succeeds\<close>

lemma managedRenewContract_nil_error:
  assumes "managedRenewContract K E c r bh eh = Some ((spent, nc, None), after)"
  shows "\<exists>hs c1 old c2 c3.
           managedRenew K E (markRenewing c (renewalID r)) (renewalID r) (renterPubKey r)
             (hostPubKey r) (amount r) eh hs = Some (Inr nc, c1)
         \<and> Acquire c1 (renewalID r) = Some (Some old, c2)
         \<and> renewSucceeded E c2 (renewalID r) old nc = Some c3
         \<and> after = c3\<lparr>renewing := renewing c3 - {renewalID r}\<rparr>
         \<and> spent = amount r"
  using assms
  by (auto simp: managedRenewContract_def Let_def
        split: option.splits sum.splits prod.splits) blast

text \<open>
  The success branch, entered with the new contract live and the old contract acquired:
  it returns only if the new contract has an id of its own.
\<close>

lemma renewSucceeded_result:
  assumes new: "View c2 (ID nc) = Some nc" and old: "View c2 fcid = Some old"
    and held: "fcid \<in> acquired c2"
    and r: "renewSucceeded E c2 fcid old nc = Some c3"
  shows "ID nc \<noteq> fcid"
    and "updateUtilityErr E (ID nc) = None \<and> updateUtilityErr E fcid = None
         \<Longrightarrow> oldContracts c3 fcid
               = Some (old\<lparr>Utility := \<lparr>GoodForUpload = False, GoodForRenew = False,
                                          Locked = True\<rparr>\<rparr>)
             \<and> renewedFrom c3 (ID nc) = Some fcid
             \<and> renewedTo c3 fcid = Some (ID nc)
             \<and> View c3 fcid = None
             \<and> View c3 (ID nc)
               = Some (nc\<lparr>Utility := \<lparr>GoodForUpload = True, GoodForRenew = True,
                                         Locked = False\<rparr>\<rparr>)"
    and "\<not> (updateUtilityErr E (ID nc) = None \<and> updateUtilityErr E fcid = None)
         \<Longrightarrow> View c3 fcid = Some old \<and> oldContracts c3 = oldContracts c2
             \<and> renewedFrom c3 = renewedFrom c2 \<and> renewedTo c3 = renewedTo c2"
proof -
  have i: "ID old = fcid" using old by (rule View_ID)
  have free: "ID nc \<notin> acquired c2"
  proof
    assume "ID nc \<in> acquired c2"
    with new have "Acquire c2 (ID nc) = None" by (rule Acquire_blocks)
    with r show False
      by (simp add: renewSucceeded_def managedAcquireAndUpdateContractUtility_def)
  qed
  with held show ne: "ID nc \<noteq> fcid" by auto
  let ?good = "\<lparr>GoodForUpload = True, GoodForRenew = True, Locked = False\<rparr>"
  let ?bad = "\<lparr>GoodForUpload = False, GoodForRenew = False, Locked = True\<rparr>"
  let ?a = "c2\<lparr>acquired := insert (ID nc) (acquired c2)\<rparr>"
  have acq: "Acquire c2 (ID nc) = Some (Some nc, ?a)"
    using new free by (rule Acquire_live)
  have va: "View ?a j = View c2 j" for j
    by (rule View_cong) simp
  {
    assume ok: "updateUtilityErr E (ID nc) = None \<and> updateUtilityErr E fcid = None"
    let ?c3 = "UpdateUtility (Return (UpdateUtility ?a (ID nc) ?good) (ID nc)) fcid ?bad"
    let ?c4 = "?c3\<lparr>renewedFrom := (renewedFrom ?c3)(ID nc \<mapsto> fcid),
                    renewedTo := (renewedTo ?c3)(fcid \<mapsto> ID nc),
                    oldContracts := (oldContracts ?c3)(fcid \<mapsto> old\<lparr>Utility := ?bad\<rparr>)\<rparr>"
    have c3: "c3 = Delete ?c4 fcid"
      using r ok acq
      by (simp add: renewSucceeded_def managedAcquireAndUpdateContractUtility_def
            managedUpdateContractUtility_def callUpdateUtility_def i lockedUtility_eq Let_def)
    have v4: "View ?c4 j = View ?c3 j" for j
      by (rule View_cong) simp
    have "oldContracts c3 fcid = Some (old\<lparr>Utility := ?bad\<rparr>)"
      and "renewedFrom c3 (ID nc) = Some fcid" and "renewedTo c3 fcid = Some (ID nc)"
      by (simp_all add: c3 Delete_def)
    moreover have "View c3 fcid = None"
      by (simp add: c3 View_Delete)
    moreover have "View c3 (ID nc) = Some (nc\<lparr>Utility := ?good\<rparr>)"
      using ne new by (simp add: c3 View_Delete v4 View_UpdateUtility va)
    ultimately show "oldContracts c3 fcid = Some (old\<lparr>Utility := ?bad\<rparr>)
             \<and> renewedFrom c3 (ID nc) = Some fcid
             \<and> renewedTo c3 fcid = Some (ID nc)
             \<and> View c3 fcid = None
             \<and> View c3 (ID nc) = Some (nc\<lparr>Utility := ?good\<rparr>)"
      by simp
  }
  {
    assume nok: "\<not> (updateUtilityErr E (ID nc) = None \<and> updateUtilityErr E fcid = None)"
    show "View c3 fcid = Some old \<and> oldContracts c3 = oldContracts c2
             \<and> renewedFrom c3 = renewedFrom c2 \<and> renewedTo c3 = renewedTo c2"
    proof (cases "updateUtilityErr E (ID nc)")
      case (Some e)
      with r acq have c3: "c3 = Return (Return ?a (ID nc)) fcid"
        by (simp add: renewSucceeded_def managedAcquireAndUpdateContractUtility_def
              managedUpdateContractUtility_def callUpdateUtility_def i Let_def)
      show ?thesis
        using old by (simp add: c3 va) (simp add: Return_def)
    next
      case None
      with nok obtain e where e: "updateUtilityErr E fcid = Some e" by auto
      let ?b = "Return (UpdateUtility ?a (ID nc) ?good) (ID nc)"
      from r acq None e have c3: "c3 = Return ?b fcid"
        by (simp add: renewSucceeded_def managedAcquireAndUpdateContractUtility_def
              managedUpdateContractUtility_def callUpdateUtility_def i Let_def)
      have "View c3 fcid = Some old"
        using old ne by (simp add: c3 View_UpdateUtility va)
      then show ?thesis
        by (simp add: c3 Return_def UpdateUtility_def)
    qed
  }
qed

text \<open>
  C2, as the code has it. When \<open>managedRenewContract\<close> returns a nil error, it
  returns the renewal's amount, and the contract was live before. If the two writes of
  the utilities (of the new and of the old contract) succeed, the old contract is
  archived in \<open>oldContracts\<close> under its id with the utility locked, not good for
  upload and not good for renew, the lineage maps link the old and the new id, the old
  contract is gone from the live store, and the new contract is live with the utility
  good for upload, good for renew and not locked. If one of the two writes fails, the old
  contract is still live as it was, nothing is archived, and the lineage maps are as
  before.
\<close>

theorem renewal_success_archives_old_contract:
  assumes "managedRenewContract K E c r bh endHeight = Some ((fundsSpent, newContract, None), after)"
  shows "\<exists>old. View c (renewalID r) = Some old \<and> fundsSpent = amount r
         \<and> (if updateUtilityErr E (ID newContract) = None
                \<and> updateUtilityErr E (renewalID r) = None
              then oldContracts after (renewalID r)
                   = Some (old\<lparr>Utility := \<lparr>GoodForUpload = False, GoodForRenew = False,
                                              Locked = True\<rparr>\<rparr>)
                 \<and> renewedFrom after (ID newContract) = Some (renewalID r)
                 \<and> renewedTo after (renewalID r) = Some (ID newContract)
                 \<and> View after (renewalID r) = None
                 \<and> View after (ID newContract)
                   = Some (newContract\<lparr>Utility := \<lparr>GoodForUpload = True, GoodForRenew = True,
                                                      Locked = False\<rparr>\<rparr>)
            else View after (renewalID r) = Some old
                 \<and> oldContracts after = oldContracts c
                 \<and> renewedFrom after = renewedFrom c
                 \<and> renewedTo after = renewedTo c)"
proof -
  from managedRenewContract_nil_error [OF assms]
  obtain hs c1 old c2 c3 where
    mr: "managedRenew K E (markRenewing c (renewalID r)) (renewalID r) (renterPubKey r)
           (hostPubKey r) (amount r) endHeight hs = Some (Inr newContract, c1)"
    and acq: "Acquire c1 (renewalID r) = Some (Some old, c2)"
    and rs: "renewSucceeded E c2 (renewalID r) old newContract = Some c3"
    and after: "after = c3\<lparr>renewing := renewing c3 - {renewalID r}\<rparr>"
    and spent: "fundsSpent = amount r"
    by blast
  note a = Acquire_Some [OF acq]
  have sc: "staticContracts c1
            = staticContracts (InsertContract (markRenewing c (renewalID r)) newContract)"
    using managedRenew_success(4) [OF mr] .
  have v1: "View c1 j = (if j = ID newContract then Some newContract else View c j)" for j
  proof -
    have "View c1 j = View (InsertContract (markRenewing c (renewalID r)) newContract) j"
      using sc by (rule View_cong)
    also have "\<dots> = (if j = ID newContract then Some newContract
                     else View (markRenewing c (renewalID r)) j)"
      by (rule View_InsertContract)
    also have "View (markRenewing c (renewalID r)) j = View c j"
      by (rule View_cong) (simp add: markRenewing_def)
    finally show ?thesis .
  qed
  have v2: "View c2 j = View c1 j" for j
    by (rule View_cong) (simp add: a(4))
  have new: "View c2 (ID newContract) = Some newContract"
    by (simp add: v2 v1)
  have old2: "View c2 (renewalID r) = Some old"
    using a(1) by (simp add: v2)
  have held: "renewalID r \<in> acquired c2"
    by (simp add: a(4))
  note res = renewSucceeded_result [OF new old2 held rs]
  have old0: "View c (renewalID r) = Some old"
    using a(1) res(1) by (simp add: v1)
  have va: "View after j = View c3 j" for j
    by (rule View_cong) (simp add: after)
  have m: "oldContracts after = oldContracts c3" "renewedFrom after = renewedFrom c3"
    "renewedTo after = renewedTo c3"
    by (simp_all add: after)
  have fr: "oldContracts c2 = oldContracts c" "renewedFrom c2 = renewedFrom c"
    "renewedTo c2 = renewedTo c"
    using managedRenew_frame [OF mr] by (simp_all add: a(4) markRenewing_def)
  show ?thesis
  proof (cases "updateUtilityErr E (ID newContract) = None
                \<and> updateUtilityErr E (renewalID r) = None")
    case True
    from res(2) [OF True] old0 spent True show ?thesis
      by (simp add: va m)
  next
    case False
    from res(3) [OF False] old0 spent False show ?thesis
      by (simp add: va m fr)
  qed
qed

lemma example_renew_success_values:
  "View expiringContractor 11 = Some (exampleContract 11 ''R'' ''H'' 0 550 10 False)"
  "renewalID exampleRenewal = 11" "amount exampleRenewal = 14164"
  "updateUtilityErr exampleEnv i = None"
  "updateUtilityErr failingDiskEnv 111 = Some (External False)"
  by (simp_all add: store_defs scenario_defs example_defs)

lemma example_renew_success:
  "\<exists>after.
     managedRenewContract exampleConstants exampleEnv expiringContractor exampleRenewal 500 1600
     = Some ((14164,
              (exampleContract 11 ''R'' ''H'' 0 550 10 False)
                \<lparr>ID := 111, StartHeight := 550, EndHeight := 1600, RenterFunds := 14164,
                  TotalCost := 14164\<rparr>,
              None),
             after)"
  by (simp add: renew_defs store_defs scenario_defs example_defs Let_def)

theorem renewal_success_archives_old_contract_witness:
  "\<exists>after.
     managedRenewContract exampleConstants exampleEnv expiringContractor exampleRenewal 500 1600
     = Some ((14164,
              (exampleContract 11 ''R'' ''H'' 0 550 10 False)
                \<lparr>ID := 111, StartHeight := 550, EndHeight := 1600, RenterFunds := 14164,
                  TotalCost := 14164\<rparr>,
              None),
             after)
   \<and> oldContracts after 11
     = Some ((exampleContract 11 ''R'' ''H'' 0 550 10 False)
               \<lparr>Utility := \<lparr>GoodForUpload = False, GoodForRenew = False, Locked = True\<rparr>\<rparr>)
   \<and> renewedFrom after 111 = Some 11
   \<and> renewedTo after 11 = Some 111
   \<and> View after 11 = None
   \<and> map_option Utility (View after 111)
     = Some \<lparr>GoodForUpload = True, GoodForRenew = True, Locked = False\<rparr>"
proof -
  from example_renew_success obtain after where
    a: "managedRenewContract exampleConstants exampleEnv expiringContractor exampleRenewal
          500 1600
        = Some ((14164,
                 (exampleContract 11 ''R'' ''H'' 0 550 10 False)
                   \<lparr>ID := 111, StartHeight := 550, EndHeight := 1600, RenterFunds := 14164,
                     TotalCost := 14164\<rparr>,
                 None),
                after)"
    by blast
  note v = example_renew_success_values
  from renewal_success_archives_old_contract [OF a]
  have "oldContracts after 11
     = Some ((exampleContract 11 ''R'' ''H'' 0 550 10 False)
               \<lparr>Utility := \<lparr>GoodForUpload = False, GoodForRenew = False, Locked = True\<rparr>\<rparr>)
   \<and> renewedFrom after 111 = Some 11
   \<and> renewedTo after 11 = Some 111
   \<and> View after 11 = None
   \<and> map_option Utility (View after 111)
     = Some \<lparr>GoodForUpload = True, GoodForRenew = True, Locked = False\<rparr>"
    by (simp add: v exampleContract_def)
  with a show ?thesis by blast
qed

text \<open>
  C2 as stated fails: the function also returns a nil error when the write of the new
  contract's utility fails, and then the old contract is still live, with its utility
  untouched, and nothing is archived or linked.
\<close>

theorem renewal_success_counterexample:
  "\<exists>after.
     managedRenewContract exampleConstants failingDiskEnv expiringContractor exampleRenewal
       500 1600
     = Some ((14164,
              (exampleContract 11 ''R'' ''H'' 0 550 10 False)
                \<lparr>ID := 111, StartHeight := 550, EndHeight := 1600, RenterFunds := 14164,
                  TotalCost := 14164\<rparr>,
              None),
             after)
   \<and> View after 11 = Some (exampleContract 11 ''R'' ''H'' 0 550 10 False)
   \<and> Utility (exampleContract 11 ''R'' ''H'' 0 550 10 False)
     = \<lparr>GoodForUpload = False, GoodForRenew = True, Locked = False\<rparr>
   \<and> oldContracts after 11 = None
   \<and> renewedTo after 11 = None"
  by (simp add: renew_defs store_defs scenario_defs example_defs Let_def)

subsection \<open>Classification of the contracts to renew\<close>

lemma classifyContract_refresh:
  assumes "View c fcid = Some rc"
    and "RenterPublicKey rc = PublicKey renter"
    and "\<not> GoodForUpload (Utility rc)" and "GoodForRenew (Utility rc)"
    and "hdbHost E (HostPublicKey rc) = (host, ex, None)" and "\<not> Filtered host"
    and "versionSupported E (Version (Settings host))"
    and "bh + RenewWindow (RenterAllowance renter) < EndHeight rc"
    and "RenterFunds rc < sectorPriceOf K (RenterAllowance renter) (Settings host) * 3
         \<or> percentRemainingBelowThreshold E (RenterFunds rc) (TotalCost rc)"
    and "classifyContract K E c renter bh fcid (cs, rs, fs, fr) = Inr (cs', rs', fs', fr')"
  shows "\<lparr>renewalID = fcid,
          amount = max (TotalCost rc * 2)
                     (MulFloat (Funds (RenterAllowance renter)) (fileContractMinimumFunding K)
                        div unat (Hosts (RenterAllowance renter))),
          hostPubKey = HostPublicKey rc, renterPubKey = PublicKey renter\<rparr> \<in> set fs'"
proof -
  have u: "managedContractUtility c fcid = (Utility rc, True)"
    using assms(1) by (simp add: managedContractUtility_def)
  have i: "ID rc = fcid" using assms(1) by (rule View_ID)
  have nl: "\<not> EndHeight rc \<le> bh + RenewWindow (RenterAllowance renter)"
    using assms(8) by simp
  from assms u i nl show ?thesis
    by (auto simp: classifyContract_def Let_def max_def split: sum.splits if_splits)
qed

lemma classify_refresh:
  assumes "classifyContracts K E c renter bh ids (cs, rs, fs, fr) = Inr (cs', rs', fs', fr')"
    and "fcid \<in> set ids" and "View c fcid = Some rc"
    and "RenterPublicKey rc = PublicKey renter"
    and "\<not> GoodForUpload (Utility rc)" and "GoodForRenew (Utility rc)"
    and "hdbHost E (HostPublicKey rc) = (host, ex, None)" and "\<not> Filtered host"
    and "versionSupported E (Version (Settings host))"
    and "bh + RenewWindow (RenterAllowance renter) < EndHeight rc"
    and "RenterFunds rc < sectorPriceOf K (RenterAllowance renter) (Settings host) * 3
         \<or> percentRemainingBelowThreshold E (RenterFunds rc) (TotalCost rc)"
  shows "\<lparr>renewalID = fcid,
          amount = max (TotalCost rc * 2)
                     (MulFloat (Funds (RenterAllowance renter)) (fileContractMinimumFunding K)
                        div unat (Hosts (RenterAllowance renter))),
          hostPubKey = HostPublicKey rc, renterPubKey = PublicKey renter\<rparr> \<in> set fs'"
  using assms(1,2)
proof (induction ids arbitrary: cs rs fs fr)
  case Nil
  then show ?case by simp
next
  case (Cons x rest)
  from Cons.prems(1) obtain cs1 rs1 fs1 fr1 where
    1: "classifyContract K E c renter bh x (cs, rs, fs, fr) = Inr (cs1, rs1, fs1, fr1)"
    and 2: "classifyContracts K E c renter bh rest (cs1, rs1, fs1, fr1) = Inr (cs', rs', fs', fr')"
    by (auto split: sum.splits)
  show ?case
  proof (cases "x = fcid")
    case True
    from classifyContract_refresh [OF assms(3-11) 1 [unfolded True]] classify_grows [OF 2]
    show ?thesis by auto
  next
    case False
    with Cons.prems have "fcid \<in> set rest" by simp
    from Cons.IH [OF 2 this] show ?thesis .
  qed
qed

lemma classifyContract_sets:
  assumes "classifyContract K E c renter bh x (cs, rs, fs, fr) = Inr (cs', rs', fs', fr')"
  shows "(rs' = rs
          \<or> (\<exists>rc r. View c x = Some rc
                   \<and> EndHeight rc \<le> bh + RenewWindow (RenterAllowance renter)
                   \<and> renewalID r = x \<and> rs' = rs @ [r]))
       \<and> (fs' = fs
          \<or> (\<exists>rc r. View c x = Some rc
                   \<and> bh + RenewWindow (RenterAllowance renter) < EndHeight rc
                   \<and> \<not> GoodForUpload (Utility rc)
                   \<and> renewalID r = x \<and> fs' = fs @ [r]))"
proof (cases "View c x")
  case None
  with assms show ?thesis by (auto simp: classifyContract_def)
next
  case (Some rc)
  have i: "ID rc = x" using Some by (rule View_ID)
  have u: "managedContractUtility c x = (Utility rc, True)"
    using Some by (simp add: managedContractUtility_def)
  from assms Some i u show ?thesis
    by (auto simp: classifyContract_def Let_def split: if_splits prod.splits sum.splits)
qed

lemma classify_sets:
  assumes "classifyContracts K E c renter bh ids (cs, rs, fs, fr) = Inr (cs', rs', fs', fr')"
    and "\<forall>r \<in> set rs. \<exists>rc. View c (renewalID r) = Some rc
                          \<and> EndHeight rc \<le> bh + RenewWindow (RenterAllowance renter)"
    and "\<forall>r \<in> set fs. \<exists>rc. View c (renewalID r) = Some rc
                          \<and> bh + RenewWindow (RenterAllowance renter) < EndHeight rc
                          \<and> \<not> GoodForUpload (Utility rc)"
  shows "(\<forall>r \<in> set rs'. \<exists>rc. View c (renewalID r) = Some rc
                            \<and> EndHeight rc \<le> bh + RenewWindow (RenterAllowance renter))
       \<and> (\<forall>r \<in> set fs'. \<exists>rc. View c (renewalID r) = Some rc
                            \<and> bh + RenewWindow (RenterAllowance renter) < EndHeight rc
                            \<and> \<not> GoodForUpload (Utility rc))"
  using assms
proof (induction ids arbitrary: cs rs fs fr)
  case Nil
  then show ?case by simp
next
  case (Cons x rest)
  from Cons.prems(1) obtain cs2 rs2 fs2 fr2 where
    1: "classifyContract K E c renter bh x (cs, rs, fs, fr) = Inr (cs2, rs2, fs2, fr2)"
    and rec: "classifyContracts K E c renter bh rest (cs2, rs2, fs2, fr2) = Inr (cs', rs', fs', fr')"
    by (auto split: sum.splits)
  from classifyContract_sets [OF 1] have
    r2: "rs2 = rs \<or> (\<exists>rc r. View c x = Some rc
                       \<and> EndHeight rc \<le> bh + RenewWindow (RenterAllowance renter)
                       \<and> renewalID r = x \<and> rs2 = rs @ [r])"
    and f2: "fs2 = fs \<or> (\<exists>rc r. View c x = Some rc
                       \<and> bh + RenewWindow (RenterAllowance renter) < EndHeight rc
                       \<and> \<not> GoodForUpload (Utility rc)
                       \<and> renewalID r = x \<and> fs2 = fs @ [r])"
    by blast+
  have a: "\<forall>r \<in> set rs2. \<exists>rc. View c (renewalID r) = Some rc
                          \<and> EndHeight rc \<le> bh + RenewWindow (RenterAllowance renter)"
    using r2 Cons.prems(2) by auto
  have b: "\<forall>r \<in> set fs2. \<exists>rc. View c (renewalID r) = Some rc
                          \<and> bh + RenewWindow (RenterAllowance renter) < EndHeight rc
                          \<and> \<not> GoodForUpload (Utility rc)"
    using f2 Cons.prems(3) by auto
  from Cons.IH [OF rec a b] show ?case .
qed

lemma classify_sets_initial:
  assumes "classifyContracts K E c renter bh ids ([], [], [], 0) = Inr (cs', rs', fs', fr')"
  shows "\<forall>r \<in> set rs'. \<exists>rc. View c (renewalID r) = Some rc
                            \<and> EndHeight rc \<le> bh + RenewWindow (RenterAllowance renter)"
    and "\<forall>r \<in> set fs'. \<exists>rc. View c (renewalID r) = Some rc
                            \<and> bh + RenewWindow (RenterAllowance renter) < EndHeight rc
                            \<and> \<not> GoodForUpload (Utility rc)"
  using classify_sets [OF assms] by simp_all

lemma classify_disjoint:
  assumes "classifyContracts K E c renter bh ids ([], [], [], 0) = Inr (cs', rs', fs', fr')"
  shows "renewalID ` set rs' \<inter> renewalID ` set fs' = {}"
proof -
  note a = classify_sets_initial(1) [OF assms] and b = classify_sets_initial(2) [OF assms]
  show ?thesis
  proof (rule ccontr)
    assume "renewalID ` set rs' \<inter> renewalID ` set fs' \<noteq> {}"
    then obtain r f where r: "r \<in> set rs'" and f: "f \<in> set fs'" and e: "renewalID r = renewalID f"
      by auto
    from a r obtain rc where 1: "View c (renewalID r) = Some rc"
      "EndHeight rc \<le> bh + RenewWindow (RenterAllowance renter)" by blast
    from b f obtain rc' where 2: "View c (renewalID f) = Some rc'"
      "bh + RenewWindow (RenterAllowance renter) < EndHeight rc'" by blast
    from 1 2 e show False by simp
  qed
qed

text \<open>A contract that is still good for upload and outside its renew window is kept.\<close>

lemma classifyContract_keeps:
  assumes "classifyContract K E c renter bh x (cs, rs, fs, fr) = Inr (cs', rs', fs', fr')"
  shows "set cs \<subseteq> set cs'"
  using assms
  by (auto simp: classifyContract_def Let_def
        split: option.splits if_splits prod.splits sum.splits)

lemma classify_keeps:
  assumes "classifyContracts K E c renter bh ids (cs, rs, fs, fr) = Inr (cs', rs', fs', fr')"
  shows "set cs \<subseteq> set cs'"
  using assms
proof (induction ids arbitrary: cs rs fs fr)
  case Nil
  then show ?case by simp
next
  case (Cons fcid rest)
  from Cons.prems obtain cs1 rs1 fs1 fr1 where
    1: "classifyContract K E c renter bh fcid (cs, rs, fs, fr) = Inr (cs1, rs1, fs1, fr1)"
    and 2: "classifyContracts K E c renter bh rest (cs1, rs1, fs1, fr1) = Inr (cs', rs', fs', fr')"
    by (auto split: sum.splits)
  from classifyContract_keeps [OF 1] Cons.IH [OF 2] show ?case by auto
qed

lemma classifyContract_kept:
  assumes "View c fcid = Some rc" and "RenterPublicKey rc = PublicKey renter"
    and "GoodForUpload (Utility rc)"
    and "bh + RenewWindow (RenterAllowance renter) < EndHeight rc"
    and "classifyContract K E c renter bh fcid (cs, rs, fs, fr) = Inr (cs', rs', fs', fr')"
  shows "rc \<in> set cs'"
proof -
  have u: "managedContractUtility c fcid = (Utility rc, True)"
    using assms(1) by (simp add: managedContractUtility_def)
  from assms u show ?thesis
    by (auto simp: classifyContract_def Let_def)
qed

lemma classify_kept:
  assumes "classifyContracts K E c renter bh ids (cs, rs, fs, fr) = Inr (cs', rs', fs', fr')"
    and "fcid \<in> set ids" and "View c fcid = Some rc"
    and "RenterPublicKey rc = PublicKey renter" and "GoodForUpload (Utility rc)"
    and "bh + RenewWindow (RenterAllowance renter) < EndHeight rc"
  shows "rc \<in> set cs'"
  using assms(1,2)
proof (induction ids arbitrary: cs rs fs fr)
  case Nil
  then show ?case by simp
next
  case (Cons x rest)
  from Cons.prems(1) obtain cs1 rs1 fs1 fr1 where
    1: "classifyContract K E c renter bh x (cs, rs, fs, fr) = Inr (cs1, rs1, fs1, fr1)"
    and 2: "classifyContracts K E c renter bh rest (cs1, rs1, fs1, fr1) = Inr (cs', rs', fs', fr')"
    by (auto split: sum.splits)
  show ?case
  proof (cases "x = fcid")
    case True
    from classifyContract_kept [OF assms(3-6) 1 [unfolded True]] classify_keeps [OF 2]
    show ?thesis by auto
  next
    case False
    with Cons.prems have "fcid \<in> set rest" by simp
    from Cons.IH [OF 2 this] show ?thesis .
  qed
qed

lemma classify_kept_not_renewed:
  assumes "classifyContracts K E c renter bh ids ([], [], [], 0) = Inr (cs', rs', fs', fr')"
    and "View c fcid = Some rc" and "GoodForUpload (Utility rc)"
    and "bh + RenewWindow (RenterAllowance renter) < EndHeight rc"
  shows "fcid \<notin> renewalID ` (set rs' \<union> set fs')"
proof
  assume "fcid \<in> renewalID ` (set rs' \<union> set fs')"
  then obtain r where r: "r \<in> set rs' \<or> r \<in> set fs'" and i: "renewalID r = fcid" by auto
  from r show False
  proof
    assume "r \<in> set rs'"
    with classify_sets_initial(1) [OF assms(1)] obtain rc' where
      "View c (renewalID r) = Some rc'"
      "EndHeight rc' \<le> bh + RenewWindow (RenterAllowance renter)" by blast
    with assms(2,4) i show False by simp
  next
    assume "r \<in> set fs'"
    with classify_sets_initial(2) [OF assms(1)] obtain rc' where
      "View c (renewalID r) = Some rc'" "\<not> GoodForUpload (Utility rc')" by blast
    with assms(2,3) i show False by simp
  qed
qed

subsection \<open>The log and the tally of a pass\<close>

lemma tallies_Nil [simp]: "tallies i [] = 0"
  by (simp add: tallies_def)

lemma tallies_append [simp]: "tallies i (L1 @ L2) = tallies i L1 + tallies i L2"
  by (simp add: tallies_def)

lemma raised_0 [simp]: "raised m 0 = m"
  by (simp add: raised_def)

lemma raised_raised: "raised (raised m a) b = raised m (a + b)"
  by (cases m) (auto simp: raised_def)

lemma managedAcquireAndUpdate_frame:
  assumes "managedAcquireAndUpdateContractUtility E c i u = Some (e, c1)"
  shows "logged c1 = logged c" and "numFailedRenews c1 = numFailedRenews c"
  using assms
  by (auto simp: managedAcquireAndUpdateContractUtility_def managedUpdateContractUtility_def
        callUpdateUtility_def UpdateUtility_def Acquire_def Return_def
        split: option.splits if_splits prod.splits)

lemma renewFailed_frame:
  "logged (snd (renewFailed K E c a bh old e))
   = logged c
     @ (if IsHostsFault e
          then [TallyingFailedRenews
                  ((case numFailedRenews c (ID old) of None \<Rightarrow> 0 | Some n \<Rightarrow> n) + 1) (ID old)]
        else [])"
  "numFailedRenews (snd (renewFailed K E c a bh old e))
   = (if IsHostsFault e
        then (numFailedRenews c)
               (ID old \<mapsto> (case numFailedRenews c (ID old) of None \<Rightarrow> 0 | Some n \<Rightarrow> n) + 1)
      else numFailedRenews c)"
  by (auto simp: renewFailed_def Let_def tallyFailedRenew_def Return_def callUpdateUtility_def
        UpdateUtility_def split: option.splits prod.splits)

lemma renewSucceeded_frame:
  assumes "renewSucceeded E c fcid old nc = Some c3"
  shows "logged c3 = logged c" and "numFailedRenews c3 = numFailedRenews c"
  using assms
  by (auto simp: renewSucceeded_def Let_def callUpdateUtility_def UpdateUtility_def
        Return_def Delete_def
        dest: managedAcquireAndUpdate_frame split: option.splits prod.splits)

text \<open>
  What a call of \<open>managedRenewContract\<close> that returns adds to the log and to the
  failed renewals: nothing, and then it returns an error; or the marking; or the marking
  and one tally, which raises the entry of the contract by one.
\<close>

lemma managedRenewContract_effect:
  assumes m: "managedRenewContract K E c r bh eh = Some ((spent, nc, err), c1)"
  shows "(logged c1 = logged c \<and> numFailedRenews c1 = numFailedRenews c \<and> err \<noteq> None)
       \<or> (logged c1 = logged c @ [MarkingContractForRenew (renewalID r)]
          \<and> numFailedRenews c1 = numFailedRenews c)
       \<or> (\<exists>n. logged c1
                = logged c @ [MarkingContractForRenew (renewalID r),
                              TallyingFailedRenews n (renewalID r)]
              \<and> numFailedRenews c1
                = (numFailedRenews c)
                    (renewalID r \<mapsto>
                       (case numFailedRenews c (renewalID r) of None \<Rightarrow> 0 | Some k \<Rightarrow> k) + 1))"
proof (cases "map_of (renters c) (renterPubKey r)")
  case None
  with m show ?thesis by (auto simp: managedRenewContract_def)
next
  case renter: (Some renter)
  show ?thesis
  proof (cases "sessionErr E (renterPubKey r) (hostPubKey r)")
    case (Some e)
    with m renter show ?thesis by (auto simp: managedRenewContract_def)
  next
    case session: None
    let ?c0 = "markRenewing c (renewalID r)"
    have c0: "logged ?c0 = logged c @ [MarkingContractForRenew (renewalID r)]"
      "numFailedRenews ?c0 = numFailedRenews c"
      by (simp_all add: markRenewing_def)
    show ?thesis
    proof (cases "sessionSettings E (hostPubKey r)")
      case (Inl e)
      with m renter session c0 show ?thesis
        by (auto simp: managedRenewContract_def Let_def)
    next
      case settings: (Inr hs)
      from m renter session settings obtain res c1' where
        mr: "managedRenew K E ?c0 (renewalID r) (renterPubKey r) (hostPubKey r) (amount r) eh hs
             = Some (res, c1')"
        by (auto simp: managedRenewContract_def Let_def split: option.splits)
      note fr = managedRenew_frame [OF mr]
      from m renter session settings mr obtain x c2 where
        acq: "Acquire c1' (renewalID r) = Some (x, c2)"
        by (auto simp: managedRenewContract_def Let_def split: option.splits)
      have c2: "logged c2 = logged c1'" "numFailedRenews c2 = numFailedRenews c1'"
        using acq by (auto simp: Acquire_def split: option.splits if_splits)
      show ?thesis
      proof (cases x)
        case None
        with m renter session settings mr acq have "c1 = c2\<lparr>renewing := renewing c2 - {renewalID r}\<rparr>"
          by (simp add: managedRenewContract_def Let_def)
        with c2 fr c0 show ?thesis by simp
      next
        case old: (Some old)
        have i: "ID old = renewalID r"
          using Acquire_Some(3) [OF acq [unfolded old]] .
        show ?thesis
        proof (cases res)
          case (Inl errRenew)
          let ?f = "renewFailed K E c2 (RenterAllowance renter) bh old errRenew"
          from m renter session settings mr acq old Inl
          have "c1 = (snd ?f)\<lparr>renewing := renewing (snd ?f) - {renewalID r}\<rparr>"
            by (simp add: managedRenewContract_def Let_def split: prod.splits)
          then have "logged c1 = logged (snd ?f)" "numFailedRenews c1 = numFailedRenews (snd ?f)"
            by simp_all
          with renewFailed_frame [of K E c2 "RenterAllowance renter" bh old errRenew] c2 fr c0 i
          show ?thesis by (cases "IsHostsFault errRenew") simp_all
        next
          case (Inr nc')
          from m renter session settings mr acq old Inr obtain c3 where
            rs: "renewSucceeded E c2 (renewalID r) old nc' = Some c3"
            and c1: "c1 = c3\<lparr>renewing := renewing c3 - {renewalID r}\<rparr>"
            by (auto simp: managedRenewContract_def Let_def split: option.splits)
          from renewSucceeded_frame [OF rs] c1 c2 fr c0 show ?thesis by simp
        qed
      qed
    qed
  qed
qed

lemma managedRenewContract_log:
  assumes "managedRenewContract K E c r bh eh = Some ((spent, nc, err), c1)"
  shows "\<exists>L. logged c1 = logged c @ L
           \<and> (\<forall>e \<in> set L. renewalEntry e = Some (renewalID r))
           \<and> (err = None \<longrightarrow> L \<noteq> [])
           \<and> (\<forall>i. numFailedRenews c1 i = raised (numFailedRenews c i) (tallies i L))"
  using managedRenewContract_effect [OF assms]
proof (elim disjE exE conjE)
  assume a: "logged c1 = logged c" "numFailedRenews c1 = numFailedRenews c" "err \<noteq> None"
  have "logged c1 = logged c @ []" using a by simp
  with a show ?thesis by (intro exI [of _ "[]"]) simp
next
  assume a: "logged c1 = logged c @ [MarkingContractForRenew (renewalID r)]"
    "numFailedRenews c1 = numFailedRenews c"
  then show ?thesis
    by (intro exI [of _ "[MarkingContractForRenew (renewalID r)]"]) (simp add: tallies_def)
next
  fix n
  assume a: "logged c1
                = logged c @ [MarkingContractForRenew (renewalID r),
                              TallyingFailedRenews n (renewalID r)]"
    "numFailedRenews c1
                = (numFailedRenews c)
                    (renewalID r \<mapsto>
                       (case numFailedRenews c (renewalID r) of None \<Rightarrow> 0 | Some k \<Rightarrow> k) + 1)"
  then show ?thesis
    by (intro exI [of _ "[MarkingContractForRenew (renewalID r),
                          TallyingFailedRenews n (renewalID r)]"])
       (auto simp: tallies_def raised_def)
qed

lemma renewalErrorEntry_simps [simp]:
  "renewalEntry (renewalErrorEntry refresh i e) = Some i"
  "isTally j (renewalErrorEntry refresh i e) = False"
  by (simp_all add: renewalErrorEntry_def)

lemma renewIteration_log:
  assumes it: "renewIteration K E renter bh refresh r (c, cs, fr, al)
               = Some (flag, (c1, cs1, fr1, al1))"
  shows "\<exists>L. logged c1 = logged c @ L
           \<and> (\<forall>e \<in> set L. renewalEntry e = Some (renewalID r))
           \<and> (flag = None \<longrightarrow> L \<noteq> [])
           \<and> (\<forall>i. numFailedRenews c1 i = raised (numFailedRenews c i) (tallies i L))"
proof (cases "stopped E \<or> \<not> fst (walletUnlocked E) \<or> snd (walletUnlocked E) \<noteq> None")
  case True
  with it have "c1 = c" "flag \<noteq> None"
    by (auto simp: renewIteration_def split: prod.splits if_splits)
  then show ?thesis by (intro exI [of _ "[]"]) simp
next
  case ok: False
  show ?thesis
  proof (cases "amount r > fr")
    case True
    let ?e = "if refresh then SkippingRefresh (renewalID r) else SkippingRenewal (renewalID r)"
    from it ok True have "c1 = c\<lparr>logged := logged c @ [?e]\<rparr>"
      by (auto simp: renewIteration_def split: prod.splits if_splits)
    then show ?thesis by (intro exI [of _ "[?e]"]) (simp add: tallies_def)
  next
    case False
    from it ok False obtain spent nc err c' where
      m: "managedRenewContract K E c r bh (ContractEndHeight E renter)
          = Some ((spent, nc, err), c')"
      by (auto simp: renewIteration_def split: prod.splits if_splits option.splits)
    from managedRenewContract_log [OF m] obtain L0 where
      L0: "logged c' = logged c @ L0" "\<forall>e \<in> set L0. renewalEntry e = Some (renewalID r)"
      "err = None \<longrightarrow> L0 \<noteq> []"
      "\<forall>i. numFailedRenews c' i = raised (numFailedRenews c i) (tallies i L0)"
      by blast
    show ?thesis
    proof (cases err)
      case (Some e)
      let ?e = "renewalErrorEntry refresh (renewalID r) e"
      from it ok False m Some have "c1 = c'\<lparr>logged := logged c' @ [?e]\<rparr>"
        by (auto simp: renewIteration_def Let_def split: prod.splits if_splits)
      with L0 show ?thesis by (intro exI [of _ "L0 @ [?e]"]) (simp add: tallies_def)
    next
      case None
      from it ok False m None obtain e where
        "managedAcquireAndUpdateContractUtility E c' (ID nc)
           \<lparr>GoodForUpload = True, GoodForRenew = True, Locked = False\<rparr> = Some (e, c1)"
        by (auto simp: renewIteration_def Let_def split: prod.splits if_splits option.splits)
      from managedAcquireAndUpdate_frame [OF this] L0 None show ?thesis
        by (intro exI [of _ L0]) simp
    qed
  qed
qed

lemma renewLoop_log:
  assumes "renewLoop K E renter bh refresh rs (c, cs, fr, al) = Some (flag, (c1, cs1, fr1, al1))"
  shows "\<exists>L. logged c1 = logged c @ L
           \<and> (\<forall>e \<in> set L. \<exists>r \<in> set rs. renewalEntry e = Some (renewalID r))
           \<and> (flag = None
                \<longrightarrow> (\<forall>r \<in> set rs. \<exists>e \<in> set L. renewalEntry e = Some (renewalID r)))
           \<and> (\<forall>i. numFailedRenews c1 i = raised (numFailedRenews c i) (tallies i L))"
  using assms
proof (induction rs arbitrary: c cs fr al)
  case Nil
  then have "c1 = c" by simp
  then show ?case by (intro exI [of _ "[]"]) simp
next
  case (Cons r rest)
  from Cons.prems obtain f2 c2 cs2 fr2 al2 where
    it: "renewIteration K E renter bh refresh r (c, cs, fr, al) = Some (f2, (c2, cs2, fr2, al2))"
    by (auto split: option.splits)
  from renewIteration_log [OF it] obtain L0 where
    L0: "logged c2 = logged c @ L0" "\<forall>e \<in> set L0. renewalEntry e = Some (renewalID r)"
    "f2 = None \<longrightarrow> L0 \<noteq> []"
    "\<forall>i. numFailedRenews c2 i = raised (numFailedRenews c i) (tallies i L0)"
    by blast
  show ?case
  proof (cases f2)
    case (Some err)
    with Cons.prems it have "c1 = c2" "flag \<noteq> None" by auto
    with L0 show ?thesis by (intro exI [of _ L0]) auto
  next
    case None
    with Cons.prems it have
      "renewLoop K E renter bh refresh rest (c2, cs2, fr2, al2) = Some (flag, (c1, cs1, fr1, al1))"
      by simp
    from Cons.IH [OF this] obtain L1 where
      L1: "logged c1 = logged c2 @ L1"
      "\<forall>e \<in> set L1. \<exists>r \<in> set rest. renewalEntry e = Some (renewalID r)"
      "flag = None \<longrightarrow> (\<forall>r \<in> set rest. \<exists>e \<in> set L1. renewalEntry e = Some (renewalID r))"
      "\<forall>i. numFailedRenews c1 i = raised (numFailedRenews c2 i) (tallies i L1)"
      by blast
    from L0(3) None obtain e0 where e0: "e0 \<in> set L0" by (cases L0) auto
    have 1: "logged c1 = logged c @ (L0 @ L1)"
      using L0(1) L1(1) by simp
    have 2: "\<forall>e \<in> set (L0 @ L1). \<exists>r' \<in> set (r # rest). renewalEntry e = Some (renewalID r')"
      using L0(2) L1(2) by auto
    have 3: "flag = None
             \<longrightarrow> (\<forall>r' \<in> set (r # rest). \<exists>e \<in> set (L0 @ L1). renewalEntry e = Some (renewalID r'))"
    proof (intro impI ballI)
      fix r' assume f: "flag = None" and r': "r' \<in> set (r # rest)"
      show "\<exists>e \<in> set (L0 @ L1). renewalEntry e = Some (renewalID r')"
      proof (cases "r' = r")
        case True
        with e0 L0(2) show ?thesis by auto
      next
        case False
        with r' have "r' \<in> set rest" by simp
        with L1(3) f obtain e where "e \<in> set L1" "renewalEntry e = Some (renewalID r')"
          by blast
        then show ?thesis by auto
      qed
    qed
    have 4: "\<forall>i. numFailedRenews c1 i = raised (numFailedRenews c i) (tallies i (L0 @ L1))"
      using L0(4) L1(4) by (simp add: raised_raised)
    from 1 2 3 4 show ?thesis by blast
  qed
qed

text \<open>How \<open>RenewContracts\<close> ends, once the contracts are classified.\<close>

lemma RenewContracts_cases:
  assumes "synced E" and "map_of (renters c) rpk = Some renter"
    and "classifyContracts K E c renter (blockHeight c) ids ([], [], [], 0)
         = Inr (contractSet, renewSet, refreshSet, fundsRemaining)"
    and "RenewContracts K E c rpk ids = Some (res, after)"
  shows "(fst res = None \<and> after = c\<lparr>lowFundsAlert := False\<rparr>)
       \<or> (\<exists>err c1 cs1 fr1 al1.
             renewLoop K E renter (blockHeight c) False renewSet
               (c, contractSet, fundsRemaining, False)
             = Some (Some err, (c1, cs1, fr1, al1))
           \<and> fst res = None \<and> after = c1\<lparr>lowFundsAlert := al1\<rparr>)
       \<or> (\<exists>st1 err c2 cs2 fr2 al2.
             renewLoop K E renter (blockHeight c) False renewSet
               (c, contractSet, fundsRemaining, False)
             = Some (None, st1)
           \<and> renewLoop K E renter (blockHeight c) True refreshSet st1
             = Some (Some err, (c2, cs2, fr2, al2))
           \<and> fst res = None \<and> after = c2\<lparr>lowFundsAlert := al2\<rparr>)
       \<or> (\<exists>st1 c2 cs2 fr2 al2.
             renewLoop K E renter (blockHeight c) False renewSet
               (c, contractSet, fundsRemaining, False)
             = Some (None, st1)
           \<and> renewLoop K E renter (blockHeight c) True refreshSet st1
             = Some (None, (c2, cs2, fr2, al2))
           \<and> res = (Some cs2, None)
           \<and> after = (updateFailedRenews renewSet refreshSet c2)\<lparr>lowFundsAlert := al2\<rparr>)"
  using assms
  by (auto simp: RenewContracts_def renewBatch_def Let_def
        split: if_splits option.splits prod.splits)

subsection \<open>Failed renewals kept at the end of a pass\<close>

lemma keepFailedRenews_eq:
  assumes "\<forall>i. m i = None \<or> m i = nf i"
  shows "keepFailedRenews nf rs m = (\<lambda>i. if i \<in> renewalID ` set rs then nf i else m i)"
  using assms
proof (induction rs arbitrary: m)
  case Nil
  then show ?case by simp
next
  case (Cons r rs)
  let ?m = "case nf (renewalID r) of None \<Rightarrow> m | Some n \<Rightarrow> m(renewalID r \<mapsto> n)"
  have inv: "\<forall>i. ?m i = None \<or> ?m i = nf i"
    using Cons.prems by (auto split: option.splits)
  have "keepFailedRenews nf (r # rs) m = keepFailedRenews nf rs ?m" by simp
  also have "\<dots> = (\<lambda>i. if i \<in> renewalID ` set rs then nf i else ?m i)"
    by (rule Cons.IH [OF inv])
  also have "\<dots> = (\<lambda>i. if i \<in> renewalID ` set (r # rs) then nf i else m i)"
    using Cons.prems by (auto split: option.splits simp: fun_eq_iff)
  finally show ?case .
qed

lemma updateFailedRenews_restrict:
  "numFailedRenews (updateFailedRenews rs fs c)
   = numFailedRenews c |` (renewalID ` (set rs \<union> set fs))"
proof -
  let ?nf = "numFailedRenews c"
  have 1: "keepFailedRenews ?nf rs Map.empty = (\<lambda>i. if i \<in> renewalID ` set rs then ?nf i else None)"
    by (subst keepFailedRenews_eq) auto
  have 2: "keepFailedRenews ?nf fs (\<lambda>i. if i \<in> renewalID ` set rs then ?nf i else None)
        = (\<lambda>i. if i \<in> renewalID ` set fs then ?nf i
                else if i \<in> renewalID ` set rs then ?nf i else None)"
    by (subst keepFailedRenews_eq) auto
  show ?thesis
    by (auto simp: updateFailedRenews_def 1 2 restrict_map_def fun_eq_iff)
qed

lemma example_renew_hostFault:
  "managedRenewContract exampleConstants hostFaultEnv expiringContractor exampleRenewal 500 eh
   = Some ((0, emptyContract,
            Some (Wrapped ''contract renewal with host was unsuccessful'' (External True))),
           expiringContractor
             \<lparr>logged := [MarkingContractForRenew 11, TallyingFailedRenews 1 11],
               numFailedRenews := [11 \<mapsto> 1]\<rparr>)"
  by (simp add: renew_defs store_defs scenario_defs example_defs Let_def word_le_nat_alt)

lemma example_renewLoop_hostFault:
  "renewLoop exampleConstants hostFaultEnv exampleRenter 500 False [exampleRenewal]
     (expiringContractor, [], 100000, False)
   = Some (None,
           (expiringContractor
              \<lparr>logged := [MarkingContractForRenew 11, TallyingFailedRenews 1 11,
                          ErrorRenewing 11],
                numFailedRenews := [11 \<mapsto> 1]\<rparr>, [], 100000, False))"
proof -
  have e: "stopped hostFaultEnv = False" "walletUnlocked hostFaultEnv = (True, None)"
    "amount exampleRenewal = 14164" "renewalID exampleRenewal = 11"
    by (simp_all add: scenario_defs example_defs)
  show ?thesis
    by (simp add: renewIteration_def e example_renew_hostFault renewalErrorEntry_def)
qed

lemma example_pass_hostFault:
  "RenewContracts exampleConstants hostFaultEnv expiringContractor ''R'' [11]
   = Some ((Some [], None),
           expiringContractor
             \<lparr>logged := [MarkingContractForRenew 11, TallyingFailedRenews 1 11,
                         ErrorRenewing 11],
               numFailedRenews := [11 \<mapsto> 1]\<rparr>)"
proof -
  have s: "synced hostFaultEnv" "blockHeight expiringContractor = 500"
    "map_of (renters expiringContractor) ''R'' = Some exampleRenter"
    "maxContractSliceCap hostFaultEnv = 2 ^ 39"
    by (simp_all add: scenario_defs example_defs)
  have cl: "classifyContracts exampleConstants hostFaultEnv expiringContractor exampleRenter
              500 [11] ([], [], [], 0)
            = Inr ([], [exampleRenewal], [], 100000)"
    by (rule example_classify_expiring) simp
  have k: "updateFailedRenews [exampleRenewal] []
             (expiringContractor
                \<lparr>logged := [MarkingContractForRenew 11, TallyingFailedRenews 1 11,
                            ErrorRenewing 11],
                  numFailedRenews := [11 \<mapsto> 1]\<rparr>)
           = expiringContractor
                \<lparr>logged := [MarkingContractForRenew 11, TallyingFailedRenews 1 11,
                            ErrorRenewing 11],
                  numFailedRenews := [11 \<mapsto> 1]\<rparr>"
    by (simp add: updateFailedRenews_def exampleRenewal_def)
  have a: "lowFundsAlert expiringContractor = False"
    by (simp add: scenario_defs example_defs)
  have l2: "renewLoop exampleConstants hostFaultEnv exampleRenter 500 True [] st
            = Some (None, st)" for st
    by simp
  show ?thesis
    by (simp add: RenewContracts_def renewBatch_def s cl example_renewLoop_hostFault l2 k a
          del: classifyContracts.simps renewLoop.simps)
qed

text \<open>
  C8, as the code has it. When \<open>RenewContracts\<close> finishes a pass and returns its
  contract set, \<open>numFailedRenews\<close> holds exactly the entries of the contract ids in
  the renew set or the refresh set that had an entry before the pass or a failed renewal
  tallied during the pass; the count of such an id is its count from before the pass
  (zero if it had none) raised by one for every tally of the pass, which the contractor
  writes to its log whenever it finds the host at fault; every other entry is removed.
\<close>

theorem failed_renews_kept_for_renew_and_refresh_set:
  assumes "synced E" and "map_of (renters c) rpk = Some renter"
    and "classifyContracts K E c renter (blockHeight c) ids ([], [], [], 0)
         = Inr (contractSet, renewSet, refreshSet, fundsRemaining)"
    and "RenewContracts K E c rpk ids = Some ((Some contractSet2, None), after)"
    and "L = drop (length (logged c)) (logged after)"
  shows "logged after = logged c @ L
       \<and> numFailedRenews after
         = (\<lambda>i. if i \<in> renewalID ` (set renewSet \<union> set refreshSet)
                  then raised (numFailedRenews c i) (tallies i L)
                else None)"
proof -
  from RenewContracts_cases [OF assms(1-4)]
  obtain st1 c2 cs2 fr2 al2 where
    l1: "renewLoop K E renter (blockHeight c) False renewSet
           (c, contractSet, fundsRemaining, False) = Some (None, st1)"
    and l2: "renewLoop K E renter (blockHeight c) True refreshSet st1
             = Some (None, (c2, cs2, fr2, al2))"
    and after: "after = (updateFailedRenews renewSet refreshSet c2)\<lparr>lowFundsAlert := al2\<rparr>"
    by auto
  obtain c1 cs1 fr1 al1 where st1: "st1 = (c1, cs1, fr1, al1)"
    by (cases st1) auto
  from renewLoop_log [OF l1 [unfolded st1]] obtain L1 where
    L1: "logged c1 = logged c @ L1"
    "\<forall>i. numFailedRenews c1 i = raised (numFailedRenews c i) (tallies i L1)"
    by blast
  from renewLoop_log [OF l2 [unfolded st1]] obtain L2 where
    L2: "logged c2 = logged c1 @ L2"
    "\<forall>i. numFailedRenews c2 i = raised (numFailedRenews c1 i) (tallies i L2)"
    by blast
  have la: "logged after = logged c2"
    by (simp add: after updateFailedRenews_def)
  have lg: "logged after = logged c @ (L1 @ L2)"
    using L1(1) L2(1) la by simp
  then have L: "L = L1 @ L2"
    by (simp add: assms(5))
  have n2: "numFailedRenews c2 i = raised (numFailedRenews c i) (tallies i L)" for i
    using L1(2) L2(2) by (simp add: L raised_raised)
  have "numFailedRenews after
        = numFailedRenews c2 |` (renewalID ` (set renewSet \<union> set refreshSet))"
    by (simp add: after updateFailedRenews_restrict)
  then have "numFailedRenews after
         = (\<lambda>i. if i \<in> renewalID ` (set renewSet \<union> set refreshSet)
                  then raised (numFailedRenews c i) (tallies i L)
                else None)"
    by (auto simp: restrict_map_def n2 fun_eq_iff)
  with lg L show ?thesis by simp
qed

theorem failed_renews_kept_witness:
  "\<exists>after.
     RenewContracts exampleConstants hostFaultEnv expiringContractor ''R'' [11]
     = Some ((Some [], None), after)
   \<and> drop (length (logged expiringContractor)) (logged after)
     = [MarkingContractForRenew 11, TallyingFailedRenews 1 11, ErrorRenewing 11]
   \<and> numFailedRenews expiringContractor 11 = None
   \<and> numFailedRenews after 11 = Some 1
   \<and> numFailedRenews after 12 = None"
proof -
  let ?after = "expiringContractor
             \<lparr>logged := [MarkingContractForRenew 11, TallyingFailedRenews 1 11,
                         ErrorRenewing 11],
               numFailedRenews := [11 \<mapsto> 1]\<rparr>"
  have s: "synced hostFaultEnv"
    by (simp add: scenario_defs example_defs)
  have r: "map_of (renters expiringContractor) ''R'' = Some exampleRenter"
    by (simp add: scenario_defs example_defs)
  have b: "blockHeight expiringContractor = 500" "logged expiringContractor = []"
    "numFailedRenews expiringContractor = Map.empty"
    by (simp_all add: scenario_defs example_defs)
  have cl: "classifyContracts exampleConstants hostFaultEnv expiringContractor exampleRenter
              (blockHeight expiringContractor) [11] ([], [], [], 0)
            = Inr ([], [exampleRenewal], [], 100000)"
    unfolding b by (rule example_classify_expiring) simp
  have d: "drop (length (logged expiringContractor)) (logged ?after)
     = [MarkingContractForRenew 11, TallyingFailedRenews 1 11, ErrorRenewing 11]"
    by (simp add: b)
  from failed_renews_kept_for_renew_and_refresh_set [OF s r cl example_pass_hostFault refl]
  have n: "numFailedRenews ?after
         = (\<lambda>i. if i \<in> renewalID ` (set [exampleRenewal] \<union> set [])
                  then raised (numFailedRenews expiringContractor i)
                         (tallies i [MarkingContractForRenew 11, TallyingFailedRenews 1 11,
                                     ErrorRenewing 11])
                else None)"
    unfolding d by simp
  have "numFailedRenews ?after 11 = Some 1" "numFailedRenews ?after 12 = None"
    unfolding n by (simp_all add: b exampleRenewal_def tallies_def raised_def)
  with example_pass_hostFault d b show ?thesis
    by (intro exI [of _ ?after]) simp
qed

text \<open>
  C8 as stated fails: a contract of the renew set with no entry before the pass, whose
  renewal fails by the host's fault during the pass, has an entry with count 1 when the
  pass is finished.
\<close>

theorem failed_renews_counterexample:
  "\<exists>after.
     RenewContracts exampleConstants hostFaultEnv expiringContractor ''R'' [11]
     = Some ((Some [], None), after)
   \<and> 11 \<notin> dom (numFailedRenews expiringContractor)
   \<and> numFailedRenews after 11 = Some 1"
proof -
  have "11 \<notin> dom (numFailedRenews expiringContractor)"
    by (simp add: scenario_defs example_defs)
  with example_pass_hostFault show ?thesis by simp
qed

subsection \<open>The refresh set\<close>

text \<open>
  C7, as the code has it. Within \<open>RenewContracts\<close>, every submitted contract of the
  renter that is good for renew and no longer good for upload, whose host is known to the
  host database without error, not filtered and of a supported version, that is not yet
  inside its renew window, and whose remaining funds are below three times the sector
  price or whose ratio of funds to total cost is below the threshold, is placed in the
  refresh set with the maximum of twice its total cost and the allowance's funds times
  \<open>fileContractMinimumFunding\<close> divided by the number of hosts. A submitted contract
  of the renter that is still good for upload and not yet inside its renew window is put
  into the contract set as it is, and is in neither the renew set nor the refresh set. No
  contract is in both sets. The refresh set is processed only after the renew set: what
  a pass that returns adds to the log is a run of lines about renewals of the renew set
  followed by a run of lines about renewals of the refresh set; there is a line about a
  renewal of the refresh set only if there is one about every renewal of the renew set;
  and when the pass returns its contract set, there is a line about every renewal of both
  sets.
\<close>

theorem refresh_set_classification_and_order:
  assumes "synced E" and "map_of (renters c) rpk = Some renter"
    and "classifyContracts K E c renter (blockHeight c) ids ([], [], [], 0)
         = Inr (contractSet, renewSet, refreshSet, fundsRemaining)"
  shows "(fcid \<in> set ids \<and> View c fcid = Some rc
          \<and> RenterPublicKey rc = PublicKey renter
          \<and> GoodForRenew (Utility rc) \<and> \<not> GoodForUpload (Utility rc)
          \<and> hdbHost E (HostPublicKey rc) = (host, ex, None) \<and> \<not> Filtered host
          \<and> versionSupported E (Version (Settings host))
          \<and> blockHeight c + RenewWindow (RenterAllowance renter) < EndHeight rc
          \<and> (RenterFunds rc < sectorPriceOf K (RenterAllowance renter) (Settings host) * 3
               \<or> percentRemainingBelowThreshold E (RenterFunds rc) (TotalCost rc))
          \<longrightarrow> \<lparr>renewalID = fcid,
                 amount = max (TotalCost rc * 2)
                            (MulFloat (Funds (RenterAllowance renter))
                               (fileContractMinimumFunding K)
                             div unat (Hosts (RenterAllowance renter))),
                 hostPubKey = HostPublicKey rc, renterPubKey = PublicKey renter\<rparr>
               \<in> set refreshSet)
       \<and> (kept \<in> set ids \<and> View c kept = Some krc
          \<and> RenterPublicKey krc = PublicKey renter
          \<and> GoodForUpload (Utility krc)
          \<and> blockHeight c + RenewWindow (RenterAllowance renter) < EndHeight krc
          \<longrightarrow> krc \<in> set contractSet
              \<and> kept \<notin> renewalID ` (set renewSet \<union> set refreshSet))
       \<and> renewalID ` set renewSet \<inter> renewalID ` set refreshSet = {}
       \<and> (RenewContracts K E c rpk ids = Some (res, after)
          \<longrightarrow> (\<exists>L1 L2. logged after = logged c @ L1 @ L2
                 \<and> (\<forall>e \<in> set L1. \<exists>r \<in> set renewSet. renewalEntry e = Some (renewalID r))
                 \<and> (\<forall>e \<in> set L2. \<exists>r \<in> set refreshSet. renewalEntry e = Some (renewalID r))
                 \<and> (L2 \<noteq> [] \<or> fst res \<noteq> None
                      \<longrightarrow> (\<forall>r \<in> set renewSet. \<exists>e \<in> set L1.
                              renewalEntry e = Some (renewalID r)))
                 \<and> (fst res \<noteq> None
                      \<longrightarrow> (\<forall>r \<in> set refreshSet. \<exists>e \<in> set L2.
                              renewalEntry e = Some (renewalID r)))))"
proof (intro conjI impI)
  assume "fcid \<in> set ids \<and> View c fcid = Some rc
          \<and> RenterPublicKey rc = PublicKey renter
          \<and> GoodForRenew (Utility rc) \<and> \<not> GoodForUpload (Utility rc)
          \<and> hdbHost E (HostPublicKey rc) = (host, ex, None) \<and> \<not> Filtered host
          \<and> versionSupported E (Version (Settings host))
          \<and> blockHeight c + RenewWindow (RenterAllowance renter) < EndHeight rc
          \<and> (RenterFunds rc < sectorPriceOf K (RenterAllowance renter) (Settings host) * 3
               \<or> percentRemainingBelowThreshold E (RenterFunds rc) (TotalCost rc))"
  then show "\<lparr>renewalID = fcid,
                 amount = max (TotalCost rc * 2)
                            (MulFloat (Funds (RenterAllowance renter))
                               (fileContractMinimumFunding K)
                             div unat (Hosts (RenterAllowance renter))),
                 hostPubKey = HostPublicKey rc, renterPubKey = PublicKey renter\<rparr>
               \<in> set refreshSet"
    using classify_refresh [OF assms(3), of fcid rc host ex] by blast
next
  assume k: "kept \<in> set ids \<and> View c kept = Some krc
          \<and> RenterPublicKey krc = PublicKey renter
          \<and> GoodForUpload (Utility krc)
          \<and> blockHeight c + RenewWindow (RenterAllowance renter) < EndHeight krc"
  then show "krc \<in> set contractSet"
    using classify_kept [OF assms(3), of kept krc] by blast
  from k show "kept \<notin> renewalID ` (set renewSet \<union> set refreshSet)"
    using classify_kept_not_renewed [OF assms(3), of kept krc] by blast
next
  show "renewalID ` set renewSet \<inter> renewalID ` set refreshSet = {}"
    using assms(3) by (rule classify_disjoint)
next
  assume ret: "RenewContracts K E c rpk ids = Some (res, after)"
  let ?P = "\<lambda>L1 L2. logged after = logged c @ L1 @ L2
                 \<and> (\<forall>e \<in> set L1. \<exists>r \<in> set renewSet. renewalEntry e = Some (renewalID r))
                 \<and> (\<forall>e \<in> set L2. \<exists>r \<in> set refreshSet. renewalEntry e = Some (renewalID r))
                 \<and> (L2 \<noteq> [] \<or> fst res \<noteq> None
                      \<longrightarrow> (\<forall>r \<in> set renewSet. \<exists>e \<in> set L1.
                              renewalEntry e = Some (renewalID r)))
                 \<and> (fst res \<noteq> None
                      \<longrightarrow> (\<forall>r \<in> set refreshSet. \<exists>e \<in> set L2.
                              renewalEntry e = Some (renewalID r)))"
  from RenewContracts_cases [OF assms ret]
  show "\<exists>L1 L2. ?P L1 L2"
  proof (elim disjE exE conjE)
    assume "fst res = None" "after = c\<lparr>lowFundsAlert := False\<rparr>"
    then have "?P [] []" by simp
    then show ?thesis by blast
  next
    fix err c1 cs1 fr1 al1
    assume l1: "renewLoop K E renter (blockHeight c) False renewSet
                  (c, contractSet, fundsRemaining, False)
                = Some (Some err, (c1, cs1, fr1, al1))"
      and r: "fst res = None" "after = c1\<lparr>lowFundsAlert := al1\<rparr>"
    from renewLoop_log [OF l1] obtain L1 where
      "logged c1 = logged c @ L1"
      "\<forall>e \<in> set L1. \<exists>r \<in> set renewSet. renewalEntry e = Some (renewalID r)"
      by blast
    with r have "?P L1 []" by simp
    then show ?thesis by blast
  next
    fix st1 err c2 cs2 fr2 al2
    assume l1: "renewLoop K E renter (blockHeight c) False renewSet
                  (c, contractSet, fundsRemaining, False) = Some (None, st1)"
      and l2: "renewLoop K E renter (blockHeight c) True refreshSet st1
               = Some (Some err, (c2, cs2, fr2, al2))"
      and r: "fst res = None" "after = c2\<lparr>lowFundsAlert := al2\<rparr>"
    obtain c1 cs1 fr1 al1 where st1: "st1 = (c1, cs1, fr1, al1)"
      by (cases st1) auto
    from renewLoop_log [OF l1 [unfolded st1]] obtain L1 where
      L1: "logged c1 = logged c @ L1"
      "\<forall>e \<in> set L1. \<exists>r \<in> set renewSet. renewalEntry e = Some (renewalID r)"
      "\<forall>r \<in> set renewSet. \<exists>e \<in> set L1. renewalEntry e = Some (renewalID r)"
      by blast
    from renewLoop_log [OF l2 [unfolded st1]] obtain L2 where
      L2: "logged c2 = logged c1 @ L2"
      "\<forall>e \<in> set L2. \<exists>r \<in> set refreshSet. renewalEntry e = Some (renewalID r)"
      by blast
    from L1 L2 r have "?P L1 L2" by simp
    then show ?thesis by blast
  next
    fix st1 c2 cs2 fr2 al2
    assume l1: "renewLoop K E renter (blockHeight c) False renewSet
                  (c, contractSet, fundsRemaining, False) = Some (None, st1)"
      and l2: "renewLoop K E renter (blockHeight c) True refreshSet st1
               = Some (None, (c2, cs2, fr2, al2))"
      and r: "res = (Some cs2, None)"
        "after = (updateFailedRenews renewSet refreshSet c2)\<lparr>lowFundsAlert := al2\<rparr>"
    obtain c1 cs1 fr1 al1 where st1: "st1 = (c1, cs1, fr1, al1)"
      by (cases st1) auto
    from renewLoop_log [OF l1 [unfolded st1]] obtain L1 where
      L1: "logged c1 = logged c @ L1"
      "\<forall>e \<in> set L1. \<exists>r \<in> set renewSet. renewalEntry e = Some (renewalID r)"
      "\<forall>r \<in> set renewSet. \<exists>e \<in> set L1. renewalEntry e = Some (renewalID r)"
      by blast
    from renewLoop_log [OF l2 [unfolded st1]] obtain L2 where
      L2: "logged c2 = logged c1 @ L2"
      "\<forall>e \<in> set L2. \<exists>r \<in> set refreshSet. renewalEntry e = Some (renewalID r)"
      "\<forall>r \<in> set refreshSet. \<exists>e \<in> set L2. renewalEntry e = Some (renewalID r)"
      by blast
    have "logged after = logged c2"
      by (simp add: r(2) updateFailedRenews_def)
    with L1 L2 r have "?P L1 L2" by simp
    then show ?thesis by blast
  qed
qed

lemma example_classify_mixed:
  "classifyContracts exampleConstants exampleEnv mixedContractor exampleRenter 500 [12, 13, 11]
     ([], [], [], 0)
   = Inr ([exampleContract 13 ''R'' ''HHH'' 0 1100 10 True],
          [exampleRenewal],
          [\<lparr>renewalID = 12, amount = 7499, hostPubKey = ''HH'', renterPubKey = ''R''\<rparr>],
          100000)"
  by (simp add: classifyContract_def managedEstimateRenewFundingRequirements_def
        sumMaintenance_def renewHistorySpending_no_predecessor store_defs scenario_defs
        example_defs Let_def allowanceFundsRemaining_def sectorPriceOf_def MulFloat_def)

lemma example_pass_mixed:
  "\<exists>cs after.
     RenewContracts exampleConstants exampleEnv mixedContractor ''R'' [12, 13, 11]
     = Some ((Some cs, None), after)
   \<and> map ID cs = [13, 111, 112]
   \<and> logged after = [MarkingContractForRenew 11, MarkingContractForRenew 12]"
proof -
  have s: "synced exampleEnv" "blockHeight mixedContractor = 500"
    "map_of (renters mixedContractor) ''R'' = Some exampleRenter"
    "maxContractSliceCap exampleEnv = 2 ^ 39"
    by (simp_all add: scenario_defs example_defs)
  show ?thesis
    by (simp add: RenewContracts_def s example_classify_mixed del: classifyContracts.simps)
       (simp add: renewBatch_def renewIteration_def updateFailedRenews_def renew_defs
          store_defs scenario_defs example_defs Let_def)
qed

theorem refresh_set_classification_and_order_witness:
  "\<exists>contractSet renewSet refreshSet fundsRemaining res after L1 L2.
     classifyContracts exampleConstants exampleEnv mixedContractor exampleRenter
       (blockHeight mixedContractor) [12, 13, 11] ([], [], [], 0)
     = Inr (contractSet, renewSet, refreshSet, fundsRemaining)
   \<and> \<lparr>renewalID = 12, amount = 7499, hostPubKey = ''HH'', renterPubKey = ''R''\<rparr>
       \<in> set refreshSet
   \<and> exampleContract 13 ''R'' ''HHH'' 0 1100 10 True \<in> set contractSet
   \<and> 13 \<notin> renewalID ` (set renewSet \<union> set refreshSet)
   \<and> renewalID ` set renewSet \<inter> renewalID ` set refreshSet = {}
   \<and> RenewContracts exampleConstants exampleEnv mixedContractor ''R'' [12, 13, 11]
     = Some (res, after)
   \<and> fst res \<noteq> None
   \<and> logged after = logged mixedContractor @ L1 @ L2
   \<and> list_all (\<lambda>e. renewalEntry e \<in> Some ` renewalID ` set renewSet) L1
   \<and> list_all (\<lambda>e. renewalEntry e \<in> Some ` renewalID ` set refreshSet) L2
   \<and> list_all (\<lambda>r. Some (renewalID r) \<in> renewalEntry ` set L1) renewSet
   \<and> list_all (\<lambda>r. Some (renewalID r) \<in> renewalEntry ` set L2) refreshSet
   \<and> renewalID ` set renewSet = {11} \<and> renewalID ` set refreshSet = {12}"
proof -
  let ?c12 = "exampleContract 12 ''R'' ''HH'' 0 1100 10 False"
  let ?c13 = "exampleContract 13 ''R'' ''HHH'' 0 1100 10 True"
  let ?r12 = "\<lparr>renewalID = 12, amount = 7499, hostPubKey = ''HH'', renterPubKey = ''R''\<rparr>"
  have s: "synced exampleEnv"
    by (simp add: example_defs)
  have r: "map_of (renters mixedContractor) ''R'' = Some exampleRenter"
    by (simp add: scenario_defs example_defs)
  have b: "blockHeight mixedContractor = 500"
    by (simp add: scenario_defs example_defs)
  have cl: "classifyContracts exampleConstants exampleEnv mixedContractor exampleRenter
              (blockHeight mixedContractor) [12, 13, 11] ([], [], [], 0)
            = Inr ([?c13], [exampleRenewal], [?r12], 100000)"
    unfolding b by (rule example_classify_mixed)
  from example_pass_mixed obtain cs after where
    run: "RenewContracts exampleConstants exampleEnv mixedContractor ''R'' [12, 13, 11]
          = Some ((Some cs, None), after)"
    by blast
  have h: "12 \<in> set [12, 13, 11::nat]
      \<and> View mixedContractor 12 = Some ?c12
      \<and> RenterPublicKey ?c12 = PublicKey exampleRenter
      \<and> GoodForRenew (Utility ?c12) \<and> \<not> GoodForUpload (Utility ?c12)
      \<and> hdbHost exampleEnv (HostPublicKey ?c12) = (exampleHost ''HH'', True, None)
      \<and> \<not> Filtered (exampleHost ''HH'')
      \<and> versionSupported exampleEnv (Version (Settings (exampleHost ''HH'')))
      \<and> blockHeight mixedContractor + RenewWindow (RenterAllowance exampleRenter)
          < EndHeight ?c12
      \<and> (RenterFunds ?c12
            < sectorPriceOf exampleConstants (RenterAllowance exampleRenter)
                (Settings (exampleHost ''HH'')) * 3
          \<or> percentRemainingBelowThreshold exampleEnv (RenterFunds ?c12) (TotalCost ?c12))"
    by (simp add: store_defs scenario_defs example_defs sectorPriceOf_def)
  have k: "13 \<in> set [12, 13, 11::nat]
      \<and> View mixedContractor 13 = Some ?c13
      \<and> RenterPublicKey ?c13 = PublicKey exampleRenter
      \<and> GoodForUpload (Utility ?c13)
      \<and> blockHeight mixedContractor + RenewWindow (RenterAllowance exampleRenter)
          < EndHeight ?c13"
    by (simp add: store_defs scenario_defs example_defs)
  have a: "max (TotalCost ?c12 * 2)
             (MulFloat (Funds (RenterAllowance exampleRenter))
                (fileContractMinimumFunding exampleConstants)
              div unat (Hosts (RenterAllowance exampleRenter))) = 7499"
    "HostPublicKey ?c12 = ''HH''" "PublicKey exampleRenter = ''R''"
    by (simp_all add: example_defs MulFloat_def)
  note t = refresh_set_classification_and_order [OF s r cl, where fcid = 12 and rc = ?c12
      and host = "exampleHost ''HH''" and ex = True and kept = 13 and krc = ?c13
      and res = "(Some cs, None)" and after = after]
  have 1: "?r12 \<in> set [?r12]"
    using mp [OF t [THEN conjunct1] h] unfolding a .
  have 2: "?c13 \<in> set [?c13] \<and> 13 \<notin> renewalID ` (set [exampleRenewal] \<union> set [?r12])"
    using mp [OF t [THEN conjunct2, THEN conjunct1] k] .
  have 3: "renewalID ` set [exampleRenewal] \<inter> renewalID ` set [?r12] = {}"
    using t [THEN conjunct2, THEN conjunct2, THEN conjunct1] .
  from mp [OF t [THEN conjunct2, THEN conjunct2, THEN conjunct2] run]
  obtain L1 L2 where
    L: "logged after = logged mixedContractor @ L1 @ L2"
    "\<forall>e \<in> set L1. \<exists>r \<in> set [exampleRenewal]. renewalEntry e = Some (renewalID r)"
    "\<forall>e \<in> set L2. \<exists>r \<in> set [?r12]. renewalEntry e = Some (renewalID r)"
    "\<forall>r \<in> set [exampleRenewal]. \<exists>e \<in> set L1. renewalEntry e = Some (renewalID r)"
    "\<forall>r \<in> set [?r12]. \<exists>e \<in> set L2. renewalEntry e = Some (renewalID r)"
    by auto
  have 4: "list_all (\<lambda>e. renewalEntry e \<in> Some ` renewalID ` set [exampleRenewal]) L1"
    "list_all (\<lambda>e. renewalEntry e \<in> Some ` renewalID ` set [?r12]) L2"
    using L(2,3) by (auto simp: list_all_iff)
  have 5: "list_all (\<lambda>r. Some (renewalID r) \<in> renewalEntry ` set L1) [exampleRenewal]"
    "list_all (\<lambda>r. Some (renewalID r) \<in> renewalEntry ` set L2) [?r12]"
    using L(4,5) by (auto simp: list_all_iff image_iff) metis+
  have 6: "renewalID ` set [exampleRenewal] = {11}" "renewalID ` set [?r12] = {12}"
    by (simp_all add: exampleRenewal_def)
  have 7: "fst (Some cs, None :: error option) \<noteq> None"
    by simp
  from cl 1 2 3 run 7 L(1) 4 5 6 show ?thesis
    by blast
qed

text \<open>
  C7 as stated fails: a contract that is good for renew, not yet inside its renew window
  and nearly out of funds, but still good for upload, is kept in the contract set as it
  is and is not placed in the refresh set.
\<close>

theorem refresh_set_counterexample:
  "View exhaustedUploadContractor 11 = Some (exampleContract 11 ''R'' ''H'' 0 1100 10 True)
   \<and> GoodForRenew (Utility (exampleContract 11 ''R'' ''H'' 0 1100 10 True))
   \<and> blockHeight exhaustedUploadContractor + RenewWindow exampleAllowance
       < EndHeight (exampleContract 11 ''R'' ''H'' 0 1100 10 True)
   \<and> RenterFunds (exampleContract 11 ''R'' ''H'' 0 1100 10 True)
       < sectorPriceOf exampleConstants exampleAllowance exampleSettings * 3
   \<and> classifyContracts exampleConstants exampleEnv exhaustedUploadContractor exampleRenter
       (blockHeight exhaustedUploadContractor) [11] ([], [], [], 0)
     = Inr ([exampleContract 11 ''R'' ''H'' 0 1100 10 True], [], [], 0)"
  by (simp add: classifyContract_def store_defs scenario_defs example_defs Let_def
        sectorPriceOf_def)

subsection \<open>Duplicate contracts\<close>

lemma find_live:
  "distinct (map ID cs) \<Longrightarrow> rc \<in> set cs \<Longrightarrow> find (\<lambda>r. ID r = ID rc) cs = Some rc"
  by (induction cs) (auto simp: image_iff)

lemma View_live:
  "distinct (map ID (staticContracts c)) \<Longrightarrow> rc \<in> set (staticContracts c)
   \<Longrightarrow> View c (ID rc) = Some rc"
  by (simp add: View_def find_live)

lemma View_in_store: "View c i = Some rc \<Longrightarrow> rc \<in> set (staticContracts c)"
  by (auto simp: View_def find_Some_iff)

lemma live_ID_inj:
  "distinct (map ID cs) \<Longrightarrow> a \<in> set cs \<Longrightarrow> b \<in> set cs \<Longrightarrow> ID a = ID b \<Longrightarrow> a = b"
  by (simp add: distinct_map inj_on_def)

lemma View_not_live: "i \<notin> ID ` set (staticContracts c) \<Longrightarrow> View c i = None"
  by (auto simp: View_def find_None_iff)

lemma duplicatePairs_foundEntry [simp]: "duplicatePairs (map foundEntry pairs) = pairs"
  by (induction pairs) (simp_all add: foundEntry_def)

lemma takeWhile_until: "a \<notin> set xs \<Longrightarrow> takeWhile (\<lambda>i. i \<noteq> a) (xs @ a # ys) = xs"
  by (induction xs) auto

lemma visitedBefore_prefix:
  assumes "staticContracts c0 = visited @ x # rest"
    and "distinct (map ID (staticContracts c0))" and "rc \<in> set visited"
  shows "visitedBefore c0 (ID rc) (ID x)"
proof -
  have n: "ID x \<notin> set (map ID visited)"
    using assms(1,2) by auto
  have "takeWhile (\<lambda>i. i \<noteq> ID x) (map ID visited @ ID x # map ID rest) = map ID visited"
    using n by (rule takeWhile_until)
  then show ?thesis
    using assms(1,3) by (simp add: visitedBefore_def ViewAll_def)
qed

text \<open>One iteration of the loop keeps the invariant, if it returns.\<close>

lemma dedupInv_step:
  assumes inv: "dedupInv c0 visited (x # rest) pairs (pubkeys, c)"
    and d0: "distinct (map ID (staticContracts c0))"
    and step: "checkDuplicate x (pubkeys, c) = Some st'"
  shows "\<exists>pairs'. dedupInv c0 (visited @ [x]) rest pairs' st'"
proof -
  let ?lost = "snd ` set pairs"
  from inv have sc0: "staticContracts c0 = visited @ x # rest"
    and lg: "logged c = logged c0 @ map foundEntry pairs"
    and live: "staticContracts c = filter (\<lambda>y. ID y \<notin> ?lost) (staticContracts c0)"
    and los: "?lost \<subseteq> ID ` set visited"
    and aq: "acquired c = acquired c0"
    and pa: "\<forall>rc \<in> set visited. ID rc \<notin> ?lost \<longrightarrow> pubkeys (contractKey rc) = Some (ID rc)"
    and pb: "\<forall>k i. pubkeys k = Some i
              \<longrightarrow> (\<exists>rc \<in> set visited. ID rc = i \<and> contractKey rc = k \<and> ID rc \<notin> ?lost)"
    and mx: "\<forall>y \<in> set visited. \<exists>rc \<in> set visited.
               ID rc \<notin> ?lost \<and> contractKey rc = contractKey y
               \<and> StartHeight y \<le> StartHeight rc"
    and rs: "\<forall>p \<in> set pairs. duplicateResolved c0 c p"
    and rf: "\<forall>n. renewedFrom c n
               = (case map_of (rev pairs) n of
                    None \<Rightarrow> renewedFrom c0 n
                  | Some older \<Rightarrow> Some older)"
    by (simp_all add: dedupInv_def)
  have sc0': "staticContracts c0 = (visited @ [x]) @ rest"
    using sc0 by simp
  have inj0: "\<And>a b. a \<in> set (staticContracts c0) \<Longrightarrow> b \<in> set (staticContracts c0)
                \<Longrightarrow> ID a = ID b \<Longrightarrow> a = b"
    using d0 by (rule live_ID_inj)
  have d: "distinct (map ID (staticContracts c))"
    using d0 by (simp add: live distinct_map_filter)
  have vin0: "set visited \<subseteq> set (staticContracts c0)" and xin0: "x \<in> set (staticContracts c0)"
    using sc0 by auto
  have xid: "ID x \<notin> ID ` set visited"
    using d0 sc0 by auto
  have xlost: "ID x \<notin> ?lost"
    using xid los by auto
  have inlive: "\<And>y. y \<in> set (staticContracts c0) \<Longrightarrow> ID y \<notin> ?lost
                  \<Longrightarrow> y \<in> set (staticContracts c)"
    by (simp add: live)
  have xlive: "x \<in> set (staticContracts c)"
    using xin0 xlost by (rule inlive)
  show ?thesis
  proof (cases "pubkeys (contractKey x)")
    case None
    let ?pk = "pubkeys(contractKey x \<mapsto> ID x)"
    from step None have st': "st' = (?pk, c)"
      by (simp add: checkDuplicate_def contractKey_def Let_def)
    have los': "?lost \<subseteq> ID ` set (visited @ [x])"
      using los by auto
    have pa': "\<forall>rc \<in> set (visited @ [x]). ID rc \<notin> ?lost \<longrightarrow> ?pk (contractKey rc) = Some (ID rc)"
    proof (intro ballI impI)
      fix rc assume rc: "rc \<in> set (visited @ [x])" and l: "ID rc \<notin> ?lost"
      show "?pk (contractKey rc) = Some (ID rc)"
      proof (cases "rc = x")
        case True
        then show ?thesis by simp
      next
        case False
        with rc have v: "rc \<in> set visited" by simp
        with pa l have p: "pubkeys (contractKey rc) = Some (ID rc)" by blast
        with None have "contractKey rc \<noteq> contractKey x" by auto
        with p show ?thesis by simp
      qed
    qed
    have pb': "\<forall>k i. ?pk k = Some i
              \<longrightarrow> (\<exists>rc \<in> set (visited @ [x]). ID rc = i \<and> contractKey rc = k \<and> ID rc \<notin> ?lost)"
    proof (intro allI impI)
      fix k i assume a: "?pk k = Some i"
      show "\<exists>rc \<in> set (visited @ [x]). ID rc = i \<and> contractKey rc = k \<and> ID rc \<notin> ?lost"
      proof (cases "k = contractKey x")
        case True
        with a xlost show ?thesis by auto
      next
        case False
        with a have "pubkeys k = Some i" by simp
        with pb show ?thesis by auto
      qed
    qed
    have mx': "\<forall>y \<in> set (visited @ [x]). \<exists>rc \<in> set (visited @ [x]).
               ID rc \<notin> ?lost \<and> contractKey rc = contractKey y
               \<and> StartHeight y \<le> StartHeight rc"
    proof
      fix y assume "y \<in> set (visited @ [x])"
      then have "y = x \<or> y \<in> set visited" by auto
      then show "\<exists>rc \<in> set (visited @ [x]).
               ID rc \<notin> ?lost \<and> contractKey rc = contractKey y
               \<and> StartHeight y \<le> StartHeight rc"
      proof
        assume "y = x"
        with xlost show ?thesis by auto
      next
        assume "y \<in> set visited"
        with mx show ?thesis by auto
      qed
    qed
    have "dedupInv c0 (visited @ [x]) rest pairs st'"
      unfolding st' dedupInv_def prod.case
      using sc0' lg live los' aq pa' pb' mx' rs rf by blast
    then show ?thesis by blast
  next
    case (Some i)
    from pb Some obtain rc where rcv: "rc \<in> set visited" and rci: "ID rc = i"
      and krc: "contractKey rc = contractKey x" and rcl: "ID rc \<notin> ?lost"
      by blast
    have rcin0: "rc \<in> set (staticContracts c0)"
      using rcv vin0 by auto
    have rclive: "rc \<in> set (staticContracts c)"
      using rcin0 rcl by (rule inlive)
    have vrc: "View c i = Some rc"
      using View_live [OF d rclive] rci by simp
    have rcx: "rc \<noteq> x"
      using rcv xid by auto
    define new where "new = (if StartHeight rc \<ge> StartHeight x then rc else x)"
    define old where "old = (if StartHeight rc \<ge> StartHeight x then x else rc)"
    have cases: "(new = rc \<and> old = x \<and> StartHeight x \<le> StartHeight rc)
                 \<or> (new = x \<and> old = rc \<and> StartHeight rc < StartHeight x)"
      by (auto simp: new_def old_def)
    have newin0: "new \<in> set (staticContracts c0)" and oldin0: "old \<in> set (staticContracts c0)"
      and newlive: "new \<in> set (staticContracts c)" and oldlive: "old \<in> set (staticContracts c)"
      and knew: "contractKey new = contractKey x" and kold: "contractKey old = contractKey x"
      and neq: "new \<noteq> old"
      and newvis: "new \<in> set (visited @ [x])" and oldvis: "old \<in> set (visited @ [x])"
      and newl: "ID new \<notin> ?lost" and oldl: "ID old \<notin> ?lost"
      and shx: "StartHeight x \<le> StartHeight new" and sho: "StartHeight old \<le> StartHeight new"
      using cases rcin0 xin0 rclive xlive krc rcx rcv rcl xlost by auto
    have idneq: "ID new \<noteq> ID old"
      using inj0 [OF newin0 oldin0] neq by blast
    have order: "StartHeight old < StartHeight new
                 \<or> StartHeight old = StartHeight new \<and> visitedBefore c0 (ID new) (ID old)"
    proof -
      from cases show ?thesis
      proof
        assume a: "new = rc \<and> old = x \<and> StartHeight x \<le> StartHeight rc"
        have "visitedBefore c0 (ID rc) (ID x)"
          using sc0 d0 rcv by (rule visitedBefore_prefix)
        with a show ?thesis by auto
      next
        assume "new = x \<and> old = rc \<and> StartHeight rc < StartHeight x"
        then show ?thesis by simp
      qed
    qed
    let ?entry = "DuplicateContractFound (ID new) (ID old)"
    let ?c1 = "c\<lparr>logged := logged c @ [?entry]\<rparr>"
    have vold1: "View ?c1 (ID old) = Some old"
      using View_live [OF d oldlive] by (simp add: View_def)
    have free: "ID old \<notin> acquired c"
    proof
      assume "ID old \<in> acquired c"
      then have "ID old \<in> acquired ?c1" by simp
      with vold1 have "Acquire ?c1 (ID old) = None" by (rule Acquire_blocks)
      with step Some vrc show False
        by (simp add: checkDuplicate_def contractKey_def Let_def new_def old_def
              split: if_splits)
    qed
    let ?c2 = "?c1\<lparr>acquired := insert (ID old) (acquired ?c1)\<rparr>"
    have acq: "Acquire ?c1 (ID old) = Some (Some old, ?c2)"
      using vold1 free by (intro Acquire_live) simp_all
    let ?c3 = "?c2\<lparr>renewedFrom := (renewedFrom ?c2)(ID new \<mapsto> ID old),
                    renewedTo := (renewedTo ?c2)(ID old \<mapsto> ID new),
                    oldContracts := (oldContracts ?c2)(ID old \<mapsto> old)\<rparr>"
    define c' where "c' = Delete ?c3 (ID old)"
    let ?pk = "pubkeys(contractKey x \<mapsto> ID new)"
    let ?pairs = "pairs @ [(ID new, ID old)]"
    let ?lost' = "snd ` set ?pairs"
    from step Some vrc acq have st': "st' = (?pk, c')"
      by (simp add: checkDuplicate_def contractKey_def Let_def new_def old_def c'_def
            split: if_splits)
    have lost': "?lost' = insert (ID old) ?lost"
      by auto
    have f1: "logged c' = logged c0 @ map foundEntry ?pairs"
      by (simp add: c'_def Delete_def lg foundEntry_def)
    have f2: "staticContracts c' = filter (\<lambda>y. ID y \<notin> ?lost') (staticContracts c0)"
      unfolding lost' by (auto simp: c'_def Delete_def live intro: filter_cong)
    have f3: "?lost' \<subseteq> ID ` set (visited @ [x])"
      unfolding lost' using los oldvis by auto
    have f4: "acquired c' = acquired c0"
      using free aq by (auto simp: c'_def Delete_def)
    have f5: "\<forall>r \<in> set (visited @ [x]). ID r \<notin> ?lost'
                \<longrightarrow> ?pk (contractKey r) = Some (ID r)"
    proof (intro ballI impI)
      fix r assume r: "r \<in> set (visited @ [x])" and l: "ID r \<notin> ?lost'"
      from l have rl: "ID r \<notin> ?lost" and ro: "ID r \<noteq> ID old" by (auto simp: lost')
      show "?pk (contractKey r) = Some (ID r)"
      proof (cases "contractKey r = contractKey x")
        case True
        have "r = new"
        proof (cases "r = x")
          case True
          with ro cases show ?thesis by auto
        next
          case False
          with r have rv: "r \<in> set visited" by simp
          with pa rl have "pubkeys (contractKey r) = Some (ID r)" by blast
          with True Some rci have "ID r = ID rc" by simp
          with inj0 [of r rc] rv vin0 rcin0 have "r = rc" by auto
          with ro cases show ?thesis by auto
        qed
        with knew show ?thesis by simp
      next
        case False
        with r kold oldvis have "r \<noteq> x" by auto
        with r have "r \<in> set visited" by simp
        with pa rl have "pubkeys (contractKey r) = Some (ID r)" by blast
        with False show ?thesis by simp
      qed
    qed
    have f6: "\<forall>k j. ?pk k = Some j
              \<longrightarrow> (\<exists>r \<in> set (visited @ [x]). ID r = j \<and> contractKey r = k \<and> ID r \<notin> ?lost')"
    proof (intro allI impI)
      fix k j assume a: "?pk k = Some j"
      show "\<exists>r \<in> set (visited @ [x]). ID r = j \<and> contractKey r = k \<and> ID r \<notin> ?lost'"
      proof (cases "k = contractKey x")
        case True
        with a have "j = ID new" by simp
        with newvis knew newl idneq True show ?thesis by (auto simp: lost')
      next
        case False
        with a have "pubkeys k = Some j" by simp
        with pb obtain r where r: "r \<in> set visited" "ID r = j" "contractKey r = k"
          "ID r \<notin> ?lost" by blast
        from r(3) False kold have "r \<noteq> old" by auto
        with inj0 [of r old] r(1) vin0 oldin0 have "ID r \<noteq> ID old" by auto
        with r show ?thesis by (auto simp: lost')
      qed
    qed
    have newl': "ID new \<notin> ?lost'"
      using newl idneq by (simp add: lost')
    have f7: "\<forall>y \<in> set (visited @ [x]). \<exists>r \<in> set (visited @ [x]).
               ID r \<notin> ?lost' \<and> contractKey r = contractKey y
               \<and> StartHeight y \<le> StartHeight r"
    proof
      fix y assume "y \<in> set (visited @ [x])"
      then have "y = x \<or> y \<in> set visited" by auto
      then show "\<exists>r \<in> set (visited @ [x]).
               ID r \<notin> ?lost' \<and> contractKey r = contractKey y
               \<and> StartHeight y \<le> StartHeight r"
      proof
        assume "y = x"
        with newvis newl' knew shx show ?thesis by blast
      next
        assume "y \<in> set visited"
        with mx obtain r where r: "r \<in> set visited" "ID r \<notin> ?lost"
          "contractKey r = contractKey y" "StartHeight y \<le> StartHeight r" by blast
        show ?thesis
        proof (cases "ID r = ID old")
          case True
          with inj0 [of r old] r(1) vin0 oldin0 have "r = old" by auto
          with r kold knew sho have "contractKey new = contractKey y"
            "StartHeight y \<le> StartHeight new" by auto
          with newvis newl' show ?thesis by blast
        next
          case False
          with r have "ID r \<notin> ?lost'" by (simp add: lost')
          with r show ?thesis by auto
        qed
      qed
    qed
    have vc': "View c' j = (if j = ID old then None else View c j)" for j
      by (simp add: c'_def View_def Delete_def find_filter_ID)
    have m': "renewedFrom c' = (renewedFrom c)(ID new \<mapsto> ID old)"
      "renewedTo c' = (renewedTo c)(ID old \<mapsto> ID new)"
      "oldContracts c' = (oldContracts c)(ID old \<mapsto> old)"
      by (simp_all add: c'_def Delete_def)
    have v0: "View c0 (ID new) = Some new" "View c0 (ID old) = Some old"
      using View_live [OF d0] newin0 oldin0 by simp_all
    have voldc: "View c (ID old) = Some old"
      using View_live [OF d oldlive] .
    have f8: "\<forall>p \<in> set ?pairs. duplicateResolved c0 c' p"
    proof
      fix p assume "p \<in> set ?pairs"
      then have "p \<in> set pairs \<or> p = (ID new, ID old)" by auto
      then show "duplicateResolved c0 c' p"
      proof
        assume pp: "p \<in> set pairs"
        with rs have a: "duplicateResolved c0 c p" by blast
        then have "View c (snd p) = None"
          by (auto simp: duplicateResolved_def split: option.splits)
        with voldc have "snd p \<noteq> ID old" by auto
        with a show ?thesis
          by (auto simp: duplicateResolved_def vc' m' split: option.splits)
      next
        assume "p = (ID new, ID old)"
        with v0 knew kold order show ?thesis
          by (simp add: duplicateResolved_def vc' m')
      qed
    qed
    have f9: "\<forall>n. renewedFrom c' n
               = (case map_of (rev ?pairs) n of
                    None \<Rightarrow> renewedFrom c0 n
                  | Some older \<Rightarrow> Some older)"
      using rf by (simp add: m')
    have "dedupInv c0 (visited @ [x]) rest ?pairs st'"
      unfolding st' dedupInv_def prod.case
      using sc0' f1 f2 f3 f4 f5 f6 f7 f8 f9 by blast
    then show ?thesis by blast
  qed
qed

lemma checkDuplicates_inv:
  assumes "dedupInv c0 visited todo pairs st"
    and "distinct (map ID (staticContracts c0))"
    and "checkDuplicates todo st = Some st'"
  shows "\<exists>pairs'. dedupInv c0 (visited @ todo) [] pairs' st'"
  using assms(1,3)
proof (induction todo arbitrary: visited pairs st)
  case Nil
  then show ?case by auto
next
  case (Cons x rest)
  obtain pubkeys c where st: "st = (pubkeys, c)" by (cases st)
  from Cons.prems(2) obtain st1 where
    1: "checkDuplicate x st = Some st1" and 2: "checkDuplicates rest st1 = Some st'"
    by (auto split: option.splits)
  from dedupInv_step [OF Cons.prems(1) [unfolded st] assms(2) 1 [unfolded st]]
  obtain pairs1 where "dedupInv c0 (visited @ [x]) rest pairs1 st1" by blast
  from Cons.IH [OF this 2] show ?case by simp
qed

lemma dedupInv_initial: "dedupInv c [] (staticContracts c) [] (Map.empty, c)"
  by (simp add: dedupInv_def)

text \<open>
  C1, as the code has it. After \<open>managedCheckForDuplicates\<close> has returned, no two
  live contracts share the renter and the host public key. The duplicate pairs that were
  found are those of the log; the live contracts are the contracts that were live before
  and are the older one of no pair, and for every contract that was live before there is
  a live contract with the same key that does not start earlier. Every pair that was
  found is resolved: its two contracts were live and had the same key, the older one
  started before the newer one or at the same height and was then visited after it, and
  the older one is no longer live, has its metadata stored in \<open>oldContracts\<close> under
  its id, and \<open>renewedTo\<close> leads from it to the newer one. \<open>renewedFrom\<close> of a
  contract is the older contract of the last pair that was found with it as the newer
  one, and is unchanged for every other id. The ids of the live contracts are distinct,
  as the keys of the store's map are.
\<close>

theorem duplicates_resolved:
  assumes "distinct (map ID (ViewAll c))"
    and "managedCheckForDuplicates c = Some after"
    and "found = duplicatePairs (drop (length (logged c)) (logged after))"
  shows "(\<forall>a \<in> set (ViewAll after). \<forall>b \<in> set (ViewAll after).
            RenterPublicKey a = RenterPublicKey b \<and> HostPublicKey a = HostPublicKey b
            \<longrightarrow> a = b)
       \<and> logged after = logged c @ map foundEntry found
       \<and> ViewAll after = filter (\<lambda>x. ID x \<notin> snd ` set found) (ViewAll c)
       \<and> (\<forall>x \<in> set (ViewAll c). \<exists>rc \<in> set (ViewAll after).
             contractKey rc = contractKey x \<and> StartHeight x \<le> StartHeight rc)
       \<and> (\<forall>p \<in> set found. duplicateResolved c after p)
       \<and> (\<forall>n. renewedFrom after n
                = (case map_of (rev found) n of
                     None \<Rightarrow> renewedFrom c n
                   | Some older \<Rightarrow> Some older))"
proof -
  have d: "distinct (map ID (staticContracts c))"
    using assms(1) by (simp add: ViewAll_def)
  from assms(2) obtain pubkeys where
    run: "checkDuplicates (staticContracts c) (Map.empty, c) = Some (pubkeys, after)"
    by (auto simp: managedCheckForDuplicates_def ViewAll_def)
  from checkDuplicates_inv [OF dedupInv_initial d run]
  obtain pairs where inv: "dedupInv c (staticContracts c) [] pairs (pubkeys, after)"
    by auto
  let ?lost = "snd ` set pairs"
  from inv have lg: "logged after = logged c @ map foundEntry pairs"
    and live: "staticContracts after = filter (\<lambda>y. ID y \<notin> ?lost) (staticContracts c)"
    and pa: "\<forall>rc \<in> set (staticContracts c). ID rc \<notin> ?lost
               \<longrightarrow> pubkeys (contractKey rc) = Some (ID rc)"
    and mx: "\<forall>y \<in> set (staticContracts c). \<exists>rc \<in> set (staticContracts c).
               ID rc \<notin> ?lost \<and> contractKey rc = contractKey y
               \<and> StartHeight y \<le> StartHeight rc"
    and rs: "\<forall>p \<in> set pairs. duplicateResolved c after p"
    and rf: "\<forall>n. renewedFrom after n
               = (case map_of (rev pairs) n of
                    None \<Rightarrow> renewedFrom c n
                  | Some older \<Rightarrow> Some older)"
    by (simp_all add: dedupInv_def)
  have f: "found = pairs"
    by (simp add: assms(3) lg)
  have uniq: "\<forall>a \<in> set (ViewAll after). \<forall>b \<in> set (ViewAll after).
            RenterPublicKey a = RenterPublicKey b \<and> HostPublicKey a = HostPublicKey b
            \<longrightarrow> a = b"
  proof (intro ballI impI)
    fix a b assume a: "a \<in> set (ViewAll after)" and b: "b \<in> set (ViewAll after)"
      and k: "RenterPublicKey a = RenterPublicKey b \<and> HostPublicKey a = HostPublicKey b"
    from a b have a0: "a \<in> set (staticContracts c)" "ID a \<notin> ?lost"
      and b0: "b \<in> set (staticContracts c)" "ID b \<notin> ?lost"
      by (simp_all add: ViewAll_def live)
    from pa a0 have "pubkeys (contractKey a) = Some (ID a)" by blast
    moreover from pa b0 have "pubkeys (contractKey b) = Some (ID b)" by blast
    moreover from k have "contractKey a = contractKey b" by (simp add: contractKey_def)
    ultimately have "ID a = ID b" by simp
    with live_ID_inj [OF d a0(1) b0(1)] show "a = b" .
  qed
  have kept: "\<forall>x \<in> set (ViewAll c). \<exists>rc \<in> set (ViewAll after).
             contractKey rc = contractKey x \<and> StartHeight x \<le> StartHeight rc"
  proof
    fix x assume "x \<in> set (ViewAll c)"
    with mx obtain rc where "rc \<in> set (staticContracts c)" "ID rc \<notin> ?lost"
      "contractKey rc = contractKey x" "StartHeight x \<le> StartHeight rc"
      by (auto simp: ViewAll_def)
    then show "\<exists>rc \<in> set (ViewAll after).
             contractKey rc = contractKey x \<and> StartHeight x \<le> StartHeight rc"
      by (auto simp: ViewAll_def live)
  qed
  have lv: "ViewAll after = filter (\<lambda>x. ID x \<notin> snd ` set found) (ViewAll c)"
    by (simp add: ViewAll_def live f)
  from uniq lg lv kept rs rf show ?thesis
    unfolding f by blast
qed

lemma example_duplicates:
  "\<exists>after. managedCheckForDuplicates duplicatesContractor = Some after
     \<and> map ID (ViewAll after) = [13]
     \<and> logged after = [DuplicateContractFound 13 11, DuplicateContractFound 13 12]
     \<and> renewedFrom after 13 = Some 12"
  by (simp add: managedCheckForDuplicates_def checkDuplicate_def store_defs scenario_defs
        example_defs Let_def)

lemma example_duplicates_before:
  "logged duplicatesContractor = []" "map ID (ViewAll duplicatesContractor) = [13, 11, 12]"
  "map StartHeight (ViewAll duplicatesContractor) = [300, 100, 200]"
  by (simp_all add: store_defs scenario_defs example_defs)

theorem duplicates_resolved_witness:
  "\<exists>after. managedCheckForDuplicates duplicatesContractor = Some after
     \<and> map ID (ViewAll after) = [13]
     \<and> duplicatePairs (drop (length (logged duplicatesContractor)) (logged after))
       = [(13, 11), (13, 12)]
     \<and> duplicateResolved duplicatesContractor after (13, 11)
     \<and> duplicateResolved duplicatesContractor after (13, 12)
     \<and> renewedFrom after 13 = Some 12"
proof -
  from example_duplicates obtain after where
    a: "managedCheckForDuplicates duplicatesContractor = Some after"
    and v: "map ID (ViewAll after) = [13]"
    and l: "logged after = [DuplicateContractFound 13 11, DuplicateContractFound 13 12]"
    by auto
  note b = example_duplicates_before
  have d: "distinct (map ID (ViewAll duplicatesContractor))"
    by (simp add: b)
  have f: "duplicatePairs (drop (length (logged duplicatesContractor)) (logged after))
           = [(13, 11), (13, 12)]"
    by (simp add: b l)
  note t = duplicates_resolved [OF d a refl, unfolded f]
  from t have r: "\<forall>p \<in> set [(13, 11), (13, 12)]. duplicateResolved duplicatesContractor after p"
    by blast
  from t have "\<forall>n. renewedFrom after n
                = (case map_of (rev [(13, 11), (13, 12)]) n of
                     None \<Rightarrow> renewedFrom duplicatesContractor n
                   | Some older \<Rightarrow> Some older)"
    by blast
  then have "renewedFrom after 13 = Some 12"
    by simp
  with a v f r show ?thesis
    by (intro exI [of _ after]) simp
qed

text \<open>
  C1 as stated fails where three live contracts share their keys. With the contracts
  13, 11 and 12 (start heights 300, 100, 200) visited in this order, the duplicate pairs
  (13, 11) and (13, 12) are found; contract 13 remains live, but \<open>renewedFrom\<close> of 13
  is 12 at the end, not 11, the loser of the first pair.
\<close>

theorem duplicates_counterexample:
  "\<exists>after. managedCheckForDuplicates duplicatesContractor = Some after
     \<and> map ID (ViewAll duplicatesContractor) = [13, 11, 12]
     \<and> map StartHeight (ViewAll duplicatesContractor) = [300, 100, 200]
     \<and> DuplicateContractFound 13 11 \<in> set (logged after)
     \<and> map ID (ViewAll after) = [13]
     \<and> renewedFrom after 13 = Some 12"
proof -
  from example_duplicates obtain after where
    "managedCheckForDuplicates duplicatesContractor = Some after"
    "map ID (ViewAll after) = [13]"
    "logged after = [DuplicateContractFound 13 11, DuplicateContractFound 13 12]"
    "renewedFrom after 13 = Some 12"
    by auto
  with example_duplicates_before show ?thesis
    by (intro exI [of _ after]) simp
qed

text \<open>
  Two contracts with the same keys that start at the same height: the one that the loop
  visits first stays live, the one it visits second is archived.
\<close>

lemma example_duplicates_tie:
  "\<exists>after. managedCheckForDuplicates tiedContractor = Some after
     \<and> map ID (ViewAll tiedContractor) = [21, 22]
     \<and> map ID (ViewAll after) = [21]
     \<and> logged after = [DuplicateContractFound 21 22]
     \<and> duplicateResolved tiedContractor after (21, 22)"
  by (simp add: managedCheckForDuplicates_def checkDuplicate_def duplicateResolved_def
        visitedBefore_def contractKey_def store_defs scenario_defs example_defs Let_def)

end
